(* ===== verification/Prelude.thy ===== *)
theory Prelude
  imports Complex_Main "HOL-Library.Word"
begin

text \<open>
  The shared base of the development: the rounding of Python's \<open>round\<close>, the list
  operations the numeric stages use (slices, minimum, maximum, mean), and the state-and-exception
  monad every effectful operation of the worker is written in. Python floats are modelled as
  real numbers: rounding errors, overflow and NaN of binary64 arithmetic are outside the model,
  and an infinity is a constructor of its own where the code relies on one.
\<close>

named_theorems prog_simps \<open>how a composed program runs from a given state\<close>
named_theorems keeps_rules \<open>programs that keep a state predicate\<close>
named_theorems round_simps \<open>rounding of concrete and bounded numbers\<close>

section \<open>Rounding\<close>

text \<open>Python's \<open>round(x)\<close> (and \<open>np.round\<close>): to the nearest integer, ties to even.\<close>

definition py_round :: "real \<Rightarrow> int" where
  "py_round x =
     (let f = \<lfloor>x\<rfloor>; d = x - of_int f
      in if d < 1 / 2 then f
         else if 1 / 2 < d then f + 1
         else if even f then f else f + 1)"

text \<open>\<open>round(x, n)\<close>: to \<open>n\<close> decimal digits.\<close>

definition py_round_to :: "nat \<Rightarrow> real \<Rightarrow> real" where
  "py_round_to n x = of_int (py_round (x * 10 ^ n)) / 10 ^ n"

lemma py_round_of_int [simp]: "py_round (of_int k) = k"
  by (simp add: py_round_def)

lemma py_round_numeral [simp]: "py_round (numeral k) = numeral k"
  using py_round_of_int [of "numeral k"] by simp

lemma py_round_0 [simp]: "py_round 0 = 0" and py_round_1 [simp]: "py_round 1 = 1"
  using py_round_of_int [of 0] py_round_of_int [of 1] by simp_all

lemma py_round_cases: "py_round x = \<lfloor>x\<rfloor> \<or> py_round x = \<lfloor>x\<rfloor> + 1"
  by (simp add: py_round_def Let_def)

lemma py_round_near: "\<bar>of_int (py_round x) - x\<bar> \<le> 1 / 2"
  unfolding py_round_def Let_def by (simp add: abs_le_iff)

lemma py_round_ge_of_le: "of_int a \<le> x \<Longrightarrow> a \<le> py_round x"
proof -
  assume "of_int a \<le> x"
  then have "a \<le> \<lfloor>x\<rfloor>" by (simp add: le_floor_iff)
  then show ?thesis using py_round_cases [of x] by auto
qed

lemma py_round_le_of_le:
  assumes "x \<le> of_int b"
  shows "py_round x \<le> b"
proof (cases "x = of_int b")
  case True
  then show ?thesis by simp
next
  case False
  with assms have "\<lfloor>x\<rfloor> < b" by (simp add: floor_less_iff)
  then show ?thesis using py_round_cases [of x] by auto
qed

lemma py_round_le_of_near:
  assumes "x < of_int b + 1 / 2"
  shows "py_round x \<le> b"
proof -
  have "of_int (py_round x) \<le> x + 1 / 2" using py_round_near [of x] by linarith
  with assms have "(of_int (py_round x) :: real) < of_int (b + 1)" by simp
  then show ?thesis by (simp only: of_int_less_iff)
qed

lemma py_round_mono:
  assumes "x \<le> y"
  shows "py_round x \<le> py_round y"
proof (cases "\<lfloor>x\<rfloor> = \<lfloor>y\<rfloor>")
  case True
  with assms show ?thesis unfolding py_round_def Let_def by auto
next
  case False
  with assms have "\<lfloor>x\<rfloor> + 1 \<le> \<lfloor>y\<rfloor>" using floor_mono [OF assms] by linarith
  then show ?thesis using py_round_cases [of x] py_round_cases [of y] by auto
qed

lemma py_round_to_bounds:
  assumes "of_int a \<le> x" and "x \<le> of_int b"
  shows "of_int a \<le> py_round_to n x" and "py_round_to n x \<le> of_int b"
proof -
  have p: "(0::real) < 10 ^ n" by simp
  have "of_int (a * 10 ^ n) \<le> x * 10 ^ n" and "x * 10 ^ n \<le> of_int (b * 10 ^ n)"
    using assms p by simp_all
  then have "a * 10 ^ n \<le> py_round (x * 10 ^ n)" and "py_round (x * 10 ^ n) \<le> b * 10 ^ n"
    by (simp_all only: py_round_ge_of_le py_round_le_of_le)
  then have "of_int (a * 10 ^ n) \<le> (of_int (py_round (x * 10 ^ n)) :: real)"
    and "(of_int (py_round (x * 10 ^ n)) :: real) \<le> of_int (b * 10 ^ n)"
    by (simp_all only: of_int_le_iff)
  then show "of_int a \<le> py_round_to n x" and "py_round_to n x \<le> of_int b"
    using p by (simp_all add: py_round_to_def field_simps)
qed

lemma py_round_to_mono: "x \<le> y \<Longrightarrow> py_round_to n x \<le> py_round_to n y"
  by (simp add: py_round_to_def divide_right_mono py_round_mono mult_right_mono)

lemma py_round_to_percent:
  "0 \<le> x \<Longrightarrow> x \<le> 100 \<Longrightarrow> 0 \<le> py_round_to n x \<and> py_round_to n x \<le> 100"
  using py_round_to_bounds [of 0 x 100 n] by simp

section \<open>Python list operations\<close>

text \<open>A slice \<open>xs[a:b]\<close> with non-negative ends clamps them to the length.\<close>

definition slice :: "nat \<Rightarrow> nat \<Rightarrow> 'a list \<Rightarrow> 'a list" where
  "slice a b xs = drop a (take b xs)"

lemma length_slice [simp]: "length (slice a b xs) = min b (length xs) - a"
  by (simp add: slice_def min.commute)

lemma nth_slice [simp]: "i < min b (length xs) - a \<Longrightarrow> slice a b xs ! i = xs ! (a + i)"
  by (simp add: slice_def min_def split: if_splits)

text \<open>A strided slice \<open>xs[::k]\<close>, for \<open>k \<ge> 1\<close>.\<close>

fun strided :: "nat \<Rightarrow> 'a list \<Rightarrow> 'a list" where
  "strided k [] = []"
| "strided k (x # xs) = x # strided k (drop (k - 1) xs)"

lemma strided_1 [simp]: "strided (Suc 0) xs = xs"
  by (induction xs) simp_all

lemma length_strided_le: "length (strided k xs) \<le> length xs"
proof (induction k xs rule: strided.induct)
  case (2 k x xs)
  then show ?case by simp
qed simp

text \<open>The mean of a list, as \<open>sum(xs) / len(xs)\<close> (the callers test for emptiness).\<close>

definition mean :: "real list \<Rightarrow> real" where
  "mean xs = sum_list xs / of_nat (length xs)"

lemma sum_list_le_const:
  fixes xs :: "real list"
  assumes "\<And>x. x \<in> set xs \<Longrightarrow> x \<le> c"
  shows "sum_list xs \<le> of_nat (length xs) * c"
  using assms by (induction xs) (auto simp: algebra_simps add_mono)

lemma sum_list_ge_const:
  fixes xs :: "real list"
  assumes "\<And>x. x \<in> set xs \<Longrightarrow> c \<le> x"
  shows "of_nat (length xs) * c \<le> sum_list xs"
  using assms by (induction xs) (auto simp: algebra_simps add_mono)

lemma mean_bounds:
  assumes "xs \<noteq> []" and "\<And>x. x \<in> set xs \<Longrightarrow> a \<le> x" and "\<And>x. x \<in> set xs \<Longrightarrow> x \<le> b"
  shows "a \<le> mean xs" and "mean xs \<le> b"
proof -
  have n: "0 < (of_nat (length xs) :: real)" using assms(1) by simp
  show "a \<le> mean xs"
    using n sum_list_ge_const [of xs a] assms(2) by (simp add: mean_def field_simps)
  show "mean xs \<le> b"
    using n sum_list_le_const [of xs b] assms(3) by (simp add: mean_def field_simps)
qed

section \<open>Programs over a state, with exceptions\<close>

text \<open>
  A program takes the state and returns a value or an exception together with the new state: the
  effects made before a raise stay, as they do in Python.
\<close>

type_synonym ('s, 'e, 'a) prog = "'s \<Rightarrow> ('e + 'a) \<times> 's"

definition ret :: "'a \<Rightarrow> ('s, 'e, 'a) prog" where
  "ret a s = (Inr a, s)"

definition throw :: "'e \<Rightarrow> ('s, 'e, 'a) prog" where
  "throw e s = (Inl e, s)"

definition bindp :: "('s, 'e, 'a) prog \<Rightarrow> ('a \<Rightarrow> ('s, 'e, 'b) prog) \<Rightarrow> ('s, 'e, 'b) prog" where
  "bindp m f s = (case m s of (Inl e, s') \<Rightarrow> (Inl e, s') | (Inr a, s') \<Rightarrow> f a s')"

definition thenp :: "('s, 'e, unit) prog \<Rightarrow> ('s, 'e, 'b) prog \<Rightarrow> ('s, 'e, 'b) prog" where
  "thenp m k = bindp m (\<lambda>_. k)"

text \<open>\<open>try: m except e: h e\<close>, with the handler seeing every exception.\<close>

definition handlep :: "('s, 'e, 'a) prog \<Rightarrow> ('e \<Rightarrow> ('s, 'e, 'a) prog) \<Rightarrow> ('s, 'e, 'a) prog" where
  "handlep m h s = (case m s of (Inl e, s') \<Rightarrow> h e s' | (Inr a, s') \<Rightarrow> (Inr a, s'))"

text \<open>Lift a pure computation that may raise.\<close>

definition liftp :: "'e + 'a \<Rightarrow> ('s, 'e, 'a) prog" where
  "liftp r s = (r, s)"

primrec for_each :: "('a \<Rightarrow> ('s, 'e, unit) prog) \<Rightarrow> 'a list \<Rightarrow> ('s, 'e, unit) prog" where
  "for_each f [] = ret ()"
| "for_each f (x # xs) = thenp (f x) (for_each f xs)"

text \<open>A list comprehension of calls, and \<open>try: m finally: k\<close>.\<close>

primrec map_each :: "('a \<Rightarrow> ('s, 'e, 'b) prog) \<Rightarrow> 'a list \<Rightarrow> ('s, 'e, 'b list) prog" where
  "map_each f [] = ret []"
| "map_each f (x # xs) = bindp (f x) (\<lambda>y. bindp (map_each f xs) (\<lambda>ys. ret (y # ys)))"

definition finallyp :: "('s, 'e, 'a) prog \<Rightarrow> ('s, 'e, unit) prog \<Rightarrow> ('s, 'e, 'a) prog" where
  "finallyp m k s =
     (let (r, s') = m s in case k s' of (Inl e, s'') \<Rightarrow> (Inl e, s'') | (Inr _, s'') \<Rightarrow> (r, s''))"

text \<open>Read or change the state.\<close>

definition readp :: "('s \<Rightarrow> 'a) \<Rightarrow> ('s, 'e, 'a) prog" where
  "readp f s = (Inr (f s), s)"

definition modifyp :: "('s \<Rightarrow> 's) \<Rightarrow> ('s, 'e, unit) prog" where
  "modifyp f s = (Inr (), f s)"

lemma readp_run [simp, prog_simps]: "readp f s = (Inr (f s), s)"
  by (simp add: readp_def)

lemma modifyp_run [simp, prog_simps]: "modifyp f s = (Inr (), f s)"
  by (simp add: modifyp_def)

lemma ret_run [simp, prog_simps]: "ret a s = (Inr a, s)"
  by (simp add: ret_def)

lemma throw_run [simp, prog_simps]: "throw e s = (Inl e, s)"
  by (simp add: throw_def)

lemma liftp_run [simp, prog_simps]: "liftp r s = (r, s)"
  by (simp add: liftp_def)

lemma bindp_Inl [prog_simps]: "m s = (Inl e, s') \<Longrightarrow> bindp m f s = (Inl e, s')"
  by (simp add: bindp_def)

lemma bindp_Inr [prog_simps]: "m s = (Inr a, s') \<Longrightarrow> bindp m f s = f a s'"
  by (simp add: bindp_def)

lemma thenp_Inl [prog_simps]: "m s = (Inl e, s') \<Longrightarrow> thenp m k s = (Inl e, s')"
  by (simp add: thenp_def bindp_def)

lemma thenp_Inr [prog_simps]: "m s = (Inr a, s') \<Longrightarrow> thenp m k s = k s'"
  by (simp add: thenp_def bindp_def)

lemma handlep_Inl [prog_simps]: "m s = (Inl e, s') \<Longrightarrow> handlep m h s = h e s'"
  by (simp add: handlep_def)

lemma handlep_Inr [prog_simps]: "m s = (Inr a, s') \<Longrightarrow> handlep m h s = (Inr a, s')"
  by (simp add: handlep_def)

lemma bindp_eq_Inr:
  "bindp m f s = (Inr b, t) \<longleftrightarrow> (\<exists>a s'. m s = (Inr a, s') \<and> f a s' = (Inr b, t))"
  by (auto simp: bindp_def split: prod.splits sum.splits)

lemma thenp_eq_Inr:
  "thenp m k s = (Inr b, t) \<longleftrightarrow> (\<exists>s'. m s = (Inr (), s') \<and> k s' = (Inr b, t))"
  by (auto simp: thenp_def bindp_eq_Inr)

section \<open>Keeping a state predicate\<close>

definition keeps :: "('s \<Rightarrow> bool) \<Rightarrow> ('s, 'e, 'a) prog \<Rightarrow> bool" where
  "keeps I m \<longleftrightarrow> (\<forall>s. I s \<longrightarrow> I (snd (m s)))"

lemma keepsI: "(\<And>s. I s \<Longrightarrow> I (snd (m s))) \<Longrightarrow> keeps I m"
  by (simp add: keeps_def)

lemma keepsD: "keeps I m \<Longrightarrow> I s \<Longrightarrow> I (snd (m s))"
  by (simp add: keeps_def)

lemma keepsE: "keeps I m \<Longrightarrow> I s \<Longrightarrow> m s = (r, s') \<Longrightarrow> I s'"
  by (metis keepsD snd_conv)

lemma keeps_ret [keeps_rules]: "keeps I (ret a)"
  by (simp add: keeps_def)

lemma keeps_throw [keeps_rules]: "keeps I (throw e)"
  by (simp add: keeps_def)

lemma keeps_liftp [keeps_rules]: "keeps I (liftp r)"
  by (simp add: keeps_def)

lemma keeps_bindp [keeps_rules]:
  "keeps I m \<Longrightarrow> (\<And>a. keeps I (f a)) \<Longrightarrow> keeps I (bindp m f)"
  by (fastforce simp: keeps_def bindp_def split: prod.splits sum.splits)

lemma keeps_thenp [keeps_rules]: "keeps I m \<Longrightarrow> keeps I k \<Longrightarrow> keeps I (thenp m k)"
  by (simp add: thenp_def keeps_bindp)

lemma keeps_handlep [keeps_rules]:
  "keeps I m \<Longrightarrow> (\<And>e. keeps I (h e)) \<Longrightarrow> keeps I (handlep m h)"
  by (fastforce simp: keeps_def handlep_def split: prod.splits sum.splits)

lemma keeps_if [keeps_rules]:
  "(b \<Longrightarrow> keeps I m) \<Longrightarrow> (\<not> b \<Longrightarrow> keeps I k) \<Longrightarrow> keeps I (if b then m else k)"
  by simp

lemma keeps_for_each [keeps_rules]:
  "(\<And>x. x \<in> set xs \<Longrightarrow> keeps I (f x)) \<Longrightarrow> keeps I (for_each f xs)"
  by (induction xs) (auto intro: keeps_rules)

lemma keeps_map_each [keeps_rules]:
  "(\<And>x. x \<in> set xs \<Longrightarrow> keeps I (f x)) \<Longrightarrow> keeps I (map_each f xs)"
  by (induction xs) (auto intro!: keeps_rules)

lemma keeps_finallyp [keeps_rules]:
  "keeps I m \<Longrightarrow> keeps I k \<Longrightarrow> keeps I (finallyp m k)"
  by (fastforce simp: keeps_def finallyp_def Let_def split: prod.splits sum.splits)

lemma keeps_readp [keeps_rules]: "keeps I (readp f)"
  by (simp add: keeps_def)

lemma keeps_modifyp [keeps_rules]: "(\<And>s. I s \<Longrightarrow> I (f s)) \<Longrightarrow> keeps I (modifyp f)"
  by (simp add: keeps_def)

lemma keeps_option [keeps_rules]:
  "keeps I m \<Longrightarrow> (\<And>a. keeps I (f a)) \<Longrightarrow> keeps I (case x of None \<Rightarrow> m | Some a \<Rightarrow> f a)"
  by (cases x) simp_all

lemma keeps_sum [keeps_rules]:
  "(\<And>a. x = Inl a \<Longrightarrow> keeps I (f a)) \<Longrightarrow> (\<And>b. x = Inr b \<Longrightarrow> keeps I (g b)) \<Longrightarrow>
     keeps I (case x of Inl a \<Rightarrow> f a | Inr b \<Rightarrow> g b)"
  by (cases x) simp_all

lemma keeps_prod [keeps_rules]:
  "(\<And>a b. p = (a, b) \<Longrightarrow> keeps I (f a b)) \<Longrightarrow> keeps I (case p of (a, b) \<Rightarrow> f a b)"
  by (cases p) simp

lemma keeps_list [keeps_rules]:
  "(xs = [] \<Longrightarrow> keeps I m) \<Longrightarrow> (\<And>y ys. xs = y # ys \<Longrightarrow> keeps I (f y ys)) \<Longrightarrow>
     keeps I (case xs of [] \<Rightarrow> m | y # ys \<Rightarrow> f y ys)"
  by (cases xs) simp_all

lemma keeps_let [keeps_rules]: "(\<And>x. x = a \<Longrightarrow> keeps I (f x)) \<Longrightarrow> keeps I (let x = a in f x)"
  by (simp add: Let_def)

section \<open>Decimal printing\<close>

text \<open>\<open>str(n)\<close> of a non-negative int, as the error messages interpolate it.\<close>

fun show_nat :: "nat \<Rightarrow> string" where
  "show_nat n =
     (if n < 10 then [char_of (48 + n)]
      else show_nat (n div 10) @ [char_of (48 + n mod 10)])"

declare show_nat.simps [simp del]

definition show_int :: "int \<Rightarrow> string" where
  "show_int k = (if k < 0 then CHR ''-'' # show_nat (nat (- k)) else show_nat (nat k))"

lemma show_nat_nonempty [simp]: "show_nat n \<noteq> []"
  by (subst show_nat.simps) simp

text \<open>\<open>f"{x:.nf}"\<close>: rounded to \<open>n\<close> decimal digits, for \<open>n > 0\<close>, and \<open>f"{x:.0f}"\<close>.\<close>

definition pad_zeros :: "nat \<Rightarrow> string \<Rightarrow> string" where
  "pad_zeros n s = replicate (n - length s) CHR ''0'' @ s"

definition show_fixed :: "nat \<Rightarrow> real \<Rightarrow> string" where
  "show_fixed n x =
     (let k = py_round (x * 10 ^ n); q = nat \<bar>k\<bar>
      in (if x < 0 then ''-'' else []) @ show_nat (q div 10 ^ n)
         @ (if n = 0 then [] else CHR ''.'' # pad_zeros n (show_nat (q mod 10 ^ n))))"

end
