(* ===== verification/Errors.thy ===== *)
theory Errors
  imports Prelude
begin

text \<open>
  The error taxonomy of \<open>errors.py\<close>: the exception classes with their base classes and
  \<open>error_code\<close> attributes, the exception values, and the exceptions of any other class
  (\<open>KeyError\<close>, \<open>ValueError\<close>, \<open>LookupError\<close>, a database error) as a second
  constructor, so that \<open>except PipelineError\<close> and \<open>except Exception\<close> are told apart.
\<close>

datatype error_class =
    PipelineError
  | TransientPipelineError
  | LogicalPipelineError
  | StageTimeout
  | InternalPipelineError
  | ReferenceTooQuiet
  | NoVoiceDetected
  | AlignmentFailed
  | AlignmentTooLarge

text \<open>The base class each class statement names, \<open>Exception\<close> being the end of the chain.\<close>

fun base_class :: "error_class \<Rightarrow> error_class option" where
  "base_class PipelineError = None"
| "base_class TransientPipelineError = Some PipelineError"
| "base_class LogicalPipelineError = Some PipelineError"
| "base_class StageTimeout = Some TransientPipelineError"
| "base_class InternalPipelineError = Some TransientPipelineError"
| "base_class ReferenceTooQuiet = Some LogicalPipelineError"
| "base_class NoVoiceDetected = Some LogicalPipelineError"
| "base_class AlignmentFailed = Some LogicalPipelineError"
| "base_class AlignmentTooLarge = Some LogicalPipelineError"

text \<open>How far a class is below \<open>PipelineError\<close>: the walk up the base classes ends.\<close>

fun class_depth :: "error_class \<Rightarrow> nat" where
  "class_depth PipelineError = 0"
| "class_depth TransientPipelineError = 1"
| "class_depth LogicalPipelineError = 1"
| "class_depth c = 2"

lemma class_depth_base: "base_class c = Some b \<Longrightarrow> class_depth b < class_depth c"
  by (cases c) auto

text \<open>\<open>isinstance(exc, cls)\<close>, and so which \<open>except cls\<close> clause catches it.\<close>

function isinstance :: "error_class \<Rightarrow> error_class \<Rightarrow> bool" where
  "isinstance c d =
     (c = d \<or> (case base_class c of None \<Rightarrow> False | Some b \<Rightarrow> isinstance b d))"
  by pat_completeness auto
termination
  by (relation "measure (\<lambda>(c, d). class_depth c)") (auto intro: class_depth_base)

declare isinstance.simps [simp del]

text \<open>The \<open>error_code\<close> a class body assigns, if it does.\<close>

fun own_error_code :: "error_class \<Rightarrow> string option" where
  "own_error_code PipelineError = Some ''INTERNAL''"
| "own_error_code TransientPipelineError = None"
| "own_error_code LogicalPipelineError = None"
| "own_error_code StageTimeout = Some ''TIMEOUT''"
| "own_error_code InternalPipelineError = Some ''INTERNAL''"
| "own_error_code ReferenceTooQuiet = Some ''REFERENCE_TOO_QUIET''"
| "own_error_code NoVoiceDetected = Some ''NO_VOICE_DETECTED''"
| "own_error_code AlignmentFailed = Some ''ALIGNMENT_FAILED''"
| "own_error_code AlignmentTooLarge = Some ''ALIGNMENT_TOO_LARGE''"

text \<open>Attribute lookup: the class's own value, else the base class's.\<close>

function class_error_code :: "error_class \<Rightarrow> string" where
  "class_error_code c =
     (case own_error_code c of
        Some code \<Rightarrow> code
      | None \<Rightarrow> (case base_class c of None \<Rightarrow> [] | Some b \<Rightarrow> class_error_code b))"
  by pat_completeness auto
termination
  by (relation "measure class_depth") (auto intro: class_depth_base)

declare class_error_code.simps [simp del]

record pipeline_error =
  err_class :: error_class
  err_message :: string
  err_code :: string

text \<open>\<open>PipelineError.__init__\<close>: the override replaces the class's code only when given.\<close>

definition pipeline_error_init :: "error_class \<Rightarrow> string \<Rightarrow> string option \<Rightarrow> pipeline_error" where
  "pipeline_error_init cls message code =
     \<lparr>err_class = cls, err_message = message,
      err_code = (case code of None \<Rightarrow> class_error_code cls | Some c \<Rightarrow> c)\<rparr>"

text \<open>\<open>StageTimeout.__init__(stage_name, timeout_seconds)\<close>.\<close>

definition stage_timeout_init :: "string \<Rightarrow> nat \<Rightarrow> pipeline_error" where
  "stage_timeout_init stage_name timeout_seconds =
     pipeline_error_init StageTimeout
       (''stage '' @ [CHR 0x27] @ stage_name @ [CHR 0x27] @ '' exceeded its '' @ show_nat timeout_seconds
        @ ''s timeout'') None"

text \<open>A raised exception: one of the taxonomy, or of any other class with its message.\<close>

datatype exn = Raised pipeline_error | Crash string string

definition is_transient :: "pipeline_error \<Rightarrow> bool" where
  "is_transient e = isinstance (err_class e) TransientPipelineError"

definition is_logical :: "pipeline_error \<Rightarrow> bool" where
  "is_logical e = isinstance (err_class e) LogicalPipelineError"

lemma isinstance_transient_iff:
  "isinstance c TransientPipelineError \<longleftrightarrow>
     c \<in> {TransientPipelineError, StageTimeout, InternalPipelineError}"
  by (cases c) (simp_all add: isinstance.simps)

lemma isinstance_logical_iff:
  "isinstance c LogicalPipelineError \<longleftrightarrow>
     c \<in> {LogicalPipelineError, ReferenceTooQuiet, NoVoiceDetected, AlignmentFailed,
           AlignmentTooLarge}"
  by (cases c) (simp_all add: isinstance.simps)

lemma isinstance_base: "isinstance c PipelineError"
  by (cases c) (simp_all add: isinstance.simps)

lemma is_transient_iff [simp]:
  "is_transient e \<longleftrightarrow>
     err_class e \<in> {TransientPipelineError, StageTimeout, InternalPipelineError}"
  by (simp add: is_transient_def isinstance_transient_iff)

lemma is_logical_iff [simp]:
  "is_logical e \<longleftrightarrow>
     err_class e \<in> {LogicalPipelineError, ReferenceTooQuiet, NoVoiceDetected, AlignmentFailed,
           AlignmentTooLarge}"
  by (simp add: is_logical_def isinstance_logical_iff)

lemma transient_not_logical: "is_transient e \<Longrightarrow> \<not> is_logical e"
  by auto

lemma class_error_code_simps [simp]:
  "class_error_code PipelineError = ''INTERNAL''"
  "class_error_code TransientPipelineError = ''INTERNAL''"
  "class_error_code LogicalPipelineError = ''INTERNAL''"
  "class_error_code StageTimeout = ''TIMEOUT''"
  "class_error_code InternalPipelineError = ''INTERNAL''"
  "class_error_code ReferenceTooQuiet = ''REFERENCE_TOO_QUIET''"
  "class_error_code NoVoiceDetected = ''NO_VOICE_DETECTED''"
  "class_error_code AlignmentFailed = ''ALIGNMENT_FAILED''"
  "class_error_code AlignmentTooLarge = ''ALIGNMENT_TOO_LARGE''"
  by (simp_all add: class_error_code.simps)

lemma pipeline_error_init_simps [simp]:
  "err_class (pipeline_error_init c m code) = c"
  "err_message (pipeline_error_init c m code) = m"
  "err_code (pipeline_error_init c m None) = class_error_code c"
  "err_code (pipeline_error_init c m (Some k)) = k"
  by (simp_all add: pipeline_error_init_def)

lemma stage_timeout_init_simps [simp]:
  "err_class (stage_timeout_init n t) = StageTimeout"
  "err_code (stage_timeout_init n t) = ''TIMEOUT''"
  by (simp_all add: stage_timeout_init_def)

text \<open>\<open>except PipelineError\<close> and \<open>except Exception\<close> around a pure computation.\<close>

definition except_pipeline :: "exn + 'a \<Rightarrow> (pipeline_error \<Rightarrow> exn + 'a) \<Rightarrow> exn + 'a" where
  "except_pipeline r h = (case r of Inl (Raised e) \<Rightarrow> h e | _ \<Rightarrow> r)"

end
