(* ===== verification/Models.thy ===== *)
theory Models
  imports Errors
begin

text \<open>
  The data of \<open>models/\<close>: modes and locales, JSON values, the stage result written to
  \<open>stages_json\<close>, the two contexts a pipeline stage receives, and the records the
  repositories read. The contexts share one contract, the locale \<open>pipeline_context\<close>: a
  recorded result is the one found under its stage's name, and no other lookup changes.
\<close>

section \<open>Modes, locales, JSON values\<close>

datatype mode = Clean | Mixed

datatype locale_tag = En | Uk

text \<open>\<open>Mode\<close> is a literal type of two strings; this is the string each stands for.\<close>

fun mode_name :: "mode \<Rightarrow> string" where
  "mode_name Clean = ''clean''"
| "mode_name Mixed = ''mixed''"

definition ALL_MODES :: "mode set" where
  "ALL_MODES = {Clean, Mixed}"

definition DEFAULT_LOCALE :: locale_tag where
  "DEFAULT_LOCALE = En"

lemma mode_in_ALL_MODES [simp]: "m \<in> ALL_MODES"
  by (cases m) (simp_all add: ALL_MODES_def)

lemma mode_name_inject [simp]: "mode_name a = mode_name b \<longleftrightarrow> a = b"
  by (cases a; cases b) simp_all

instantiation mode :: linorder
begin

definition less_eq_mode :: "mode \<Rightarrow> mode \<Rightarrow> bool" where
  "less_eq_mode a b = (a = Clean \<or> b = Mixed)"

definition less_mode :: "mode \<Rightarrow> mode \<Rightarrow> bool" where
  "less_mode a b = (a = Clean \<and> b = Mixed)"

instance
proof
  fix x y z :: mode
  show "(x < y) = (x \<le> y \<and> \<not> y \<le> x)" "x \<le> x" "x \<le> y \<or> y \<le> x"
    by (cases x; cases y; simp add: less_eq_mode_def less_mode_def)+
  show "x \<le> y \<Longrightarrow> y \<le> z \<Longrightarrow> x \<le> z" "x \<le> y \<Longrightarrow> y \<le> x \<Longrightarrow> x = y"
    by (cases x; cases y; cases z; simp add: less_eq_mode_def)+
qed

end

text \<open>What \<open>dict[str, Any]\<close> holds after \<open>model_dump(mode="json")\<close>.\<close>

datatype pyval =
    PNone
  | PBool bool
  | PInt int
  | PFloat real
  | PStr string
  | PList "pyval list"
  | PDict "(string \<times> pyval) list"

type_synonym pydict = "(string \<times> pyval) list"

text \<open>\<open>d[k]\<close> on a dict: \<open>KeyError\<close> when the key is missing.\<close>

definition getitem :: "pydict \<Rightarrow> string \<Rightarrow> exn + pyval" where
  "getitem d k = (case map_of d k of None \<Rightarrow> Inl (Crash ''KeyError'' k) | Some v \<Rightarrow> Inr v)"

text \<open>\<open>xs[k]\<close> on a Python list or one NumPy axis: a negative index counts from the end.\<close>

definition np_index :: "'a list \<Rightarrow> int \<Rightarrow> exn + 'a" where
  "np_index xs k =
     (let n = int (length xs); i = (if k < 0 then k + n else k)
      in if 0 \<le> i \<and> i < n then Inr (xs ! nat i) else Inl (Crash ''IndexError'' []))"

lemma np_index_in_range:
  "0 \<le> k \<Longrightarrow> k < int (length xs) \<Longrightarrow> np_index xs k = Inr (xs ! nat k)"
  by (simp add: np_index_def Let_def)

section \<open>Stage results\<close>

datatype stage_status = DONE | FAILED | SKIPPED

record stage_result =
  stage :: string
  status :: stage_status
  duration_ms :: int
  data :: pydict
  error_code :: "string option"
  error_message :: "string option"

section \<open>Pitch curves and lyrics\<close>

record pitch_curve =
  hop_seconds :: real
  hz :: "real option list"

definition duration_seconds :: "pitch_curve \<Rightarrow> real" where
  "duration_seconds c = of_nat (length (hz c)) * hop_seconds c"

record lyrics_word =
  word_text :: string
  word_start :: real
  word_end :: real

record lyrics =
  language :: string
  words :: "lyrics_word list"

record piano_roll_data =
  pr_hop_seconds :: real
  pr_user_hz :: "real option list"
  pr_reference_hz :: "real option list"
  pr_deviation_cents :: "real option list"
  pr_off_pitch :: "bool list"

section \<open>Contexts\<close>

text \<open>
  A file path is its string, as \<open>str(path)\<close> prints it. \<open>completed\<close> is a dict the code
  only looks up and extends, so it is a map.
\<close>

record analysis_context =
  analysis_id :: string
  user_id :: string
  song_id :: string
  recording_path :: string
  work_dir :: string
  reference_vocal_stem_path :: string
  reference_pitch :: pitch_curve
  reference_lyrics :: "lyrics option"
  context_mode :: mode
  allow_transposition :: bool
  context_locale :: locale_tag
  completed :: "string \<rightharpoonup> stage_result"

record song_prep_context =
  prep_song_id :: string
  reference_path :: string
  prep_work_dir :: string
  prep_vocal_stem_path :: string
  prep_completed :: "string \<rightharpoonup> stage_result"

definition not_completed :: "string \<Rightarrow> exn" where
  "not_completed stage_name =
     Crash ''KeyError'' (''stage '' @ [CHR 0x27] @ stage_name @ [CHR 0x27] @ '' has not completed yet'')"

definition analysis_result :: "analysis_context \<Rightarrow> string \<Rightarrow> exn + stage_result" where
  "analysis_result c stage_name =
     (case completed c stage_name of None \<Rightarrow> Inl (not_completed stage_name) | Some r \<Rightarrow> Inr r)"

definition analysis_with_result :: "analysis_context \<Rightarrow> stage_result \<Rightarrow> analysis_context" where
  "analysis_with_result c r = c\<lparr>completed := (completed c)(stage r \<mapsto> r)\<rparr>"

definition prep_result :: "song_prep_context \<Rightarrow> string \<Rightarrow> exn + stage_result" where
  "prep_result c stage_name =
     (case prep_completed c stage_name of
        None \<Rightarrow> Inl (not_completed stage_name) | Some r \<Rightarrow> Inr r)"

definition prep_with_result :: "song_prep_context \<Rightarrow> stage_result \<Rightarrow> song_prep_context" where
  "prep_with_result c r = c\<lparr>prep_completed := (prep_completed c)(stage r \<mapsto> r)\<rparr>"

section \<open>Repository records\<close>

record song_record =
  sr_id :: string
  sr_content_hash :: string
  sr_duration_sec :: int
  sr_prep_status :: string
  sr_vocal_stem_path :: "string option"
  sr_reference_pitch :: "pitch_curve option"
  sr_lyrics :: "lyrics option"
  sr_lyrics_available :: bool
  sr_prep_stages :: "(string \<times> stage_result) list"

record analysis_record =
  ar_id :: string
  ar_user_id :: string
  ar_song_id :: string
  ar_status :: string
  ar_stages :: "(string \<times> stage_result) list"
  ar_mode :: mode
  ar_allow_transposition :: bool
  ar_locale :: locale_tag

section \<open>The contract of a context\<close>

locale pipeline_context =
  fixes result :: "'c \<Rightarrow> string \<Rightarrow> exn + stage_result"
    and with_result :: "'c \<Rightarrow> stage_result \<Rightarrow> 'c"
  assumes result_same: "result (with_result c r) (stage r) = Inr r"
    and result_other: "n \<noteq> stage r \<Longrightarrow> result (with_result c r) n = result c n"
begin

lemma result_with: "result (with_result c r) n = (if n = stage r then Inr r else result c n)"
  by (simp add: result_same result_other)

text \<open>Recording a list of results: each name finds the last result recorded under it.\<close>

lemma result_fold_other:
  "n \<notin> stage ` set rs \<Longrightarrow> result (fold (\<lambda>r c. with_result c r) rs c) n = result c n"
  by (induction rs arbitrary: c) (auto simp: result_with)

lemma result_fold:
  "r \<in> set rs \<Longrightarrow> distinct (map stage rs) \<Longrightarrow>
     result (fold (\<lambda>r c. with_result c r) rs c) (stage r) = Inr r"
proof (induction rs arbitrary: c)
  case (Cons q rs)
  show ?case
  proof (cases "r = q")
    case True
    with Cons.prems(2) show ?thesis by (simp add: result_fold_other result_same)
  next
    case False
    with Cons show ?thesis by simp
  qed
qed simp

lemma result_fold_Inr:
  assumes "result c n = Inr q"
  shows "\<exists>q'. result (fold (\<lambda>r c. with_result c r) rs c) n = Inr q'"
  using assms
proof (induction rs arbitrary: c q)
  case (Cons a rs)
  have "\<exists>q'. result (with_result c a) n = Inr q'"
    using Cons.prems by (simp add: result_with)
  then show ?case using Cons.IH by auto
qed simp

end

interpretation analysis_ctx: pipeline_context analysis_result analysis_with_result
  by unfold_locales (auto simp: analysis_result_def analysis_with_result_def)

interpretation prep_ctx: pipeline_context prep_result prep_with_result
  by unfold_locales (auto simp: prep_result_def prep_with_result_def)

end
