(* ===== verification/Scoring.thy ===== *)
theory Scoring
  imports Models
begin

text \<open>
  \<open>scoring/weights.py\<close> and \<open>scoring/confidence.py\<close>: the aspects a mode scores, the
  weighted overall score, and the confidence model with its warnings. The lemmas give the closed
  form of both (a fold over exactly the mode's aspects, one step down per warning) and the bounds
  that the report and the database columns rely on.
\<close>

section \<open>Weight profiles\<close>

definition ASPECTS :: "string list" where
  "ASPECTS = [''pitch'', ''rhythm'', ''breath'', ''dynamics'', ''vibrato'', ''timbre'']"

fun MODE_ASPECTS :: "mode \<Rightarrow> string list" where
  "MODE_ASPECTS Clean = ASPECTS"
| "MODE_ASPECTS Mixed = [''pitch'', ''rhythm'', ''dynamics'', ''vibrato'']"

fun PROFILE_NAME_BY_MODE :: "mode \<Rightarrow> string" where
  "PROFILE_NAME_BY_MODE Clean = ''clean_v1''"
| "PROFILE_NAME_BY_MODE Mixed = ''mixed_v1''"

definition UNAVAILABLE_ASPECT_REASON :: "(string \<times> string) list" where
  "UNAVAILABLE_ASPECT_REASON =
     [(''breath'', ''NOT_MEASURABLE_WITH_ACCOMPANIMENT''),
      (''timbre'', ''NOT_MEASURABLE_WITH_ACCOMPANIMENT'')]"

text \<open>The dict comprehension, which raises on an aspect without a reason.\<close>

fun reasons_for :: "string list \<Rightarrow> exn + (string \<times> string) list" where
  "reasons_for [] = Inr []"
| "reasons_for (a # as) =
     (case map_of UNAVAILABLE_ASPECT_REASON a of
        None \<Rightarrow> Inl (Crash ''KeyError'' a)
      | Some r \<Rightarrow> (case reasons_for as of Inl e \<Rightarrow> Inl e | Inr rs \<Rightarrow> Inr ((a, r) # rs)))"

definition unavailable_aspects_for :: "mode \<Rightarrow> exn + (string \<times> string) list" where
  "unavailable_aspects_for mode =
     reasons_for (filter (\<lambda>a. a \<notin> set (MODE_ASPECTS mode)) ASPECTS)"

text \<open>The generator sum: left to right, the score looked up before the weight.\<close>

fun weighted_sum ::
  "(string \<rightharpoonup> real) \<Rightarrow> (string \<rightharpoonup> real) \<Rightarrow> string list \<Rightarrow> real \<Rightarrow> exn + real" where
  "weighted_sum scores weights [] acc = Inr acc"
| "weighted_sum scores weights (a # as) acc =
     (case scores a of
        None \<Rightarrow> Inl (Crash ''KeyError'' a)
      | Some s \<Rightarrow>
          (case weights a of
             None \<Rightarrow> Inl (Crash ''KeyError'' a)
           | Some w \<Rightarrow> weighted_sum scores weights as (acc + s * w)))"

definition weighted_overall_score ::
  "(string \<rightharpoonup> real) \<Rightarrow> (string \<rightharpoonup> real) \<Rightarrow> mode \<Rightarrow> exn + real" where
  "weighted_overall_score aspect_scores weights mode =
     (case weighted_sum aspect_scores weights (MODE_ASPECTS mode) 0 of
        Inl e \<Rightarrow> Inl e
      | Inr t \<Rightarrow> Inr (py_round_to 1 t))"

lemma set_MODE_ASPECTS_subset: "set (MODE_ASPECTS m) \<subseteq> set ASPECTS"
  by (cases m) (auto simp: ASPECTS_def)

lemma distinct_MODE_ASPECTS: "distinct (MODE_ASPECTS m)"
  by (cases m) (auto simp: ASPECTS_def)

lemma weighted_sum_value:
  assumes "set as \<subseteq> dom scores" and "set as \<subseteq> dom weights"
  shows "weighted_sum scores weights as t =
           Inr (t + (\<Sum>a \<leftarrow> as. the (scores a) * the (weights a)))"
  using assms by (induction as arbitrary: t) (auto split: option.splits)

lemma weighted_sum_cong:
  assumes "\<And>a. a \<in> set as \<Longrightarrow> scores a = scores' a \<and> weights a = weights' a"
  shows "weighted_sum scores weights as t = weighted_sum scores' weights' as t"
  using assms by (induction as arbitrary: t) (auto split: option.splits)

lemma weighted_mean_bounds:
  fixes s w :: "'a \<Rightarrow> real"
  assumes "\<And>a. a \<in> set as \<Longrightarrow> lo \<le> s a \<and> s a \<le> hi" and "\<And>a. a \<in> set as \<Longrightarrow> 0 \<le> w a"
  shows "lo * (\<Sum>a \<leftarrow> as. w a) \<le> (\<Sum>a \<leftarrow> as. s a * w a)"
    and "(\<Sum>a \<leftarrow> as. s a * w a) \<le> hi * (\<Sum>a \<leftarrow> as. w a)"
  using assms by (induction as) (auto simp: distrib_left intro!: add_mono mult_right_mono)

section \<open>The confidence model\<close>

datatype confidence_level = Low | Medium | High

fun level_name :: "confidence_level \<Rightarrow> string" where
  "level_name Low = ''low''"
| "level_name Medium = ''medium''"
| "level_name High = ''high''"

definition LEVELS :: "confidence_level list" where
  "LEVELS = [Low, Medium, High]"

fun index_of :: "'a list \<Rightarrow> 'a \<Rightarrow> nat" where
  "index_of [] x = 0"
| "index_of (y # ys) x = (if y = x then 0 else Suc (index_of ys x))"

text \<open>\<open>_step_down\<close>: the index shift, \<open>max(0, \<dots>)\<close> being truncated subtraction.\<close>

definition step_down :: "confidence_level \<Rightarrow> nat \<Rightarrow> confidence_level" where
  "step_down level steps = LEVELS ! (index_of LEVELS level - steps)"

instantiation confidence_level :: linorder
begin

definition less_eq_confidence_level :: "confidence_level \<Rightarrow> confidence_level \<Rightarrow> bool" where
  "less_eq_confidence_level a b = (index_of LEVELS a \<le> index_of LEVELS b)"

definition less_confidence_level :: "confidence_level \<Rightarrow> confidence_level \<Rightarrow> bool" where
  "less_confidence_level a b = (index_of LEVELS a < index_of LEVELS b)"

instance
proof
  fix x y z :: confidence_level
  show "(x < y) = (x \<le> y \<and> \<not> y \<le> x)" "x \<le> x" "x \<le> y \<or> y \<le> x"
    by (auto simp: less_eq_confidence_level_def less_confidence_level_def)
  show "x \<le> y \<Longrightarrow> y \<le> z \<Longrightarrow> x \<le> z"
    by (auto simp: less_eq_confidence_level_def)
  show "x \<le> y \<Longrightarrow> y \<le> x \<Longrightarrow> x = y"
    by (cases x; cases y; simp add: less_eq_confidence_level_def LEVELS_def)
qed

end

definition CONFIDENCE_LOW_VOICED_RATIO :: real where
  "CONFIDENCE_LOW_VOICED_RATIO = 1 / 2"

definition CONFIDENCE_WEAK_ALIGNMENT_COST :: real where
  "CONFIDENCE_WEAK_ALIGNMENT_COST = 45"

definition SEPARATION_DEPENDENT_ASPECTS :: "string list" where
  "SEPARATION_DEPENDENT_ASPECTS = [''pitch'', ''vibrato'']"

record confidence_signals =
  cs_mode :: mode
  cs_accompaniment_in_clean :: bool
  cs_voiced_ratio :: real
  cs_alignment_cost :: real
  cs_key_shift_out_of_range :: bool
  cs_length_mismatch :: bool
  cs_reference_start_offset_detected :: bool

record confidence_result =
  cr_overall :: confidence_level
  cr_aspect_confidence :: "(string \<times> confidence_level) list"
  cr_warnings :: "string list"

text \<open>One \<open>if\<close> of \<open>compute_confidence\<close>: step down and append the warning.\<close>

definition signal ::
  "bool \<Rightarrow> string \<Rightarrow> confidence_level \<times> string list \<Rightarrow> confidence_level \<times> string list" where
  "signal b w st = (if b then (step_down (fst st) 1, snd st @ [w]) else st)"

definition lower_entry :: "string \<Rightarrow> (string \<times> confidence_level) list \<Rightarrow> (string \<times> confidence_level) list"
  where
  "lower_entry aspect d =
     map (\<lambda>(a, l). (a, if a = aspect then step_down l 1 else l)) d"

definition compute_confidence :: "confidence_signals \<Rightarrow> confidence_result" where
  "compute_confidence s =
     (let st0 = (if cs_mode s = Mixed then Medium else High, []);
          st1 = signal (cs_accompaniment_in_clean s) ''ACCOMPANIMENT_IN_CLEAN_MODE'' st0;
          st2 = signal (cs_voiced_ratio s < CONFIDENCE_LOW_VOICED_RATIO)
                  ''LITTLE_VOICE_DETECTED'' st1;
          st3 = signal (cs_alignment_cost s > CONFIDENCE_WEAK_ALIGNMENT_COST) ''WEAK_ALIGNMENT'' st2;
          st4 = signal (cs_key_shift_out_of_range s) ''KEY_SHIFT_OUT_OF_RANGE'' st3;
          st5 = signal (cs_length_mismatch s) ''LENGTH_MISMATCH_PARTIAL_ANALYSIS'' st4;
          st6 = signal (cs_reference_start_offset_detected s)
                  ''REFERENCE_START_OFFSET_DETECTED'' st5;
          overall = fst st6;
          aspects0 = map (\<lambda>a. (a, overall)) (MODE_ASPECTS (cs_mode s));
          aspects = (if cs_mode s = Mixed \<and> cs_voiced_ratio s < CONFIDENCE_LOW_VOICED_RATIO
                     then fold lower_entry SEPARATION_DEPENDENT_ASPECTS aspects0
                     else aspects0)
      in \<lparr>cr_overall = overall, cr_aspect_confidence = aspects, cr_warnings = snd st6\<rparr>)"

lemma step_down_simps [simp]:
  "step_down High 1 = Medium" "step_down High (Suc 0) = Medium"
  "step_down Medium 1 = Low" "step_down Medium (Suc 0) = Low"
  "step_down Low n = Low" "step_down l 0 = l"
  by (simp_all add: step_down_def LEVELS_def) (cases l; simp)

lemma step_down_step_down: "step_down (step_down l m) n = step_down l (m + n)"
proof -
  have lt: "index_of LEVELS l - m < length LEVELS" by (cases l) (simp_all add: LEVELS_def)
  have ix: "k < length LEVELS \<Longrightarrow> index_of LEVELS (LEVELS ! k) = k" for k
    by (auto simp: LEVELS_def less_Suc_eq numeral_3_eq_3)
  show ?thesis using ix [OF lt] by (simp add: step_down_def)
qed

lemma step_down_le: "step_down l n \<le> l"
proof -
  have lt: "index_of LEVELS l - n < length LEVELS" by (cases l) (simp_all add: LEVELS_def)
  have ix: "k < length LEVELS \<Longrightarrow> index_of LEVELS (LEVELS ! k) = k" for k
    by (auto simp: LEVELS_def less_Suc_eq numeral_3_eq_3)
  show ?thesis using ix [OF lt] by (simp add: step_down_def less_eq_confidence_level_def)
qed

text \<open>The state of the cascade: so many warnings, so many steps below the ceiling.\<close>

definition cascade :: "confidence_level \<Rightarrow> confidence_level \<times> string list \<Rightarrow> bool" where
  "cascade cap st \<longleftrightarrow> fst st = step_down cap (length (snd st))"

lemma cascade_start: "cascade c (c, [])"
  by (simp add: cascade_def)

lemma cascade_signal: "cascade c st \<Longrightarrow> cascade c (signal b w st)"
  by (simp add: cascade_def signal_def step_down_step_down)

lemma overall_is_cascade:
  "cascade (if cs_mode s = Mixed then Medium else High)
     (cr_overall (compute_confidence s), cr_warnings (compute_confidence s))"
  unfolding compute_confidence_def Let_def
  by (simp only: confidence_result.simps prod.collapse cascade_signal cascade_start)

lemma fold_lower_entry_map:
  "fold lower_entry xs (map (\<lambda>a. (a, f a)) as) =
     map (\<lambda>a. (a, fold (\<lambda>x l. if a = x then step_down l 1 else l) xs (f a))) as"
  by (induction xs arbitrary: f) (simp_all add: lower_entry_def comp_def split_beta)

lemma fst_fold_lower_entry: "map fst (fold lower_entry xs d) = map fst d"
  by (induction xs arbitrary: d) (simp_all add: lower_entry_def comp_def split_beta)

lemma snd_lower_entry_le:
  "(\<And>a l. (a, l) \<in> set d \<Longrightarrow> l \<le> c) \<Longrightarrow> (a, l) \<in> set (lower_entry x d) \<Longrightarrow> l \<le> c"
  unfolding lower_entry_def by (force intro: order_trans [OF step_down_le] split: if_splits)

lemma snd_fold_lower_entry_le:
  "(\<And>a l. (a, l) \<in> set d \<Longrightarrow> l \<le> c) \<Longrightarrow> (a, l) \<in> set (fold lower_entry xs d) \<Longrightarrow> l \<le> c"
proof (induction xs arbitrary: d)
  case (Cons x xs)
  have "l' \<le> c" if "(a', l') \<in> set (lower_entry x d)" for a' l'
    by (rule snd_lower_entry_le [OF _ that]) (rule Cons.prems(1))
  then show ?case by (rule Cons.IH) (use Cons.prems(2) in simp_all)
qed simp

lemma step_down_antimono: "m \<le> n \<Longrightarrow> step_down l n \<le> step_down l m"
  using step_down_le [of "step_down l m" "n - m"] by (simp add: step_down_step_down)

text \<open>The warnings are the codes of the triggered signals, in the order of the cascade.\<close>

definition triggers :: "confidence_signals \<Rightarrow> (bool \<times> string) list" where
  "triggers s =
     [(cs_accompaniment_in_clean s, ''ACCOMPANIMENT_IN_CLEAN_MODE''),
      (cs_voiced_ratio s < CONFIDENCE_LOW_VOICED_RATIO, ''LITTLE_VOICE_DETECTED''),
      (cs_alignment_cost s > CONFIDENCE_WEAK_ALIGNMENT_COST, ''WEAK_ALIGNMENT''),
      (cs_key_shift_out_of_range s, ''KEY_SHIFT_OUT_OF_RANGE''),
      (cs_length_mismatch s, ''LENGTH_MISMATCH_PARTIAL_ANALYSIS''),
      (cs_reference_start_offset_detected s, ''REFERENCE_START_OFFSET_DETECTED'')]"

lemma snd_signal: "snd (signal b w st) = snd st @ map snd (filter fst [(b, w)])"
  by (simp add: signal_def)

lemma warnings_triggers: "cr_warnings (compute_confidence s) = map snd (filter fst (triggers s))"
  unfolding compute_confidence_def Let_def triggers_def
  by (simp only: confidence_result.simps snd_signal snd_conv append_Nil append_assoc
      filter_append [symmetric] map_append [symmetric] append_Cons)

lemma filter_fst_mono:
  "list_all2 (\<lambda>p q. (fst p \<longrightarrow> fst q) \<and> snd p = snd q) ps qs \<Longrightarrow>
     set (map snd (filter fst ps)) \<subseteq> set (map snd (filter fst qs)) \<and>
     length (filter fst ps) \<le> length (filter fst qs)"
  by (induction rule: list_all2_induct) auto

definition at_least_as_bad :: "confidence_signals \<Rightarrow> confidence_signals \<Rightarrow> bool" where
  "at_least_as_bad t s \<longleftrightarrow>
     cs_mode t = cs_mode s \<and>
     cs_voiced_ratio t \<le> cs_voiced_ratio s \<and> cs_alignment_cost s \<le> cs_alignment_cost t \<and>
     (cs_accompaniment_in_clean s \<longrightarrow> cs_accompaniment_in_clean t) \<and>
     (cs_key_shift_out_of_range s \<longrightarrow> cs_key_shift_out_of_range t) \<and>
     (cs_length_mismatch s \<longrightarrow> cs_length_mismatch t) \<and>
     (cs_reference_start_offset_detected s \<longrightarrow> cs_reference_start_offset_detected t)"

lemma weighted_overall_score_percent:
  assumes "set (MODE_ASPECTS m) \<subseteq> dom scores" and "set (MODE_ASPECTS m) \<subseteq> dom weights"
    and "\<And>a. a \<in> set (MODE_ASPECTS m) \<Longrightarrow> 0 \<le> the (scores a) \<and> the (scores a) \<le> 100"
    and "\<And>a. a \<in> set (MODE_ASPECTS m) \<Longrightarrow> 0 \<le> the (weights a)"
    and "\<bar>(\<Sum>a \<leftarrow> MODE_ASPECTS m. the (weights a)) - 1\<bar> \<le> 1 / 1000000"
  shows "\<exists>t. weighted_overall_score scores weights m = Inr t \<and> 0 \<le> t \<and> t \<le> 100"
proof -
  let ?as = "MODE_ASPECTS m"
  let ?w = "\<Sum>a \<leftarrow> ?as. the (weights a)"
  let ?t = "\<Sum>a \<leftarrow> ?as. the (scores a) * the (weights a)"
  have b: "0 * ?w \<le> ?t" "?t \<le> 100 * ?w"
    using assms(3,4) by (intro weighted_mean_bounds; blast)+
  have "?w \<le> 1 + 1 / 1000000" using assms(5) by linarith
  then have "?t * 10 < of_int 1000 + 1 / 2" using b(2) by simp
  then have hi: "py_round (?t * 10) \<le> 1000" by (rule py_round_le_of_near)
  have lo: "0 \<le> py_round (?t * 10)" using b(1) by (intro py_round_ge_of_le) simp
  have "weighted_overall_score scores weights m = Inr (py_round_to 1 ?t)"
    using assms(1,2) by (simp add: weighted_overall_score_def weighted_sum_value)
  moreover have "0 \<le> py_round_to 1 ?t \<and> py_round_to 1 ?t \<le> 100"
    using lo hi by (simp add: py_round_to_def)
  ultimately show ?thesis by blast
qed

section \<open>Properties\<close>

text \<open>
  The overall score never raises and stays within 0 and 100, for any non-negative weight
  profile whose sum passes the configuration check's tolerance of one millionth: rounding to one
  decimal absorbs the excess the tolerance lets through.
\<close>

theorem overall_score_bounds:
  assumes "set (MODE_ASPECTS m) \<subseteq> dom scores" and "set (MODE_ASPECTS m) \<subseteq> dom weights"
    and "\<And>a. a \<in> set (MODE_ASPECTS m) \<Longrightarrow> 0 \<le> the (scores a) \<and> the (scores a) \<le> 100"
    and "\<And>a. a \<in> set (MODE_ASPECTS m) \<Longrightarrow> 0 \<le> the (weights a)"
    and "\<bar>(\<Sum>a \<leftarrow> MODE_ASPECTS m. the (weights a)) - 1\<bar> \<le> 1 / 1000000"
  shows "\<exists>t. weighted_overall_score scores weights m = Inr t \<and> 0 \<le> t \<and> t \<le> 100"
  using assms by (rule weighted_overall_score_percent)

definition example_scores :: "string \<rightharpoonup> real" where
  "example_scores = [''pitch'' \<mapsto> 80, ''rhythm'' \<mapsto> 60, ''dynamics'' \<mapsto> 100, ''vibrato'' \<mapsto> 40]"

definition example_weights :: "string \<rightharpoonup> real" where
  "example_weights =
     [''pitch'' \<mapsto> 1 / 2, ''rhythm'' \<mapsto> 1 / 4, ''dynamics'' \<mapsto> 1 / 8, ''vibrato'' \<mapsto> 1 / 8]"

theorem overall_score_bounds_witness:
  "\<exists>t. weighted_overall_score example_scores example_weights Mixed = Inr t \<and> 0 \<le> t \<and> t \<le> 100"
  by (rule overall_score_bounds)
    (auto simp: example_scores_def example_weights_def)

text \<open>
  An aspect the mode does not score cannot change the overall score: whatever the score and
  weight maps hold for breath and timbre, a mixed analysis gets the same result (and the same
  \<open>KeyError\<close>, when one of its own aspects is missing).
\<close>

theorem overall_score_only_mode_aspects:
  "weighted_overall_score (scores(''breath'' := b, ''timbre'' := t))
       (weights(''breath'' := wb, ''timbre'' := wt)) Mixed =
     weighted_overall_score scores weights Mixed"
  unfolding weighted_overall_score_def
  by (subst weighted_sum_cong [where scores' = scores and weights' = weights]) auto

text \<open>
  The confidence model in closed form. The overall level is the mode's ceiling (medium for
  mixed, high for clean) lowered once per warning and never below low; the aspects reported on
  are exactly the mode's, in order; no aspect is more certain than the whole, and in a clean
  analysis, or with enough voice, each is exactly as certain.
\<close>

theorem confidence_closed_form:
  "cr_overall (compute_confidence s) =
       step_down (if cs_mode s = Mixed then Medium else High)
         (length (cr_warnings (compute_confidence s))) \<and>
     map fst (cr_aspect_confidence (compute_confidence s)) = MODE_ASPECTS (cs_mode s) \<and>
     set (map snd (cr_aspect_confidence (compute_confidence s))) \<subseteq>
       {l. l \<le> cr_overall (compute_confidence s) \<and>
         (l = cr_overall (compute_confidence s) \<or>
           cs_mode s = Mixed \<and> cs_voiced_ratio s < CONFIDENCE_LOW_VOICED_RATIO)}"
    (is "?closed \<and> ?aspects \<and> ?levels")
proof (intro conjI)
  show ?closed using overall_is_cascade [of s] by (simp add: cascade_def)
  show ?aspects
    by (simp add: compute_confidence_def Let_def fst_fold_lower_entry comp_def)
  show ?levels
    by (auto simp: compute_confidence_def Let_def dest: snd_fold_lower_entry_le [rotated])
qed

text \<open>
  Worse signals never make the result look better: with the same mode, less voice, a costlier
  alignment and more triggered flags, the overall level is at most the other's, and every
  warning of the better analysis is still there.
\<close>

theorem confidence_antimono:
  assumes "at_least_as_bad t s"
  shows "cr_overall (compute_confidence t) \<le> cr_overall (compute_confidence s) \<and>
         set (cr_warnings (compute_confidence s)) \<subseteq> set (cr_warnings (compute_confidence t))"
proof -
  have "list_all2 (\<lambda>p q. (fst p \<longrightarrow> fst q) \<and> snd p = snd q) (triggers s) (triggers t)"
    using assms by (simp add: triggers_def at_least_as_bad_def)
  note f = filter_fst_mono [OF this]
  have m: "cs_mode t = cs_mode s" using assms by (simp add: at_least_as_bad_def)
  show ?thesis
    using f overall_is_cascade [of s] overall_is_cascade [of t]
    by (simp add: cascade_def warnings_triggers m step_down_antimono)
qed

definition example_signals :: confidence_signals where
  "example_signals =
     \<lparr>cs_mode = Mixed, cs_accompaniment_in_clean = False, cs_voiced_ratio = 3 / 4,
      cs_alignment_cost = 1 / 4, cs_key_shift_out_of_range = False, cs_length_mismatch = False,
      cs_reference_start_offset_detected = False\<rparr>"

theorem confidence_antimono_witness:
  "cr_overall (compute_confidence (example_signals\<lparr>cs_voiced_ratio := 1 / 4\<rparr>))
     \<le> cr_overall (compute_confidence example_signals) \<and>
   set (cr_warnings (compute_confidence example_signals))
     \<subseteq> set (cr_warnings (compute_confidence (example_signals\<lparr>cs_voiced_ratio := 1 / 4\<rparr>)))"
  by (rule confidence_antimono) (simp add: at_least_as_bad_def example_signals_def)

end
