(* ===== verification/Curves.thy ===== *)
theory Curves
  imports Models
begin

text \<open>
  The two encodings of \<open>models/audio.py\<close>: a pitch curve packed into single-precision floats
  (\<open>to_bytes\<close>, with NaN for an unvoiced frame) and its metadata, and the JSON form of curves,
  piano rolls and lyrics (\<open>model_dump(mode="json")\<close> and \<open>model_validate\<close>). The rounding of
  a float to single precision is the parameter \<open>f4\<close>. The lemmas are the round trips.
\<close>

section \<open>The packed form\<close>

text \<open>One little-endian float32 cell of the byte string: NaN, or a value.\<close>

datatype f4_cell = NaN | F4 real

record curve_meta =
  meta_hop_seconds :: real
  meta_length :: nat
  meta_engine :: string

definition to_bytes :: "(real \<Rightarrow> real) \<Rightarrow> pitch_curve \<Rightarrow> f4_cell list \<times> curve_meta" where
  "to_bytes f4 c =
     (map (\<lambda>value. case value of None \<Rightarrow> NaN | Some x \<Rightarrow> F4 (f4 x)) (hz c),
      \<lparr>meta_hop_seconds = hop_seconds c, meta_length = length (hz c), meta_engine = ''float32le''\<rparr>)"

definition from_bytes :: "f4_cell list \<Rightarrow> curve_meta \<Rightarrow> pitch_curve" where
  "from_bytes cells meta =
     \<lparr>hop_seconds = meta_hop_seconds meta,
      hz = map (\<lambda>cell. case cell of NaN \<Rightarrow> None | F4 x \<Rightarrow> Some x) cells\<rparr>"

lemma from_to_bytes:
  "case_prod from_bytes (to_bytes f4 c) = c\<lparr>hz := map (map_option f4) (hz c)\<rparr>"
  by (auto simp: from_bytes_def to_bytes_def split: option.split)

section \<open>The JSON form\<close>

definition json_float :: "real option \<Rightarrow> pyval" where
  "json_float x = (case x of None \<Rightarrow> PNone | Some v \<Rightarrow> PFloat v)"

definition dump_curve :: "pitch_curve \<Rightarrow> pyval" where
  "dump_curve c = PDict [(''hop_seconds'', PFloat (hop_seconds c)), (''hz'', PList (map json_float (hz c)))]"

definition dump_piano_roll :: "piano_roll_data \<Rightarrow> pyval" where
  "dump_piano_roll p = PDict
     [(''hop_seconds'', PFloat (pr_hop_seconds p)),
      (''user_hz'', PList (map json_float (pr_user_hz p))),
      (''reference_hz'', PList (map json_float (pr_reference_hz p))),
      (''deviation_cents'', PList (map json_float (pr_deviation_cents p))),
      (''off_pitch'', PList (map PBool (pr_off_pitch p)))]"

definition dump_word :: "lyrics_word \<Rightarrow> pyval" where
  "dump_word w = PDict
     [(''word'', PStr (word_text w)), (''start'', PFloat (word_start w)), (''end'', PFloat (word_end w))]"

definition dump_lyrics :: "lyrics \<Rightarrow> pyval" where
  "dump_lyrics l = PDict [(''language'', PStr (language l)), (''words'', PList (map dump_word (words l)))]"

text \<open>Validation of the declared field types; anything else is a \<open>ValidationError\<close>.\<close>

definition invalid :: "exn + 'a" where
  "invalid = Inl (Crash ''ValidationError'' [])"

fun validate_float :: "pyval \<Rightarrow> exn + real" where
  "validate_float (PFloat x) = Inr x"
| "validate_float (PInt k) = Inr (of_int k)"
| "validate_float v = invalid"

fun validate_opt_float :: "pyval \<Rightarrow> exn + real option" where
  "validate_opt_float PNone = Inr None"
| "validate_opt_float v = (case validate_float v of Inl e \<Rightarrow> Inl e | Inr x \<Rightarrow> Inr (Some x))"

fun validate_bool :: "pyval \<Rightarrow> exn + bool" where
  "validate_bool (PBool b) = Inr b"
| "validate_bool v = invalid"

fun validate_str :: "pyval \<Rightarrow> exn + string" where
  "validate_str (PStr s) = Inr s"
| "validate_str v = invalid"

fun validate_each :: "(pyval \<Rightarrow> exn + 'a) \<Rightarrow> pyval list \<Rightarrow> exn + 'a list" where
  "validate_each f [] = Inr []"
| "validate_each f (v # vs) =
     (case f v of Inl e \<Rightarrow> Inl e
      | Inr x \<Rightarrow> (case validate_each f vs of Inl e \<Rightarrow> Inl e | Inr xs \<Rightarrow> Inr (x # xs)))"

fun validate_list :: "(pyval \<Rightarrow> exn + 'a) \<Rightarrow> pyval \<Rightarrow> exn + 'a list" where
  "validate_list f (PList vs) = validate_each f vs"
| "validate_list f v = invalid"

text \<open>A required field of a model, validated; the validation of a model runs over its fields.\<close>

definition field :: "(pyval \<Rightarrow> exn + 'a) \<Rightarrow> string \<Rightarrow> pydict \<Rightarrow> exn + 'a" where
  "field f k d = (case map_of d k of None \<Rightarrow> invalid | Some v \<Rightarrow> f v)"

definition and_then :: "exn + 'a \<Rightarrow> ('a \<Rightarrow> exn + 'b) \<Rightarrow> exn + 'b" where
  "and_then r f = (case r of Inl e \<Rightarrow> Inl e | Inr x \<Rightarrow> f x)"

fun validate_curve :: "pyval \<Rightarrow> exn + pitch_curve" where
  "validate_curve (PDict d) =
     and_then (field validate_float ''hop_seconds'' d) (\<lambda>h.
     and_then (field (validate_list validate_opt_float) ''hz'' d) (\<lambda>xs.
       Inr \<lparr>hop_seconds = h, hz = xs\<rparr>))"
| "validate_curve v = invalid"

fun validate_piano_roll :: "pyval \<Rightarrow> exn + piano_roll_data" where
  "validate_piano_roll (PDict d) =
     and_then (field validate_float ''hop_seconds'' d) (\<lambda>h.
     and_then (field (validate_list validate_opt_float) ''user_hz'' d) (\<lambda>us.
     and_then (field (validate_list validate_opt_float) ''reference_hz'' d) (\<lambda>rs.
     and_then (field (validate_list validate_opt_float) ''deviation_cents'' d) (\<lambda>ds.
     and_then (field (validate_list validate_bool) ''off_pitch'' d) (\<lambda>os.
       Inr \<lparr>pr_hop_seconds = h, pr_user_hz = us, pr_reference_hz = rs, pr_deviation_cents = ds,
            pr_off_pitch = os\<rparr>)))))"
| "validate_piano_roll v = invalid"

fun validate_word :: "pyval \<Rightarrow> exn + lyrics_word" where
  "validate_word (PDict d) =
     and_then (field validate_str ''word'' d) (\<lambda>t.
     and_then (field validate_float ''start'' d) (\<lambda>s.
     and_then (field validate_float ''end'' d) (\<lambda>e.
       Inr \<lparr>word_text = t, word_start = s, word_end = e\<rparr>)))"
| "validate_word v = invalid"

fun validate_lyrics :: "pyval \<Rightarrow> exn + lyrics" where
  "validate_lyrics (PDict d) =
     and_then (field validate_str ''language'' d) (\<lambda>l.
     and_then (field (validate_list validate_word) ''words'' d) (\<lambda>ws.
       Inr \<lparr>language = l, words = ws\<rparr>))"
| "validate_lyrics v = invalid"

lemma validate_each_map:
  "(\<And>x. x \<in> set xs \<Longrightarrow> f (g x) = Inr x) \<Longrightarrow> validate_each f (map g xs) = Inr xs"
  by (induction xs) simp_all

lemma validate_json_float [simp]: "validate_opt_float (json_float x) = Inr x"
  by (cases x) (simp_all add: json_float_def)

lemma validate_dump_word [simp]: "validate_word (dump_word w) = Inr w"
  by (simp add: dump_word_def field_def and_then_def)

lemma validate_dump_curve [simp]: "validate_curve (dump_curve c) = Inr c"
  by (simp add: dump_curve_def field_def and_then_def validate_each_map)

lemma validate_dump_piano_roll [simp]: "validate_piano_roll (dump_piano_roll p) = Inr p"
  by (simp add: dump_piano_roll_def field_def and_then_def validate_each_map)

section \<open>Properties\<close>


text \<open>Curves, piano rolls and lyrics are read back from their JSON form unchanged.\<close>

theorem json_roundtrip:
  "validate_curve (dump_curve c) = Inr c \<and>
   validate_piano_roll (dump_piano_roll p) = Inr p \<and>
   validate_lyrics (dump_lyrics l) = Inr l"
  by (simp add: dump_lyrics_def field_def and_then_def validate_each_map)

end
