(* ===== verification/StageData.thy ===== *)
theory StageData
  imports Curves
begin

text \<open>
  How a stage reads the JSON data of earlier stages and returns its own result. The readers are
  Python's conversions on the values the stages store; a value of a shape no stage stores is the
  exception Python raises for it. The lemmas read back what was written.
\<close>

section \<open>Reading\<close>

text \<open>\<open>float(v)\<close> of a JSON number; the stages store numbers only under the names read here.\<close>

fun py_float :: "pyval \<Rightarrow> exn + real" where
  "py_float (PFloat x) = Inr x"
| "py_float (PInt k) = Inr (of_int k)"
| "py_float (PBool b) = Inr (if b then 1 else 0)"
| "py_float (PStr s) = Inl (Crash ''ValueError'' s)"
| "py_float v = Inl (Crash ''TypeError'' [])"

fun py_str :: "pyval \<Rightarrow> exn + string" where
  "py_str (PStr s) = Inr s"
| "py_str v = Inl (Crash ''TypeError'' [])"

fun py_dict :: "pyval \<Rightarrow> exn + pydict" where
  "py_dict (PDict d) = Inr d"
| "py_dict v = Inl (Crash ''TypeError'' [])"

fun py_list :: "pyval \<Rightarrow> exn + pyval list" where
  "py_list (PList vs) = Inr vs"
| "py_list v = Inl (Crash ''TypeError'' [])"

fun py_opt_float :: "pyval \<Rightarrow> exn + real option" where
  "py_opt_float PNone = Inr None"
| "py_opt_float v = (case py_float v of Inl e \<Rightarrow> Inl e | Inr x \<Rightarrow> Inr (Some x))"

definition read_as :: "(pyval \<Rightarrow> exn + 'a) \<Rightarrow> pydict \<Rightarrow> string \<Rightarrow> exn + 'a" where
  "read_as f d k = and_then (getitem d k) f"

text \<open>\<open>int(v)\<close>, which truncates a float towards zero.\<close>

fun py_int :: "pyval \<Rightarrow> exn + int" where
  "py_int (PInt k) = Inr k"
| "py_int (PFloat x) = Inr (if x < 0 then \<lceil>x\<rceil> else \<lfloor>x\<rfloor>)"
| "py_int (PBool b) = Inr (if b then 1 else 0)"
| "py_int (PStr s) = Inl (Crash ''ValueError'' s)"
| "py_int v = Inl (Crash ''TypeError'' [])"

fun py_opt_floats :: "pyval \<Rightarrow> exn + real option list" where
  "py_opt_floats (PList vs) = validate_each py_opt_float vs"
| "py_opt_floats v = Inl (Crash ''TypeError'' [])"

fun py_floats :: "pyval \<Rightarrow> exn + real list" where
  "py_floats (PList vs) = validate_each py_float vs"
| "py_floats v = Inl (Crash ''TypeError'' [])"

text \<open>\<open>bool(v)\<close>.\<close>

fun py_bool :: "pyval \<Rightarrow> bool" where
  "py_bool PNone = False"
| "py_bool (PBool b) = b"
| "py_bool (PInt k) = (k \<noteq> 0)"
| "py_bool (PFloat x) = (x \<noteq> 0)"
| "py_bool (PStr s) = (s \<noteq> [])"
| "py_bool (PList vs) = (vs \<noteq> [])"
| "py_bool (PDict d) = (d \<noteq> [])"

text \<open>\<open>context.result(name).data\<close>.\<close>

definition stage_data :: "analysis_context \<Rightarrow> string \<Rightarrow> exn + pydict" where
  "stage_data c name = and_then (analysis_result c name) (\<lambda>r. Inr (data r))"

definition prep_stage_data :: "song_prep_context \<Rightarrow> string \<Rightarrow> exn + pydict" where
  "prep_stage_data c name = and_then (prep_result c name) (\<lambda>r. Inr (data r))"

section \<open>Writing\<close>

text \<open>The \<open>StageResult\<close> a stage returns; the measured duration is an argument.\<close>

definition stage_done :: "string \<Rightarrow> int \<Rightarrow> pydict \<Rightarrow> stage_result" where
  "stage_done name ms d =
     \<lparr>stage = name, status = DONE, duration_ms = ms, data = d, error_code = None, error_message = None\<rparr>"

lemma stage_done_simps [simp]:
  "stage (stage_done n ms d) = n" "status (stage_done n ms d) = DONE" "data (stage_done n ms d) = d"
  by (simp_all add: stage_done_def)

section \<open>Reading back\<close>

lemma and_then_Inr [simp]: "and_then (Inr x) f = f x"
  by (simp add: and_then_def)

lemma and_then_Inl [simp]: "and_then (Inl e) f = Inl e"
  by (simp add: and_then_def)

lemma and_then_eq_Inr: "and_then r f = Inr y \<longleftrightarrow> (\<exists>x. r = Inr x \<and> f x = Inr y)"
  by (cases r) simp_all

lemma and_then_eq_Inl: "and_then r f = Inl e \<longleftrightarrow> r = Inl e \<or> (\<exists>x. r = Inr x \<and> f x = Inl e)"
  by (cases r) simp_all

lemma py_opt_float_json [simp]: "py_opt_float (json_float x) = Inr x"
  by (cases x) (simp_all add: json_float_def)

lemma validate_each_json [simp]: "validate_each py_opt_float (map json_float xs) = Inr xs"
  by (simp add: validate_each_map)

lemma py_opt_floats_json: "py_opt_floats (PList (map json_float xs)) = Inr xs"
  by simp

lemma py_floats_ints [simp]: "py_floats (PList (map (\<lambda>i. PInt (int i)) ns)) = Inr (map of_nat ns)"
  by (induction ns) simp_all

lemma getitem_Cons [simp]: "getitem ((k, v) # d) k' = (if k = k' then Inr v else getitem d k')"
  by (simp add: getitem_def)

lemma stage_data_result:
  "stage_data (analysis_with_result c r) n = (if n = stage r then Inr (data r) else stage_data c n)"
  by (simp add: stage_data_def analysis_ctx.result_with)

end
