(* ===== verification/TimeMap.thy ===== *)
theory TimeMap
  imports StageData
begin

text \<open>
  \<open>audio/timemap.py\<close>: the correspondence between the recording's time and the reference's,
  built from the index lists of a warping path. NumPy's interpolation is a parameter of the
  model; what the stages rely on is stated as \<open>interp_between\<close>.
\<close>

record time_map =
  user_times :: "real list"
  reference_times :: "real list"

text \<open>\<open>np.interp(x, xp, fp)\<close>.\<close>

type_synonym interp = "real \<Rightarrow> real list \<Rightarrow> real list \<Rightarrow> real"

definition from_warping_path :: "nat list \<Rightarrow> nat list \<Rightarrow> real \<Rightarrow> time_map" where
  "from_warping_path index1 index2 hop =
     \<lparr>user_times = map (\<lambda>i. of_nat i * hop) index1, reference_times = map (\<lambda>i. of_nat i * hop) index2\<rparr>"

text \<open>The same from the data the align stage stores.\<close>

definition from_align_stage_data :: "pydict \<Rightarrow> exn + time_map" where
  "from_align_stage_data d =
     and_then (read_as py_floats d ''index1'') (\<lambda>index1.
     and_then (read_as py_floats d ''index2'') (\<lambda>index2.
     and_then (read_as py_float d ''hop_seconds'') (\<lambda>hop.
       Inr \<lparr>user_times = map (\<lambda>i. i * hop) index1, reference_times = map (\<lambda>i. i * hop) index2\<rparr>)))"

definition user_to_reference :: "interp \<Rightarrow> time_map \<Rightarrow> real \<Rightarrow> real" where
  "user_to_reference np_interp tm t = np_interp t (user_times tm) (reference_times tm)"

definition reference_to_user :: "interp \<Rightarrow> time_map \<Rightarrow> real \<Rightarrow> real" where
  "reference_to_user np_interp tm t = np_interp t (reference_times tm) (user_times tm)"

text \<open>The loop over the frames of \<open>user_series\<close>; the clamped index may still miss an empty series.\<close>

fun resample_from :: "interp \<Rightarrow> time_map \<Rightarrow> 'a list \<Rightarrow> real \<Rightarrow> nat \<Rightarrow> nat \<Rightarrow> exn + 'a list" where
  "resample_from np_interp tm reference_series hop i 0 = Inr []"
| "resample_from np_interp tm reference_series hop i (Suc n) =
     (let reference_index = py_round (user_to_reference np_interp tm (of_nat i * hop) / hop);
          last_index = int (length reference_series) - 1
      in case np_index reference_series (min (max reference_index 0) last_index) of
           Inl e \<Rightarrow> Inl e
         | Inr x \<Rightarrow>
             (case resample_from np_interp tm reference_series hop (Suc i) n of
                Inl e \<Rightarrow> Inl e | Inr xs \<Rightarrow> Inr (x # xs)))"

definition resample_reference_onto_user_grid ::
  "interp \<Rightarrow> time_map \<Rightarrow> 'b list \<Rightarrow> 'a list \<Rightarrow> real \<Rightarrow> exn + 'a list" where
  "resample_reference_onto_user_grid np_interp tm user_series reference_series hop =
     resample_from np_interp tm reference_series hop 0 (length user_series)"

text \<open>
  What is documented of \<open>np.interp\<close>: an interpolated value lies between values of \<open>fp\<close>
  (there is no extrapolation).
\<close>

definition interp_between :: "interp \<Rightarrow> bool" where
  "interp_between np_interp \<longleftrightarrow>
     (\<forall>x xp fp a b. fp \<noteq> [] \<longrightarrow> length xp = length fp \<longrightarrow> (\<forall>y \<in> set fp. a \<le> y \<and> y \<le> b) \<longrightarrow>
        a \<le> np_interp x xp fp \<and> np_interp x xp fp \<le> b)"

lemma interp_betweenD:
  "interp_between np_interp \<Longrightarrow> fp \<noteq> [] \<Longrightarrow> length xp = length fp \<Longrightarrow>
     (\<And>y. y \<in> set fp \<Longrightarrow> a \<le> y \<and> y \<le> b) \<Longrightarrow> a \<le> np_interp x xp fp \<and> np_interp x xp fp \<le> b"
  unfolding interp_between_def by blast

text \<open>Two instances: the first value (a constant), and the value of the last point not after \<open>x\<close>.\<close>

fun interp_step :: "interp" where
  "interp_step x (a # b # xs) (u # v # ys) = (if x < b then u else interp_step x (b # xs) (v # ys))"
| "interp_step x xp (u # ys) = u"
| "interp_step x xp [] = 0"

lemma interp_step_in: "fp \<noteq> [] \<Longrightarrow> interp_step x xp fp \<in> set fp"
  by (induction x xp fp rule: interp_step.induct) auto

lemma interp_step_between: "interp_between interp_step"
  unfolding interp_between_def using interp_step_in by blast

text \<open>And linear interpolation, which is what \<open>np.interp\<close> computes.\<close>

fun interp_linear :: "interp" where
  "interp_linear x (a # b # xs) (u # v # ys) =
     (if x \<le> a then u
      else if x < b then u + (v - u) * ((x - a) / (b - a))
      else interp_linear x (b # xs) (v # ys))"
| "interp_linear x xp (u # ys) = u"
| "interp_linear x xp [] = 0"

lemma convex_between:
  fixes u v q :: real
  assumes "lo \<le> u" "lo \<le> v" "u \<le> hi" "v \<le> hi" "0 \<le> q" "q \<le> 1"
  shows "lo \<le> u + (v - u) * q \<and> u + (v - u) * q \<le> hi"
proof -
  have eq: "u + (v - u) * q = (1 - q) * u + q * v" by (simp add: algebra_simps)
  have "(1 - q) * lo + q * lo \<le> (1 - q) * u + q * v" "(1 - q) * u + q * v \<le> (1 - q) * hi + q * hi"
    using assms by (intro add_mono mult_left_mono; simp)+
  then show ?thesis unfolding eq by (simp add: algebra_simps)
qed

lemma interp_linear_between: "interp_between interp_linear"
proof -
  have "fp \<noteq> [] \<Longrightarrow> (\<forall>y \<in> set fp. lo \<le> y \<and> y \<le> hi) \<Longrightarrow> lo \<le> interp_linear x xp fp \<and> interp_linear x xp fp \<le> hi"
    for x xp fp lo hi
  proof (induction x xp fp rule: interp_linear.induct)
    case (1 x a b xs u v ys)
    show ?case
    proof (cases "a < x \<and> x < b")
      case True
      then have "0 \<le> (x - a) / (b - a)" "(x - a) / (b - a) \<le> 1" by simp_all
      then show ?thesis
        using True convex_between [of lo u v hi "(x - a) / (b - a)"] 1 by (simp del: times_divide_eq_right)
    qed (use 1 in auto)
  qed auto
  then show ?thesis unfolding interp_between_def by blast
qed

text \<open>Resampling returns one value of the reference per user frame, and raises only on an empty one.\<close>

lemma resample_from_ok:
  assumes "reference_series \<noteq> []"
  shows "\<exists>ys. resample_from np_interp tm reference_series hop i n = Inr ys \<and> length ys = n \<and>
    set ys \<subseteq> set reference_series"
proof (induction n arbitrary: i)
  case (Suc n)
  let ?k = "min (max (py_round (user_to_reference np_interp tm (of_nat i * hop) / hop)) 0)
      (int (length reference_series) - 1)"
  have "0 \<le> ?k" "?k < int (length reference_series)" using assms by (cases reference_series; simp)+
  then have "np_index reference_series ?k = Inr (reference_series ! nat ?k)"
    and "reference_series ! nat ?k \<in> set reference_series"
    by (simp_all add: np_index_in_range nat_less_iff)
  then show ?case using Suc [of "Suc i"] by (auto simp: Let_def)
qed simp

end
