(* ===== verification/Warping.thy ===== *)
theory Warping
  imports Models
begin

text \<open>
  The abstract specification of dynamic time warping, for \<open>dsp/dtw.py\<close>: costs (finite, or
  NumPy's \<open>inf\<close>), warping paths inside a band, their cost, and the recurrence over counts of
  consumed frames whose value no path undercuts. Nothing here is code of the worker; \<open>Dtw\<close>
  shows that the kernel and the backtracking of the source implement it.
\<close>

section \<open>Costs\<close>

datatype cost = Fin real | Infinity

instantiation cost :: linorder
begin

fun less_eq_cost :: "cost \<Rightarrow> cost \<Rightarrow> bool" where
  "less_eq_cost (Fin x) (Fin y) = (x \<le> y)"
| "less_eq_cost c Infinity = True"
| "less_eq_cost Infinity (Fin y) = False"

fun less_cost :: "cost \<Rightarrow> cost \<Rightarrow> bool" where
  "less_cost (Fin x) (Fin y) = (x < y)"
| "less_cost (Fin x) Infinity = True"
| "less_cost Infinity c = False"

instance
proof
  fix x y z :: cost
  show "(x < y) = (x \<le> y \<and> \<not> y \<le> x)" "x \<le> x" "x \<le> y \<or> y \<le> x"
    by (cases x; cases y; auto)+
  show "x \<le> y \<Longrightarrow> y \<le> z \<Longrightarrow> x \<le> z" "x \<le> y \<Longrightarrow> y \<le> x \<Longrightarrow> x = y"
    by (cases x; cases y; cases z; auto)+
qed

end

text \<open>\<open>dist + best\<close>.\<close>

fun add_cost :: "real \<Rightarrow> cost \<Rightarrow> cost" where
  "add_cost d (Fin x) = Fin (d + x)"
| "add_cost d Infinity = Infinity"

lemma le_Infinity [simp]: "c \<le> Infinity"
  by (cases c) simp_all

lemma not_less_Infinity [simp]: "\<not> Infinity < c"
  by (cases c) simp_all

lemma min_Infinity [simp]: "min c Infinity = c" "min Infinity c = c"
  by (simp_all add: min_def) (cases c; simp)

lemma add_cost_mono: "x \<le> y \<Longrightarrow> add_cost d x \<le> add_cost d y"
  by (cases x; cases y) auto

lemma add_cost_eq_Fin: "add_cost d x = Fin c \<longleftrightarrow> (\<exists>y. x = Fin y \<and> c = d + y)"
  by (cases x) auto

section \<open>Warping paths and their cheapest cost\<close>

text \<open>
  A warping path, listed from its end: one pair of frame indices per entry, each one step (diagonal,
  up or left) after the next, down to the pair of first frames, all pairs allowed by the band.
\<close>

fun warp_chain :: "(nat \<Rightarrow> nat \<Rightarrow> bool) \<Rightarrow> (nat \<times> nat) list \<Rightarrow> bool" where
  "warp_chain B [] = False"
| "warp_chain B [p] = (p = (0, 0) \<and> B 0 0)"
| "warp_chain B (p # q # ps) =
     (B (fst p) (snd p) \<and>
      (p = (fst q + 1, snd q + 1) \<or> p = (fst q + 1, snd q) \<or> p = (fst q, snd q + 1)) \<and>
      warp_chain B (q # ps))"

definition chain_cost :: "(nat \<Rightarrow> nat \<Rightarrow> real) \<Rightarrow> (nat \<times> nat) list \<Rightarrow> real" where
  "chain_cost d ps = (\<Sum>(i, j) \<leftarrow> ps. d i j)"

text \<open>The recurrence the matrix is meant to satisfy, over counts of consumed frames.\<close>

fun band_cost :: "(nat \<Rightarrow> nat \<Rightarrow> real) \<Rightarrow> (nat \<Rightarrow> nat \<Rightarrow> bool) \<Rightarrow> nat \<Rightarrow> nat \<Rightarrow> cost" where
  "band_cost d B 0 0 = Fin 0"
| "band_cost d B 0 (Suc j) = Infinity"
| "band_cost d B (Suc i) 0 = Infinity"
| "band_cost d B (Suc i) (Suc j) =
     (if B i j
      then add_cost (d i j)
             (min (min (band_cost d B i j) (band_cost d B i (Suc j))) (band_cost d B (Suc i) j))
      else Infinity)"

lemma chain_cost_simps [simp]:
  "chain_cost d [] = 0" "chain_cost d ((i, j) # ps) = d i j + chain_cost d ps"
  by (simp_all add: chain_cost_def)

lemma warp_chain_nonempty: "warp_chain B ps \<Longrightarrow> ps \<noteq> []"
  by auto

lemma warp_chain_last: "warp_chain B ps \<Longrightarrow> last ps = (0, 0)"
  by (induction B ps rule: warp_chain.induct) auto

lemma warp_chain_in_band: "warp_chain B ps \<Longrightarrow> p \<in> set ps \<Longrightarrow> B (fst p) (snd p)"
  by (induction B ps rule: warp_chain.induct) auto

lemma warp_chain_cong:
  "(\<And>p. p \<in> set ps \<Longrightarrow> B (fst p) (snd p) = C (fst p) (snd p)) \<Longrightarrow> warp_chain B ps = warp_chain C ps"
  by (induction B ps rule: warp_chain.induct) auto

lemma band_cost_le_chain:
  "warp_chain B ((i, j) # ps) \<Longrightarrow> band_cost d B (Suc i) (Suc j) \<le> Fin (chain_cost d ((i, j) # ps))"
proof (induction B "(i, j) # ps" arbitrary: i j ps rule: warp_chain.induct)
  case (2 B)
  then show ?case by (simp add: min_def)
next
  case (3 B q qs)
  obtain i' j' where q: "q = (i', j')" by (cases q)
  have IH: "band_cost d B (Suc i') (Suc j') \<le> Fin (chain_cost d ((i', j') # qs))"
    using 3 q by simp
  have "min (min (band_cost d B i j) (band_cost d B i (Suc j))) (band_cost d B (Suc i) j)
      \<le> band_cost d B (Suc i') (Suc j')"
    using 3(2) q by (auto simp: min_le_iff_disj)
  then have "add_cost (d i j)
      (min (min (band_cost d B i j) (band_cost d B i (Suc j))) (band_cost d B (Suc i) j))
      \<le> add_cost (d i j) (Fin (chain_cost d ((i', j') # qs)))"
    using IH by (intro add_cost_mono) (rule order_trans)
  with 3(2) q show ?case by simp
qed

text \<open>A direction names a predecessor that attains the cost.\<close>

definition good_dir ::
  "(nat \<Rightarrow> nat \<Rightarrow> real) \<Rightarrow> (nat \<Rightarrow> nat \<Rightarrow> bool) \<Rightarrow> nat \<Rightarrow> nat \<Rightarrow> int \<Rightarrow> bool" where
  "good_dir d B i j r \<longleftrightarrow>
     (let v = band_cost d B (Suc i) (Suc j) in
      v = Infinity \<or>
      r = 0 \<and> v = add_cost (d i j) (band_cost d B i j) \<or>
      r = 1 \<and> v = add_cost (d i j) (band_cost d B i (Suc j)) \<or>
      r = 2 \<and> v = add_cost (d i j) (band_cost d B (Suc i) j))"

end
