(* ===== verification/Dtw.thy ===== *)
theory Dtw
  imports Warping TimeMap
begin

text \<open>
  \<open>dsp/dtw.py\<close>: the banded dynamic-time-warping kernel, its backtracking, the pass that
  guards and runs them, the unwarped start-offset scan and the projection of a coarse path onto
  the fine band. Arrays are lists, an entry of the cost matrix is a \<open>cost\<close> (finite, or
  NumPy's \<open>inf\<close>), and a row of the band is written in place by the same left-to-right loop as
  the source. The lemmas show that the matrix holds the cost of the cheapest warping path in the
  band, and that backtracking returns such a path.
\<close>

section \<open>The banded kernel\<close>

type_synonym frame = "real list"

text \<open>The Euclidean distance of two frames of the same dimension.\<close>

definition frame_dist :: "frame \<Rightarrow> frame \<Rightarrow> real" where
  "frame_dist u v = sqrt (\<Sum>(x, y) \<leftarrow> zip u v. (x - y) * (x - y))"

lemma frame_dist_nonneg: "0 \<le> frame_dist u v"
  unfolding frame_dist_def by (intro real_sqrt_ge_zero sum_list_nonneg) auto

text \<open>One guarded comparison against a stored cell: take it if it is in the band and smaller.\<close>

definition relax :: "cost list \<Rightarrow> nat \<Rightarrow> int \<Rightarrow> int \<Rightarrow> cost \<times> int \<Rightarrow> cost \<times> int" where
  "relax row width off dir st =
     (if 0 \<le> off \<and> off < int width \<and> row ! nat off < fst st then (row ! nat off, dir) else st)"

text \<open>The body of the loop over \<open>j\<close>: the row under construction is read at \<open>off - 1\<close>.\<close>

definition fill_cell ::
  "frame \<Rightarrow> frame list \<Rightarrow> nat \<Rightarrow> int \<Rightarrow> int \<Rightarrow> cost list \<Rightarrow> int \<Rightarrow>
     cost list \<times> int list \<Rightarrow> cost list \<times> int list" where
  "fill_cell u b width base_prev base_cur prev j DP =
     (let off = j - base_cur;
          dist = frame_dist u (b ! nat (j - 1));
          st1 = relax prev width (j - 1 - base_prev) 0 (Infinity, - 1);
          st2 = relax prev width (j - base_prev) 1 st1;
          st3 = relax (fst DP) width (off - 1) 2 st2
      in ((fst DP)[nat off := add_cost dist (fst st3)], (snd DP)[nat off := snd st3]))"

text \<open>The body of the loop over \<open>i\<close>, from 1 to \<open>n\<close>.\<close>

definition kernel_step ::
  "frame list \<Rightarrow> frame list \<Rightarrow> int list \<Rightarrow> nat \<Rightarrow> nat \<Rightarrow>
     cost list list \<times> int list list \<Rightarrow> cost list list \<times> int list list" where
  "kernel_step a b full_center band i DP =
     (let width = 2 * band + 1;
          c = full_center ! i;
          base_cur = c - int band;
          base_prev = full_center ! (i - 1) - int band;
          j_lo = max 1 (c - int band);
          j_hi = min (int (length b)) (c + int band);
          row = fold (fill_cell (a ! (i - 1)) b width base_prev base_cur (fst DP ! (i - 1)))
                  [j_lo..j_hi] (fst DP ! i, snd DP ! i)
      in ((fst DP)[i := fst row], (snd DP)[i := snd row]))"

definition banded_dtw_kernel ::
  "frame list \<Rightarrow> frame list \<Rightarrow> int list \<Rightarrow> nat \<Rightarrow> cost list list \<times> int list list" where
  "banded_dtw_kernel a b full_center band =
     (let n = length a;
          width = 2 * band + 1;
          D = replicate (n + 1) (replicate width Infinity);
          P = replicate (n + 1) (replicate width (- 1));
          off0 = 0 - (full_center ! 0 - int band);
          D0 = (if 0 \<le> off0 \<and> off0 < int width then D[0 := (D ! 0)[nat off0 := Fin 0]] else D)
      in fold (kernel_step a b full_center band) [1..<n + 1] (D0, P))"

section \<open>Backtracking\<close>

text \<open>The loop of \<open>_backtrack\<close>: the pairs in the order they are appended, from the far corner.\<close>

function backtrack_loop ::
  "int list list \<Rightarrow> int list \<Rightarrow> nat \<Rightarrow> nat \<Rightarrow> nat \<Rightarrow> exn + (nat \<times> nat) list" where
  "backtrack_loop P full_center band i j =
     (if 0 < i \<and> 0 < j then
        (case np_index (P ! i) (int j - (full_center ! i - int band)) of
           Inl e \<Rightarrow> Inl e
         | Inr direction \<Rightarrow>
             (case (if direction = 0 then backtrack_loop P full_center band (i - 1) (j - 1)
                    else if direction = 1 then backtrack_loop P full_center band (i - 1) j
                    else backtrack_loop P full_center band i (j - 1)) of
                Inl e \<Rightarrow> Inl e
              | Inr pairs \<Rightarrow> Inr ((i - 1, j - 1) # pairs)))
      else Inr [])"
  by pat_completeness auto
termination
  by (relation "measure (\<lambda>(P, c, b, i, j). i + j)") auto

declare backtrack_loop.simps [simp del]

definition backtrack ::
  "int list list \<Rightarrow> int list \<Rightarrow> nat \<Rightarrow> nat \<Rightarrow> nat \<Rightarrow> exn + (nat \<times> nat) list" where
  "backtrack P full_center band n m =
     (case backtrack_loop P full_center band n m of
        Inl e \<Rightarrow> Inl e | Inr pairs \<Rightarrow> Inr (rev pairs))"

section \<open>One guarded pass\<close>

definition DTW_MAX_CELLS :: nat where
  "DTW_MAX_CELLS = 50000000"

record warping_path =
  index1 :: "nat list"
  index2 :: "nat list"
  normalized_distance :: real

definition guard_cell_count :: "nat \<Rightarrow> nat \<Rightarrow> exn + unit" where
  "guard_cell_count n band =
     (let cells = (n + 1) * (2 * band + 1)
      in if cells > DTW_MAX_CELLS
         then Inl (Raised (pipeline_error_init AlignmentTooLarge
                (''banded DTW would need '' @ show_nat cells @ '' cells (band radius ''
                 @ show_nat band @ '', '' @ show_nat n @ '' frames), over the ''
                 @ show_nat DTW_MAX_CELLS @ '' ceiling'') None))
         else Inr ())"

definition alignment_failed :: "string \<Rightarrow> exn" where
  "alignment_failed message = Raised (pipeline_error_init AlignmentFailed message None)"

definition banded_dtw ::
  "frame list \<Rightarrow> frame list \<Rightarrow> nat \<Rightarrow> int list option \<Rightarrow> exn + warping_path" where
  "banded_dtw a b band center_arg =
     (let n = length a; m = length b in
      if n = 0 \<or> m = 0 then Inl (alignment_failed ''cannot align an empty sequence'')
      else case guard_cell_count n band of
        Inl e \<Rightarrow> Inl e
      | Inr _ \<Rightarrow>
         (let full_center = (case center_arg of None \<Rightarrow> map int [0..<n + 1] | Some c \<Rightarrow> c);
              final_offset = int m - (full_center ! n - int band)
          in if \<not> (0 \<le> final_offset \<and> final_offset < 2 * int band + 1)
             then Inl (alignment_failed
                    (''the '' @ show_nat m @ ''-frame reference is unreachable from the ''
                     @ show_nat n @ ''-frame recording within a band radius of '' @ show_nat band
                     @ '' frames -- they diverge too far to align''))
             else
               (let (D, P) = banded_dtw_kernel a b full_center band in
                case D ! n ! nat final_offset of
                  Infinity \<Rightarrow> Inl (alignment_failed
                    (''DTW found no warping path within the configured band -- ''
                     @ ''recording and reference diverge too far in tempo/content to align''))
                | Fin final_cost \<Rightarrow>
                    (case backtrack P full_center band n m of
                       Inl e \<Rightarrow> Inl e
                     | Inr pairs \<Rightarrow>
                         Inr \<lparr>index1 = map fst pairs, index2 = map snd pairs,
                              normalized_distance = final_cost / of_nat (length pairs)\<rparr>))))"

section \<open>Where in the reference the recording starts\<close>

text \<open>The unwarped mean distance for one candidate start frame \<open>k\<close>, infinite without overlap.\<close>

definition start_offset_score :: "frame list \<Rightarrow> frame list \<Rightarrow> nat \<Rightarrow> cost" where
  "start_offset_score a b k =
     (let count = min (int (length a)) (int (length b) - int k)
      in if count \<le> 0 then Infinity
         else Fin ((\<Sum>i \<leftarrow> [0..<nat count]. frame_dist (a ! i) (b ! (k + i))) / of_int count))"

definition locate_start_offset_scores :: "frame list \<Rightarrow> frame list \<Rightarrow> int \<Rightarrow> cost list" where
  "locate_start_offset_scores user_mfcc reference_mfcc max_offset =
     (if max_offset < 0 then []
      else map (start_offset_score user_mfcc reference_mfcc) [0..<nat max_offset + 1])"

section \<open>The centre of the fine band\<close>

text \<open>\<open>np.clip(k, 0, m)\<close> on integers.\<close>

definition clip :: "int \<Rightarrow> int \<Rightarrow> int" where
  "clip m k = min m (max 0 k)"

text \<open>The part of the path that ends \<open>end_gap\<close> frames short is stretched linearly.\<close>

definition spread_end_gap :: "nat \<Rightarrow> nat \<Rightarrow> int list \<Rightarrow> int list" where
  "spread_end_gap n_fine m_fine full_center =
     (let end_gap = int m_fine - full_center ! n_fine
      in if end_gap \<noteq> 0 \<and> 0 < n_fine
         then (map (\<lambda>i. full_center ! i + py_round (of_int end_gap * of_nat i / of_nat n_fine))
                 [0..<n_fine + 1])[n_fine := int m_fine]
         else full_center)"

definition refine_center ::
  "interp \<Rightarrow> warping_path \<Rightarrow> real \<Rightarrow> real \<Rightarrow> nat \<Rightarrow> nat \<Rightarrow> int list" where
  "refine_center np_interp coarse coarse_hop_seconds fine_hop_seconds n_fine m_fine =
     (let tm = from_warping_path (index1 coarse) (index2 coarse) coarse_hop_seconds;
          reference_times = map (\<lambda>i. user_to_reference np_interp tm (of_nat i * fine_hop_seconds)) [0..<n_fine];
          raw_center = map (\<lambda>t. clip (int m_fine) (py_round (t / fine_hop_seconds))) reference_times;
          full_center = spread_end_gap n_fine m_fine (0 # raw_center)
      in hd full_center # map (clip (int m_fine)) (tl full_center))"

section \<open>The kernel fills in the recurrence\<close>

text \<open>The value a row of the band stores for column \<open>j\<close>, infinity outside the band.\<close>

definition stored :: "cost list \<Rightarrow> int \<Rightarrow> int \<Rightarrow> cost" where
  "stored row base j =
     (if 0 \<le> j - base \<and> j - base < int (length row) then row ! nat (j - base) else Infinity)"

definition col_cost :: "(nat \<Rightarrow> nat \<Rightarrow> real) \<Rightarrow> (nat \<Rightarrow> nat \<Rightarrow> bool) \<Rightarrow> nat \<Rightarrow> int \<Rightarrow> cost" where
  "col_cost d B i j = (if j < 0 then Infinity else band_cost d B i (nat j))"

text \<open>Which pairs of frames the band allows.\<close>

definition in_band :: "int list \<Rightarrow> nat \<Rightarrow> nat \<Rightarrow> nat \<Rightarrow> nat \<Rightarrow> bool" where
  "in_band full_center band m i j \<longleftrightarrow>
     j < m \<and> \<bar>int j + 1 - full_center ! Suc i\<bar> \<le> int band"

lemma relax_fst:
  assumes "width = length row"
  shows "fst (relax row width (j - base) dir st) = min (fst st) (stored row base j)"
  using assms by (auto simp: relax_def stored_def min_def)

lemma relax_snd:
  assumes "width = length row"
  shows "relax row width (j - base) dir st = st \<or>
    relax row width (j - base) dir st = (stored row base j, dir)"
  using assms by (auto simp: relax_def stored_def)

lemma relax_best:
  assumes "fst st \<noteq> Infinity \<Longrightarrow> Q (fst st) (snd st)"
    and "stored row base j \<noteq> Infinity \<Longrightarrow> Q (stored row base j) dir" and "width = length row"
  shows "fst (relax row width (j - base) dir st) \<noteq> Infinity \<Longrightarrow>
    Q (fst (relax row width (j - base) dir st)) (snd (relax row width (j - base) dir st))"
  using relax_snd [OF assms(3), of j base dir st] assms(1,2) by (elim disjE) simp_all

lemma stored_update:
  assumes "0 \<le> j - base" and "j - base < int (length row)"
  shows "stored (row[nat (j - base) := v]) base k = (if k = j then v else stored row base k)"
  using assms by (auto simp: stored_def nth_list_update eq_nat_nat_iff)

lemma col_cost_outside:
  assumes "j < 1 \<or> j < full_center ! Suc i - int band \<or> int m < j \<or> full_center ! Suc i + int band < j"
  shows "col_cost d (in_band full_center band m) (Suc i) j = Infinity"
proof (cases "j < 1")
  case True
  then have "j < 0 \<or> j = 0" by arith
  then show ?thesis by (auto simp: col_cost_def)
next
  case False
  define k where "k = nat (j - 1)"
  have "nat j = Suc k" and "j = int k + 1" using False by (simp_all add: k_def)
  then show ?thesis using assms False by (auto simp: col_cost_def in_band_def)
qed

text \<open>What is true of the row under construction once column \<open>k\<close> is written.\<close>

definition row_filled ::
  "(nat \<Rightarrow> nat \<Rightarrow> real) \<Rightarrow> (nat \<Rightarrow> nat \<Rightarrow> bool) \<Rightarrow> nat \<Rightarrow> nat \<Rightarrow> int \<Rightarrow> int \<Rightarrow> cost list \<times> int list \<Rightarrow> bool"
  where
  "row_filled d B i width base k DP \<longleftrightarrow>
     length (fst DP) = width \<and> length (snd DP) = width \<and>
     (\<forall>j. stored (fst DP) base j = (if j \<le> k then col_cost d B (Suc i) j else Infinity)) \<and>
     (\<forall>j. B i j \<longrightarrow> int j + 1 \<le> k \<longrightarrow> good_dir d B i j (snd DP ! nat (int j + 1 - base)))"

lemma fill_cell_filled:
  fixes a b :: "frame list" and full_center :: "int list" and band i :: nat
  defines "m \<equiv> length b" and "c \<equiv> full_center ! Suc i" and "width \<equiv> 2 * band + 1"
    and "d \<equiv> \<lambda>i j. frame_dist (a ! i) (b ! j)" and "B \<equiv> in_band full_center band (length b)"
  assumes prev: "\<And>j. stored prev base_prev j = col_cost d B i j" and len: "length prev = width"
    and j: "1 \<le> j" "c - int band \<le> j" "j \<le> int m" "j \<le> c + int band"
    and inv: "row_filled d B i width (c - int band) (j - 1) DP"
  shows "row_filled d B i width (c - int band) j
           (fill_cell (a ! i) b width base_prev (c - int band) prev j DP)"
proof -
  let ?base = "c - int band"
  obtain k where k: "j = int k + 1" using j(1) by (metis add.commute zle_iff_zadd)
  have Bk: "B i k" using j k by (auto simp: B_def in_band_def m_def c_def)
  have lens: "length (fst DP) = width" "length (snd DP) = width"
    and cur: "\<And>l. stored (fst DP) ?base l = (if l \<le> j - 1 then col_cost d B (Suc i) l else Infinity)"
    and dirs: "\<And>l. B i l \<Longrightarrow> int l + 1 \<le> j - 1 \<Longrightarrow> good_dir d B i l (snd DP ! nat (int l + 1 - ?base))"
    using inv by (auto simp: row_filled_def)
  define st1 where "st1 = relax prev width (j - 1 - base_prev) 0 (Infinity, - 1)"
  define st2 where "st2 = relax prev width (j - base_prev) 1 st1"
  define st3 where "st3 = relax (fst DP) width (j - 1 - ?base) 2 st2"
  define Q where "Q = (\<lambda>v r. (r = 0 \<and> v = band_cost d B i k) \<or> (r = 1 \<and> v = band_cost d B i (Suc k)) \<or>
      (r = (2::int) \<and> v = band_cost d B (Suc i) k))"
  have cell: "fill_cell (a ! i) b width base_prev ?base prev j DP =
      ((fst DP)[nat (j - ?base) := add_cost (d i k) (fst st3)], (snd DP)[nat (j - ?base) := snd st3])"
    by (simp add: fill_cell_def st1_def st2_def st3_def d_def k Let_def algebra_simps)
  have reads: "stored prev base_prev (j - 1) = band_cost d B i k"
    "stored prev base_prev j = band_cost d B i (Suc k)"
    "stored (fst DP) ?base (j - 1) = band_cost d B (Suc i) k"
    using k by (simp_all add: prev cur col_cost_def nat_add_distrib)
  have "fst st3 = min (min (band_cost d B i k) (band_cost d B i (Suc k))) (band_cost d B (Suc i) k)"
    by (simp add: st1_def st2_def st3_def relax_fst len lens reads)
  then have val: "add_cost (d i k) (fst st3) = col_cost d B (Suc i) j"
    using k Bk by (simp add: col_cost_def nat_add_distrib)
  have q1: "fst st1 \<noteq> Infinity \<Longrightarrow> Q (fst st1) (snd st1)"
    unfolding st1_def by (rule relax_best) (simp_all add: reads Q_def len)
  have q2: "fst st2 \<noteq> Infinity \<Longrightarrow> Q (fst st2) (snd st2)"
    unfolding st2_def by (rule relax_best) (use q1 in \<open>simp_all add: reads Q_def len\<close>)
  have q3: "fst st3 \<noteq> Infinity \<Longrightarrow> Q (fst st3) (snd st3)"
    unfolding st3_def by (rule relax_best) (use q2 in \<open>simp_all add: reads Q_def lens\<close>)
  have valk: "band_cost d B (Suc i) (Suc k) = add_cost (d i k) (fst st3)"
    using val k by (simp add: col_cost_def nat_add_distrib)
  have good: "good_dir d B i k (snd st3)"
  proof (cases "fst st3 = Infinity")
    case True
    then show ?thesis using valk by (simp add: good_dir_def del: band_cost.simps)
  next
    case False
    then show ?thesis using q3 by (auto simp: valk good_dir_def Q_def Let_def simp del: band_cost.simps)
  qed
  have off: "0 \<le> j - ?base" "j - ?base < int width" using j by (simp_all add: width_def)
  show ?thesis unfolding cell row_filled_def fst_conv snd_conv
  proof (intro conjI allI impI)
    fix l
    show "stored ((fst DP)[nat (j - ?base) := add_cost (d i k) (fst st3)]) ?base l =
        (if l \<le> j then col_cost d B (Suc i) l else Infinity)"
      using off lens by (auto simp: stored_update val cur)
  next
    fix l assume l: "B i l" "int l + 1 \<le> j"
    show "good_dir d B i l ((snd DP)[nat (j - ?base) := snd st3] ! nat (int l + 1 - ?base))"
    proof (cases "l = k")
      case True
      then show ?thesis using good off lens k by (simp add: nat_less_iff)
    next
      case False
      then have "nat (j - ?base) \<noteq> nat (int l + 1 - ?base)"
        using l k off by (auto simp: B_def in_band_def c_def)
      then show ?thesis using dirs [of l] l k False by simp
    qed
  qed (simp_all add: lens)
qed

lemma stored_replicate: "stored (replicate w Infinity) base j = Infinity"
  by (auto simp: stored_def nat_less_iff)

lemma row_filled_empty:
  assumes "k < full_center ! Suc i - int band \<or> k < 1"
  shows "row_filled d (in_band full_center band m) i w base k
           (replicate w Infinity, replicate w (- 1))"
proof -
  have "col_cost d (in_band full_center band m) (Suc i) j = Infinity" if "j \<le> k" for j
    by (rule col_cost_outside) (use that assms in auto)
  moreover have "\<not> int j + 1 \<le> k" if "in_band full_center band m i j" for j
    using that assms by (auto simp: in_band_def)
  ultimately show ?thesis by (auto simp: row_filled_def stored_replicate)
qed

text \<open>The loop over \<open>j\<close> writes the whole row.\<close>

lemma fold_fill_cell_filled:
  fixes a b :: "frame list" and full_center :: "int list" and band i :: nat
  defines "c \<equiv> full_center ! Suc i" and "width \<equiv> 2 * band + 1"
    and "d \<equiv> \<lambda>i j. frame_dist (a ! i) (b ! j)" and "B \<equiv> in_band full_center band (length b)"
    and "lo \<equiv> max 1 (full_center ! Suc i - int band)"
  assumes prev: "\<And>j. stored prev base_prev j = col_cost d B i j" and len: "length prev = width"
    and hi: "hi \<le> int (length b)" "hi \<le> c + int band" "lo - 1 \<le> hi"
  shows "row_filled d B i width (c - int band) hi
           (fold (fill_cell (a ! i) b width base_prev (c - int band) prev) [lo..hi]
              (replicate width Infinity, replicate width (- 1)))"
  using hi
proof (induction "nat (hi - lo + 1)" arbitrary: hi)
  case 0
  then have "hi = lo - 1" by simp
  then show ?case unfolding B_def by (auto simp: lo_def intro!: row_filled_empty)
next
  case (Suc n)
  then have lh: "lo \<le> hi" by simp
  have "row_filled d B i width (c - int band) (hi - 1)
      (fold (fill_cell (a ! i) b width base_prev (c - int band) prev) [lo..hi - 1]
        (replicate width Infinity, replicate width (- 1)))"
    by (rule Suc.hyps) (use Suc lh in auto)
  from fill_cell_filled [where a = a and b = b and full_center = full_center and band = band and i = i
      and prev = prev and base_prev = base_prev and j = hi, folded c_def width_def d_def B_def,
      OF prev len _ _ _ _ this]
  show ?case using lh Suc.prems by (simp add: upto_rec2 lo_def c_def)
qed

lemma row_complete:
  fixes a b :: "frame list" and full_center :: "int list" and band i :: nat
  defines "c \<equiv> full_center ! Suc i" and "width \<equiv> 2 * band + 1"
    and "d \<equiv> \<lambda>i j. frame_dist (a ! i) (b ! j)" and "B \<equiv> in_band full_center band (length b)"
  defines "row \<equiv> \<lambda>prev base_prev. fold (fill_cell (a ! i) b width base_prev (c - int band) prev)
              [max 1 (c - int band)..min (int (length b)) (c + int band)]
              (replicate width Infinity, replicate width (- 1))"
  assumes prev: "\<And>j. stored prev base_prev j = col_cost d B i j" and len: "length prev = width"
  shows "length (fst (row prev base_prev)) = width"
    and "length (snd (row prev base_prev)) = width"
    and "stored (fst (row prev base_prev)) (c - int band) j = col_cost d B (Suc i) j"
    and "B i k \<Longrightarrow> good_dir d B i k (snd (row prev base_prev) ! nat (int k + 1 - (c - int band)))"
proof -
  let ?lo = "max 1 (c - int band)" and ?hi = "min (int (length b)) (c + int band)"
  define top where "top = max (?lo - 1) ?hi"
  have "row_filled d B i width (c - int band) top (row prev base_prev)"
  proof (cases "?lo - 1 \<le> ?hi")
    case True
    then have "top = ?hi" by (simp add: top_def)
    then show ?thesis
      using fold_fill_cell_filled [where a = a and b = b and full_center = full_center and band = band
          and i = i and prev = prev and base_prev = base_prev and hi = ?hi,
          folded c_def width_def d_def B_def, OF prev len] True
      by (simp add: row_def)
  next
    case False
    then have "top = ?lo - 1" and "[?lo..?hi] = []"
      by (simp_all only: top_def upto_empty)
    then show ?thesis unfolding B_def by (auto simp: row_def c_def intro!: row_filled_empty)
  qed
  then have f: "length (fst (row prev base_prev)) = width" "length (snd (row prev base_prev)) = width"
    "\<And>j. stored (fst (row prev base_prev)) (c - int band) j =
       (if j \<le> top then col_cost d B (Suc i) j else Infinity)"
    "\<And>k. B i k \<Longrightarrow> int k + 1 \<le> top \<Longrightarrow>
       good_dir d B i k (snd (row prev base_prev) ! nat (int k + 1 - (c - int band)))"
    by (auto simp: row_filled_def)
  have out: "col_cost d B (Suc i) j = Infinity" if "top < j" for j
    unfolding B_def by (rule col_cost_outside) (use that in \<open>auto simp: top_def c_def\<close>)
  show "length (fst (row prev base_prev)) = width" "length (snd (row prev base_prev)) = width"
    by (rule f)+
  show "stored (fst (row prev base_prev)) (c - int band) j = col_cost d B (Suc i) j"
    by (simp add: f(3) out)
  show "B i k \<Longrightarrow> good_dir d B i k (snd (row prev base_prev) ! nat (int k + 1 - (c - int band)))"
    by (rule f(4)) (auto simp: B_def in_band_def top_def c_def)
qed

section \<open>The whole matrix\<close>

text \<open>Rows 0 to \<open>i\<close> of the two matrices are final, the rows after are still empty.\<close>

definition table_filled ::
  "(nat \<Rightarrow> nat \<Rightarrow> real) \<Rightarrow> (nat \<Rightarrow> nat \<Rightarrow> bool) \<Rightarrow> int list \<Rightarrow> nat \<Rightarrow> nat \<Rightarrow> nat \<Rightarrow>
     cost list list \<times> int list list \<Rightarrow> bool" where
  "table_filled d B full_center band n i DP \<longleftrightarrow>
     length (fst DP) = n + 1 \<and> length (snd DP) = n + 1 \<and>
     (\<forall>k \<le> i. length (fst DP ! k) = 2 * band + 1 \<and>
        (\<forall>j. stored (fst DP ! k) (full_center ! k - int band) j = col_cost d B k j)) \<and>
     (\<forall>k < i. length (snd DP ! Suc k) = 2 * band + 1 \<and>
        (\<forall>j. B k j \<longrightarrow>
          good_dir d B k j (snd DP ! Suc k ! nat (int j + 1 - (full_center ! Suc k - int band))))) \<and>
     (\<forall>k. i < k \<longrightarrow> k \<le> n \<longrightarrow>
        fst DP ! k = replicate (2 * band + 1) Infinity \<and> snd DP ! k = replicate (2 * band + 1) (- 1))"

lemma kernel_step_filled:
  fixes a b :: "frame list"
  defines "d \<equiv> \<lambda>i j. frame_dist (a ! i) (b ! j)"
  assumes "table_filled d (in_band full_center band (length b)) full_center band n i DP" and "i < n"
  shows "table_filled d (in_band full_center band (length b)) full_center band n (Suc i)
           (kernel_step a b full_center band (Suc i) DP)"
proof -
  let ?B = "in_band full_center band (length b)" and ?w = "2 * band + 1"
  let ?c = "full_center ! Suc i"
  note t = assms(2) [unfolded table_filled_def]
  have prev: "stored (fst DP ! i) (full_center ! i - int band) j = col_cost d ?B i j" for j
    using t by blast
  have len: "length (fst DP ! i) = ?w" using t by blast
  have fresh: "fst DP ! Suc i = replicate ?w Infinity" "snd DP ! Suc i = replicate ?w (- 1)"
    using t assms(3) by simp_all
  define row where "row = fold (fill_cell (a ! i) b ?w (full_center ! i - int band) (?c - int band) (fst DP ! i))
              [max 1 (?c - int band)..min (int (length b)) (?c + int band)]
              (replicate ?w Infinity, replicate ?w (- 1))"
  note rc = row_complete [where a = a and b = b and full_center = full_center and band = band and i = i,
      folded d_def, OF prev len, folded row_def]
  have step: "kernel_step a b full_center band (Suc i) DP =
      ((fst DP)[Suc i := fst row], (snd DP)[Suc i := snd row])"
    unfolding kernel_step_def Let_def row_def fresh by simp
  show ?thesis unfolding step table_filled_def fst_conv snd_conv
  proof (intro conjI allI impI)
    fix k assume "k \<le> Suc i"
    then consider "k = Suc i" | "k \<le> i" "k \<noteq> Suc i" by linarith
    then show "length ((fst DP)[Suc i := fst row] ! k) = ?w"
      by cases (use t assms(3) rc(1) in auto)
    from \<open>k \<le> Suc i\<close> consider "k = Suc i" | "k \<le> i" "k \<noteq> Suc i" by linarith
    then show "stored ((fst DP)[Suc i := fst row] ! k) (full_center ! k - int band) j = col_cost d ?B k j" for j
      by cases (use t assms(3) rc(3) in auto)
  next
    fix k assume "k < Suc i"
    then consider "k = i" | "k < i" by linarith
    then show "length ((snd DP)[Suc i := snd row] ! Suc k) = ?w"
      by cases (use t assms(3) rc(2) in auto)
    fix j assume j: "?B k j"
    from \<open>k < Suc i\<close> consider "k = i" | "k < i" by linarith
    then show "good_dir d ?B k j
        ((snd DP)[Suc i := snd row] ! Suc k ! nat (int j + 1 - (full_center ! Suc k - int band)))"
      by cases (use t assms(3) rc(4) j in auto)
  qed (use t in auto)
qed

lemma fold_kernel_step_filled:
  fixes a b :: "frame list"
  defines "d \<equiv> \<lambda>i j. frame_dist (a ! i) (b ! j)"
  assumes "table_filled d (in_band full_center band (length b)) full_center band n 0 DP" and "i \<le> n"
  shows "table_filled d (in_band full_center band (length b)) full_center band n i
           (fold (kernel_step a b full_center band) [1..<i + 1] DP)"
  using assms(3)
proof (induction i)
  case 0
  then show ?case using assms(2) by simp
next
  case (Suc i)
  then show ?case
    using kernel_step_filled [where a = a and b = b and full_center = full_center and band = band
        and n = n and i = i, folded d_def] by simp
qed

lemma stored_first_row:
  "band < w \<Longrightarrow>
     stored ((replicate w Infinity)[band := Fin 0]) (- int band) j = (if j = 0 then Fin 0 else Infinity)"
  by (auto simp: stored_def nth_list_update nat_less_iff nat_eq_iff)

lemma kernel_filled:
  fixes a b :: "frame list"
  assumes "full_center ! 0 = 0"
  shows "table_filled (\<lambda>i j. frame_dist (a ! i) (b ! j)) (in_band full_center band (length b))
           full_center band (length a) (length a) (banded_dtw_kernel a b full_center band)"
proof -
  let ?w = "2 * band + 1" and ?n = "length a"
  let ?D = "replicate (?n + 1) (replicate ?w Infinity)" and ?P = "replicate (?n + 1) (replicate ?w (- 1))"
  let ?D0 = "?D[0 := (?D ! 0)[nat (int band) := Fin 0]]"
  have z: "stored ((replicate ?w Infinity)[band := Fin 0]) (- int band) j = (if j = 0 then Fin 0 else Infinity)" for j
    by (rule stored_first_row) simp
  have c0: "col_cost d B 0 j = (if j = 0 then Fin 0 else Infinity)" for d B j
    by (cases "nat j") (auto simp: col_cost_def)
  have "table_filled (\<lambda>i j. frame_dist (a ! i) (b ! j)) (in_band full_center band (length b))
           full_center band ?n 0 (?D0, ?P)"
    using z by (simp add: table_filled_def assms c0 del: replicate_Suc replicate.simps)
  from fold_kernel_step_filled [OF this le_refl]
  show ?thesis by (simp add: banded_dtw_kernel_def Let_def assms)
qed


section \<open>Backtracking\<close>

lemma band_cost_Fin_in_band: "band_cost d B (Suc i) (Suc j) = Fin c \<Longrightarrow> B i j"
  by (simp split: if_splits)

lemma band_cost_0_Fin: "band_cost d B i 0 = Fin c \<longleftrightarrow> i = 0 \<and> c = 0"
  "band_cost d B 0 j = Fin c \<longleftrightarrow> j = 0 \<and> c = 0"
  by (cases i; auto) (cases j; auto)

text \<open>
  The three predecessors at once: a chain from the predecessor, when there is one, extends to a
  chain from the pair.
\<close>

lemma warp_chain_extend:
  assumes "B i j" and "p = (i, j) \<or> p = (i, Suc j) \<or> p = (Suc i, j)"
    and "band_cost d B (fst p) (snd p) = Fin c"
    and "if 0 < fst p \<and> 0 < snd p then ps \<noteq> [] \<and> hd ps = (fst p - 1, snd p - 1) \<and> warp_chain B ps else ps = []"
  shows "warp_chain B ((i, j) # ps)"
proof (cases "0 < fst p \<and> 0 < snd p")
  case True
  then obtain q qs where "ps = q # qs" "q = (fst p - 1, snd p - 1)" "warp_chain B ps"
    using assms(4) by (cases ps) auto
  then show ?thesis using assms(1,2) True by (auto simp: neq0_conv)
next
  case False
  then have "p = (0, 0)" "ps = []" using assms(3,4) by (cases p; auto simp: band_cost_0_Fin)+
  then show ?thesis using assms(1,2) by auto
qed

text \<open>Backtracking from a pair of counts returns a chain of the given cost.\<close>

definition traced ::
  "(nat \<Rightarrow> nat \<Rightarrow> real) \<Rightarrow> (nat \<Rightarrow> nat \<Rightarrow> bool) \<Rightarrow> nat \<Rightarrow> nat \<Rightarrow> real \<Rightarrow> exn + (nat \<times> nat) list \<Rightarrow> bool" where
  "traced d B i j c r \<longleftrightarrow>
     (\<exists>ps. r = Inr ps \<and> chain_cost d ps = c \<and>
        (if 0 < i \<and> 0 < j then ps \<noteq> [] \<and> hd ps = (i - 1, j - 1) \<and> warp_chain B ps else ps = []))"

lemma backtrack_loop_chain:
  assumes "table_filled d (in_band full_center band m) full_center band n n (D, P)"
    and "i \<le> n" and "j \<le> m" and "band_cost d (in_band full_center band m) i j = Fin c"
  shows "traced d (in_band full_center band m) i j c (backtrack_loop P full_center band i j)"
  using assms
proof (induction P full_center band i j arbitrary: c rule: backtrack_loop.induct)
  case (1 P full_center band i j)
  let ?B = "in_band full_center band m"
  show ?case
  proof (cases "0 < i \<and> 0 < j")
    case False
    then have "i = 0 \<and> j = 0 \<and> c = 0" using "1.prems"(4) by (auto simp: band_cost_0_Fin)
    then show ?thesis by (simp add: backtrack_loop.simps traced_def)
  next
    case True
    then obtain i' j' where ij: "i = Suc i'" "j = Suc j'" by (metis gr0_conv_Suc)
    let ?off = "int j - (full_center ! i - int band)"
    have B: "?B i' j'" using "1.prems"(4) unfolding ij by (rule band_cost_Fin_in_band)
    have len: "length (P ! i) = 2 * band + 1"
      and good: "good_dir d ?B i' j' (P ! i ! nat ?off)"
      using "1.prems"(1,2) B ij by (auto simp: table_filled_def add.commute)
    have off: "0 \<le> ?off" "?off < int (length (P ! i))"
      using B ij len by (auto simp: in_band_def)
    let ?r = "P ! i ! nat ?off"
    have idx: "np_index (P ! i) ?off = Inr ?r" using off by (rule np_index_in_range)
    define p where "p = (if ?r = 0 then (i', j') else if ?r = 1 then (i', Suc j') else (Suc i', j'))"
    have val: "add_cost (d i' j') (band_cost d ?B (fst p) (snd p)) = Fin c"
      using good "1.prems"(4) unfolding ij p_def
      by (auto simp: good_dir_def Let_def simp del: band_cost.simps)
    then obtain c' where c': "band_cost d ?B (fst p) (snd p) = Fin c'" "c = d i' j' + c'"
      by (auto simp: add_cost_eq_Fin)
    have ph: "p = (i', j') \<or> p = (i', Suc j') \<or> p = (Suc i', j')" by (simp add: p_def)
    consider "?r = 0" | "?r \<noteq> 0" "?r = 1" | "?r \<noteq> 0" "?r \<noteq> 1" by blast
    then have "traced d ?B (fst p) (snd p) c' (backtrack_loop P full_center band (fst p) (snd p))"
    proof cases
      case 1
      then show ?thesis
        using "1.IH"(1) [OF True idx _ "1.prems"(1)] "1.prems"(2,3) c'(1) ij by (simp add: p_def)
    next
      case 2
      then show ?thesis
        using "1.IH"(2) [OF True idx _ _ "1.prems"(1)] "1.prems"(2,3) c'(1) ij by (simp add: p_def)
    next
      case 3
      then show ?thesis
        using "1.IH"(3) [OF True idx _ _ "1.prems"(1)] "1.prems"(2,3) c'(1) ij by (simp add: p_def)
    qed
    then obtain ps where ps: "backtrack_loop P full_center band (fst p) (snd p) = Inr ps"
        "chain_cost d ps = c'"
        "if 0 < fst p \<and> 0 < snd p
         then ps \<noteq> [] \<and> hd ps = (fst p - 1, snd p - 1) \<and> warp_chain ?B ps else ps = []"
      unfolding traced_def by blast
    have "backtrack_loop P full_center band i j = Inr ((i', j') # ps)"
      using True idx ps(1) unfolding p_def ij
      by (subst backtrack_loop.simps) (simp split: if_splits)
    moreover have "warp_chain ?B ((i', j') # ps)"
      by (rule warp_chain_extend [OF B ph c'(1) ps(3)])
    ultimately show ?thesis using c'(2) ps(2) ij by (simp add: traced_def)
  qed
qed


section \<open>What one guarded pass returns\<close>

definition warp_step :: "nat \<times> nat \<Rightarrow> nat \<times> nat \<Rightarrow> bool" where
  "warp_step p q \<longleftrightarrow>
     q = (fst p + 1, snd p + 1) \<or> q = (fst p + 1, snd p) \<or> q = (fst p, snd p + 1)"

text \<open>The contract of an alignment: from the first pair of frames to the last, inside the band.\<close>

definition warps :: "frame list \<Rightarrow> frame list \<Rightarrow> int list \<Rightarrow> nat \<Rightarrow> (nat \<times> nat) list \<Rightarrow> bool" where
  "warps a b full_center band ps \<longleftrightarrow>
     ps \<noteq> [] \<and> hd ps = (0, 0) \<and> last ps = (length a - 1, length b - 1) \<and>
     successively warp_step ps \<and>
     (\<forall>(i, j) \<in> set ps. i < length a \<and> j < length b \<and> \<bar>int j + 1 - full_center ! Suc i\<bar> \<le> int band)"

definition path_cost :: "frame list \<Rightarrow> frame list \<Rightarrow> (nat \<times> nat) list \<Rightarrow> real" where
  "path_cost a b ps = (\<Sum>(i, j) \<leftarrow> ps. frame_dist (a ! i) (b ! j))"

text \<open>The centre the pass runs with, and what the kernel needs of a given one.\<close>

definition center_used :: "frame list \<Rightarrow> int list option \<Rightarrow> int list" where
  "center_used a center_arg = (case center_arg of None \<Rightarrow> map int [0..<length a + 1] | Some c \<Rightarrow> c)"

definition center_ok :: "frame list \<Rightarrow> int list option \<Rightarrow> bool" where
  "center_ok a center_arg \<longleftrightarrow>
     (case center_arg of None \<Rightarrow> True | Some c \<Rightarrow> length c = length a + 1 \<and> c ! 0 = 0)"

lemma center_used_0: "center_ok a center_arg \<Longrightarrow> center_used a center_arg ! 0 = 0"
  by (cases center_arg) (auto simp: center_ok_def center_used_def nth_append simp del: upt_Suc)

lemma warp_chain_iff:
  "warp_chain B ps \<longleftrightarrow>
     ps \<noteq> [] \<and> last ps = (0, 0) \<and> successively (\<lambda>p q. warp_step q p) ps \<and> (\<forall>(i, j) \<in> set ps. B i j)"
  by (induction B ps rule: warp_chain.induct) (auto simp: warp_step_def)

lemma warp_chain_fst_le: "warp_chain B ps \<Longrightarrow> p \<in> set ps \<Longrightarrow> fst p \<le> fst (hd ps)"
  by (induction B ps rule: warp_chain.induct) fastforce+

lemma warps_iff_chain:
  assumes "a \<noteq> []" and "b \<noteq> []"
  shows "warps a b full_center band ps \<longleftrightarrow>
    warp_chain (in_band full_center band (length b)) (rev ps) \<and> last ps = (length a - 1, length b - 1)"
    (is "_ \<longleftrightarrow> warp_chain ?B _ \<and> ?last")
proof -
  have "warp_chain ?B (rev ps) \<longleftrightarrow>
      ps \<noteq> [] \<and> hd ps = (0, 0) \<and> successively warp_step ps \<and> (\<forall>(i, j) \<in> set ps. ?B i j)"
    by (auto simp: warp_chain_iff last_rev)
  moreover have "i < length a" if "warp_chain ?B (rev ps)" ?last "(i, j) \<in> set ps" for i j
    using warp_chain_fst_le [OF that(1), of "(i, j)"] that warp_chain_nonempty [OF that(1)] assms
    by (cases a) (auto simp: hd_rev)
  ultimately show ?thesis
    unfolding warps_def in_band_def by (fastforce split: prod.splits)
qed

lemma path_cost_chain:
  "path_cost a b ps = chain_cost (\<lambda>i j. frame_dist (a ! i) (b ! j)) (rev ps)"
  by (simp add: path_cost_def chain_cost_def rev_map [symmetric])

text \<open>The corner cell of the matrix is the cheapest cost of a warping path, infinite without one.\<close>

lemma corner_cell:
  assumes "table_filled d (in_band full_center band m) full_center band n n (D, P)"
    and "0 \<le> int m - (full_center ! n - int band)" and "int m - (full_center ! n - int band) < 2 * int band + 1"
  shows "D ! n ! nat (int m - (full_center ! n - int band)) = band_cost d (in_band full_center band m) n m"
proof -
  have "length (D ! n) = 2 * band + 1"
    and "stored (D ! n) (full_center ! n - int band) (int m) = band_cost d (in_band full_center band m) n m"
    using assms(1) by (auto simp: table_filled_def col_cost_def)
  then show ?thesis using assms(2,3) by (simp add: stored_def)
qed

lemma chain_band_cost:
  assumes "warps a b full_center band ps" and "a \<noteq> []" and "b \<noteq> []"
  shows "band_cost (\<lambda>i j. frame_dist (a ! i) (b ! j)) (in_band full_center band (length b))
           (length a) (length b) \<le> Fin (path_cost a b ps)"
proof -
  have c: "warp_chain (in_band full_center band (length b)) (rev ps)"
    and l: "last ps = (length a - 1, length b - 1)" and "ps \<noteq> []"
    using assms by (simp_all add: warps_iff_chain warps_def [of a b full_center band ps, symmetric]) (use assms(1) in \<open>auto simp: warps_def\<close>)
  then obtain qs where "rev ps = (length a - 1, length b - 1) # qs"
    by (metis hd_Cons_tl hd_rev rev_is_Nil_conv)
  then show ?thesis
    using band_cost_le_chain [of "in_band full_center band (length b)" "length a - 1" "length b - 1" qs] c assms(2,3)
    by (simp add: path_cost_chain)
qed


text \<open>The four outcomes of a pass.\<close>

definition best_cost :: "frame list \<Rightarrow> frame list \<Rightarrow> nat \<Rightarrow> int list \<Rightarrow> cost" where
  "best_cost a b band full_center =
     band_cost (\<lambda>i j. frame_dist (a ! i) (b ! j)) (in_band full_center band (length b)) (length a) (length b)"

lemma banded_dtw_empty:
  "a = [] \<or> b = [] \<Longrightarrow> banded_dtw a b band center_arg = Inl (alignment_failed ''cannot align an empty sequence'')"
  by (auto simp: banded_dtw_def Let_def)

lemma banded_dtw_too_large:
  assumes "a \<noteq> []" and "b \<noteq> []" and "DTW_MAX_CELLS < (length a + 1) * (2 * band + 1)"
  shows "\<exists>e. banded_dtw a b band center_arg = Inl (Raised e) \<and> err_class e = AlignmentTooLarge"
  using assms by (simp add: banded_dtw_def guard_cell_count_def Let_def)

lemma best_cost_off_band:
  assumes "a \<noteq> []" and "b \<noteq> []"
    and "\<not> (0 \<le> int (length b) - (full_center ! length a - int band) \<and>
             int (length b) - (full_center ! length a - int band) < 2 * int band + 1)"
  shows "best_cost a b band full_center = Infinity"
proof -
  obtain n m where "length a = Suc n" "length b = Suc m" using assms(1,2) by (metis length_0_conv not0_implies_Suc)
  then show ?thesis using assms(3) by (auto simp: best_cost_def in_band_def)
qed

lemma banded_dtw_no_path:
  assumes "a \<noteq> []" and "b \<noteq> []" and "(length a + 1) * (2 * band + 1) \<le> DTW_MAX_CELLS"
    and "center_ok a center_arg" and inf: "best_cost a b band (center_used a center_arg) = Infinity"
  shows "\<exists>message. banded_dtw a b band center_arg = Inl (alignment_failed message)"
proof -
  let ?c = "center_used a center_arg"
  obtain D P where K: "banded_dtw_kernel a b ?c band = (D, P)" by (cases "banded_dtw_kernel a b ?c band")
  note t = kernel_filled [OF center_used_0 [OF assms(4)], of a b band, unfolded K]
  show ?thesis
    using assms(1-3) inf corner_cell [OF t]
    by (simp add: banded_dtw_def guard_cell_count_def Let_def K best_cost_def
        center_used_def [symmetric] split del: if_split) (auto simp: K)
qed

lemma banded_dtw_path:
  assumes "a \<noteq> []" and "b \<noteq> []" and "(length a + 1) * (2 * band + 1) \<le> DTW_MAX_CELLS"
    and "center_ok a center_arg" and fin: "best_cost a b band (center_used a center_arg) = Fin c"
  shows "\<exists>ps. warps a b (center_used a center_arg) band ps \<and> path_cost a b ps = c \<and>
    banded_dtw a b band center_arg =
      Inr \<lparr>index1 = map fst ps, index2 = map snd ps, normalized_distance = c / of_nat (length ps)\<rparr>"
proof -
  let ?c = "center_used a center_arg"
  obtain D P where K: "banded_dtw_kernel a b ?c band = (D, P)" by (cases "banded_dtw_kernel a b ?c band")
  note t = kernel_filled [OF center_used_0 [OF assms(4)], of a b band, unfolded K]
  have off: "0 \<le> int (length b) - (?c ! length a - int band) \<and>
             int (length b) - (?c ! length a - int band) < 2 * int band + 1"
    using best_cost_off_band [OF assms(1,2), of ?c band] fin by fastforce
  then have cell: "D ! length a ! nat (int (length b) - (?c ! length a - int band)) = Fin c"
    using corner_cell [OF t] fin by (simp add: best_cost_def)
  from backtrack_loop_chain [OF t le_refl le_refl fin [unfolded best_cost_def]]
  obtain qs where qs: "backtrack_loop P ?c band (length a) (length b) = Inr qs"
      "chain_cost (\<lambda>i j. frame_dist (a ! i) (b ! j)) qs = c" "hd qs = (length a - 1, length b - 1)"
      "warp_chain (in_band ?c band (length b)) qs"
    using assms(1,2) by (auto simp: traced_def)
  have "warps a b ?c band (rev qs)"
    using qs(3,4) warp_chain_nonempty [OF qs(4)] by (simp add: warps_iff_chain assms(1,2) last_rev)
  moreover have "path_cost a b (rev qs) = c" by (simp add: path_cost_chain qs(2))
  moreover have "banded_dtw a b band center_arg =
      Inr \<lparr>index1 = map fst (rev qs), index2 = map snd (rev qs), normalized_distance = c / of_nat (length (rev qs))\<rparr>"
    using assms(1-3) off
    by (simp add: banded_dtw_def guard_cell_count_def Let_def K cell backtrack_def qs(1) rev_map
        center_used_def [symmetric])
  ultimately show ?thesis by blast
qed

lemma best_cost_le: "warps a b full_center band ps \<Longrightarrow> a \<noteq> [] \<Longrightarrow> b \<noteq> [] \<Longrightarrow>
    best_cost a b band full_center \<le> Fin (path_cost a b ps)"
  unfolding best_cost_def by (rule chain_band_cost)

lemma dtw_errors_logical:
  assumes "center_ok a center_arg" and "banded_dtw a b band center_arg = Inl e"
  shows "\<exists>p. e = Raised p \<and> (err_class p = AlignmentTooLarge \<or> err_class p = AlignmentFailed)"
proof -
  consider "a = [] \<or> b = []"
    | "a \<noteq> []" "b \<noteq> []" "DTW_MAX_CELLS < (length a + 1) * (2 * band + 1)"
    | "a \<noteq> []" "b \<noteq> []" "(length a + 1) * (2 * band + 1) \<le> DTW_MAX_CELLS"
    by linarith
  then show ?thesis
  proof cases
    case 3
    then show ?thesis
      using banded_dtw_no_path [OF 3 assms(1)] banded_dtw_path [OF 3 assms(1)] assms(2)
      by (cases "best_cost a b band (center_used a center_arg)") (auto simp: alignment_failed_def)
  qed (use banded_dtw_empty [of a b band center_arg] banded_dtw_too_large [of a b band center_arg] assms(2)
       in \<open>auto simp: alignment_failed_def\<close>)
qed

section \<open>The centre of the fine band\<close>

lemma clip_bounds: "0 \<le> m \<Longrightarrow> 0 \<le> clip m k \<and> clip m k \<le> m"
  by (simp add: clip_def)

lemma spread_end_gap_shape:
  assumes "length xs = n_fine + 1"
  shows "length (spread_end_gap n_fine m_fine xs) = n_fine + 1"
    and "hd (spread_end_gap n_fine m_fine xs) = hd xs"
    and "0 < n_fine \<Longrightarrow> spread_end_gap n_fine m_fine xs ! n_fine = int m_fine"
  using assms by (cases xs; simp add: spread_end_gap_def Let_def hd_conv_nth del: upt_Suc)+

lemma refine_center_shape:
  "\<exists>xs. refine_center np_interp coarse ch fh n_fine m_fine = hd xs # map (clip (int m_fine)) (tl xs) \<and>
    length xs = n_fine + 1 \<and> hd xs = 0 \<and> (0 < n_fine \<longrightarrow> xs ! n_fine = int m_fine)"
  unfolding refine_center_def Let_def
  by (rule exI, intro conjI impI, rule refl) (simp_all add: spread_end_gap_shape)

lemma length_refine_center [simp]: "length (refine_center np_interp coarse ch fh n_fine m_fine) = n_fine + 1"
  using refine_center_shape [of np_interp coarse ch fh n_fine m_fine] by auto

lemma refine_center_0: "refine_center np_interp coarse ch fh n_fine m_fine ! 0 = 0"
  using refine_center_shape [of np_interp coarse ch fh n_fine m_fine] by auto

lemma refine_center_bounds:
  "k \<in> set (refine_center np_interp coarse ch fh n_fine m_fine) \<Longrightarrow> 0 \<le> k \<and> k \<le> int m_fine"
  using refine_center_shape [of np_interp coarse ch fh n_fine m_fine] by (auto simp: clip_def)

lemma refine_center_end:
  assumes "0 < n_fine"
  shows "refine_center np_interp coarse ch fh n_fine m_fine ! n_fine = int m_fine"
proof -
  obtain k xs where "n_fine = Suc k"
    and "refine_center np_interp coarse ch fh n_fine m_fine = hd xs # map (clip (int m_fine)) (tl xs)"
    and "length xs = n_fine + 1" "xs ! n_fine = int m_fine"
    using assms refine_center_shape [of np_interp coarse ch fh n_fine m_fine] by (cases n_fine) auto
  then show ?thesis by (simp add: nth_tl clip_def)
qed

text \<open>A given centre of this shape is one the kernel can start from.\<close>

lemma refine_center_ok:
  "length a = n_fine \<Longrightarrow> center_ok a (Some (refine_center np_interp coarse ch fh n_fine m_fine))"
  by (simp add: center_ok_def refine_center_0)

lemma dtw_optimal_path:
  assumes "center_ok a center_arg" and "banded_dtw a b band center_arg = Inr w"
  shows "\<exists>ps. index1 w = map fst ps \<and> index2 w = map snd ps \<and>
    warps a b (center_used a center_arg) band ps \<and>
    normalized_distance w = path_cost a b ps / of_nat (length ps) \<and>
    (\<forall>qs. warps a b (center_used a center_arg) band qs \<longrightarrow> path_cost a b ps \<le> path_cost a b qs)"
proof -
  let ?c = "center_used a center_arg"
  have ne: "a \<noteq> []" "b \<noteq> []" using assms(2) banded_dtw_empty [of a b band center_arg] by auto
  have sz: "(length a + 1) * (2 * band + 1) \<le> DTW_MAX_CELLS"
    using banded_dtw_too_large [OF ne, of band center_arg] assms(2) by fastforce
  obtain c where c: "best_cost a b band ?c = Fin c"
    using banded_dtw_no_path [OF ne sz assms(1)] assms(2) by (cases "best_cost a b band ?c") auto
  from banded_dtw_path [OF ne sz assms(1) c] assms(2) best_cost_le [OF _ ne, of ?c band] c
  show ?thesis by fastforce
qed

text \<open>The mean distance along the path is bounded by the largest distance of two frames.\<close>

lemma dtw_distance_bounds:
  assumes "center_ok a center_arg" and "banded_dtw a b band center_arg = Inr w"
    and "\<And>i j. i < length a \<Longrightarrow> j < length b \<Longrightarrow> frame_dist (a ! i) (b ! j) \<le> c"
  shows "0 \<le> normalized_distance w \<and> normalized_distance w \<le> c"
proof -
  obtain ps where ps: "warps a b (center_used a center_arg) band ps"
      "normalized_distance w = path_cost a b ps / of_nat (length ps)"
    using dtw_optimal_path [OF assms(1,2)] by blast
  let ?ds = "map (\<lambda>(i, j). frame_dist (a ! i) (b ! j)) ps"
  have m: "normalized_distance w = mean ?ds" by (simp add: ps(2) path_cost_def mean_def)
  have b: "0 \<le> x \<and> x \<le> c" if "x \<in> set ?ds" for x
    using that ps(1) assms(3) by (fastforce simp: warps_def frame_dist_nonneg)
  have "?ds \<noteq> []" using ps(1) by (simp add: warps_def)
  then show ?thesis unfolding m using mean_bounds [of ?ds 0 c] b by blast
qed

text \<open>The path starts at the first pair of frames, stays within both sequences, and ends at the last.\<close>

lemma dtw_path_shape:
  assumes "center_ok a center_arg" and "banded_dtw a b band center_arg = Inr w"
  shows "index1 w \<noteq> [] \<and> length (index2 w) = length (index1 w) \<and>
    hd (index1 w) = 0 \<and> hd (index2 w) = 0 \<and>
    (\<forall>i \<in> set (index1 w). i < length a) \<and> (\<forall>j \<in> set (index2 w). j < length b)"
  using dtw_optimal_path [OF assms] by (fastforce simp: warps_def hd_map)

lemma dtw_returns_iff:
  assumes "center_ok a center_arg"
  shows "(\<exists>w. banded_dtw a b band center_arg = Inr w) \<longleftrightarrow>
    a \<noteq> [] \<and> b \<noteq> [] \<and> (length a + 1) * (2 * band + 1) \<le> DTW_MAX_CELLS \<and>
    (\<exists>ps. warps a b (center_used a center_arg) band ps)"
proof (cases "a \<noteq> [] \<and> b \<noteq> [] \<and> (length a + 1) * (2 * band + 1) \<le> DTW_MAX_CELLS")
  case True
  let ?c = "center_used a center_arg"
  show ?thesis
  proof (cases "best_cost a b band ?c")
    case (Fin c)
    then show ?thesis using banded_dtw_path [of a b band center_arg c] True assms by auto
  next
    case Infinity
    then have "\<not> warps a b ?c band ps" for ps using best_cost_le [of a b ?c band ps] True by auto
    then show ?thesis using banded_dtw_no_path [of a b band center_arg] Infinity True assms by auto
  qed
next
  case False
  then show ?thesis
    using banded_dtw_empty [of a b band center_arg] banded_dtw_too_large [of a b band center_arg]
    by (cases "a = [] \<or> b = []") auto
qed

text \<open>Two single frames: the only path is the single pair.\<close>

lemma warps_single: "warps [u] [v] c band ps \<longleftrightarrow> ps = [(0, 0)] \<and> \<bar>1 - c ! 1\<bar> \<le> int band"
proof
  assume w: "warps [u] [v] c band ps"
  then have z: "p = (0, 0)" if "p \<in> set ps" for p using that by (auto simp: warps_def)
  show "ps = [(0, 0)] \<and> \<bar>1 - c ! 1\<bar> \<le> int band"
  proof (cases ps)
    case (Cons p qs)
    show ?thesis
    proof (cases qs)
      case Nil
      then show ?thesis using w Cons by (auto simp: warps_def)
    next
      case (Cons q rs)
      then have "warp_step p q" "p = (0, 0)" "q = (0, 0)" using w \<open>ps = p # qs\<close> z by (auto simp: warps_def)
      then show ?thesis by (simp add: warp_step_def)
    qed
  qed (use w in \<open>simp add: warps_def\<close>)
qed (auto simp: warps_def)

lemma dtw_single:
  assumes "center_ok [u] center_arg" and "\<bar>1 - center_used [u] center_arg ! 1\<bar> \<le> int band"
    and "2 * (2 * band + 1) \<le> DTW_MAX_CELLS"
  shows "banded_dtw [u] [v] band center_arg = Inr \<lparr>index1 = [0], index2 = [0], normalized_distance = frame_dist u v\<rparr>"
proof -
  have "warps [u] [v] (center_used [u] center_arg) band [(0, 0)]" using assms(2) by (simp add: warps_single)
  then obtain w where w: "banded_dtw [u] [v] band center_arg = Inr w"
    using dtw_returns_iff [OF assms(1), of "[v]" band] assms(3) by auto
  obtain ps where ps: "index1 w = map fst ps" "index2 w = map snd ps"
      "warps [u] [v] (center_used [u] center_arg) band ps"
      "normalized_distance w = path_cost [u] [v] ps / of_nat (length ps)"
    using dtw_optimal_path [OF assms(1) w] by blast
  then have "ps = [(0, 0)]" by (simp add: warps_single)
  with ps w show ?thesis by (simp add: path_cost_def)
qed

section \<open>Properties\<close>

text \<open>
  C5: When a pass returns a warping path, the path runs from the first pair of frames to the last
  one, by single steps and inside the band; its normalised distance is its mean cost; and no
  warping path in the band is cheaper.
\<close>

theorem dtw_optimal:
  assumes "center_ok a center_arg" and "banded_dtw a b band center_arg = Inr w"
  shows "\<exists>ps. index1 w = map fst ps \<and> index2 w = map snd ps \<and>
    warps a b (center_used a center_arg) band ps \<and>
    normalized_distance w = path_cost a b ps / of_nat (length ps) \<and>
    (\<forall>qs. warps a b (center_used a center_arg) band qs \<longrightarrow> path_cost a b ps \<le> path_cost a b qs)"
  using assms by (rule dtw_optimal_path)

lemma dtw_example:
  "banded_dtw [[0], [1]] [[1]] 1 None
     = Inr \<lparr>index1 = [0, 1], index2 = [0, 0], normalized_distance = 1 / 2\<rparr>"
  by (simp add: banded_dtw_def guard_cell_count_def DTW_MAX_CELLS_def banded_dtw_kernel_def
      kernel_step_def fill_cell_def relax_def frame_dist_def Let_def upto.simps upt_rec
      nat_add_distrib numeral_2_eq_2 numeral_3_eq_3 Suc_eq_plus1 [symmetric] del: Suc_eq_plus1)
    (simp add: backtrack_def backtrack_loop.simps np_index_def)

theorem dtw_optimal_witness:
  "warps [[0], [1]] [[1]] [0, 1, 2] 1 [(0, 0), (1, 0)] \<and> path_cost [[0], [1]] [[1]] [(0, 0), (1, 0)] = 1"
  using dtw_optimal [of "[[0], [1]]" None "[[1]]" 1, OF _ dtw_example]
  by (auto simp: center_ok_def center_used_def upt_rec)

text \<open>
  C6: A pass returns a path exactly when both sequences are non-empty, the banded matrix is within
  the cell ceiling, and the band contains a warping path: no alignable pair is rejected, and every
  other input raises.
\<close>

theorem dtw_complete:
  assumes "center_ok a center_arg"
  shows "(\<exists>w. banded_dtw a b band center_arg = Inr w) \<longleftrightarrow>
    a \<noteq> [] \<and> b \<noteq> [] \<and> (length a + 1) * (2 * band + 1) \<le> DTW_MAX_CELLS \<and>
    (\<exists>ps. warps a b (center_used a center_arg) band ps)"
  using assms by (rule dtw_returns_iff)

theorem dtw_complete_witness:
  "\<exists>ps. warps [[0], [1]] [[1]] (center_used [[0], [1]] None) 1 ps"
  using dtw_complete [of "[[0], [1]]" None "[[1]]" 1] dtw_example by (auto simp: center_ok_def)

text \<open>
  Whatever the interpolation returns, the centre of the fine band has one entry per row, starts
  at column 0, stays inside the reference and ends at its last frame, so the far corner is always
  in the fine band.
\<close>

theorem refine_center_spans:
  "length (refine_center np_interp coarse ch fh (Suc n) m) = Suc n + 1 \<and>
   refine_center np_interp coarse ch fh (Suc n) m ! 0 = 0 \<and>
   set (refine_center np_interp coarse ch fh (Suc n) m) \<subseteq> {0..int m} \<and>
   refine_center np_interp coarse ch fh (Suc n) m ! Suc n = int m"
  using refine_center_bounds [of _ np_interp coarse ch fh "Suc n" m]
  by (auto simp: refine_center_0 refine_center_end)

end
