(* ===== verification/Runner.thy ===== *)
theory Runner
  imports Models
begin

text \<open>
  \<open>pipeline/base.py\<close>, \<open>pipeline/events.py\<close> and \<open>pipeline/runner.py\<close>: the stage contract and
  the runner that executes the stages of a job in child processes, with retries, optional stages,
  parallel groups, progress reports and resumption. A stage is opaque to the runner, as in the code:
  its \<open>run\<close> is a function of the child's number, its environment and the context. What the
  operating system does with the n-th child (the result arrives, it hangs past the timeout, it dies
  without a result, it cannot be started) is the parameter \<open>fate\<close>. The state is the runner's
  process: its environment, and the children started and sleeps made so far; a client's own state
  (database, published events) extends the record.
\<close>

section \<open>Stages and the operating system\<close>

type_synonym env = "string \<rightharpoonup> string"

record 'c pipeline_stage =
  stage_name :: string
  timeout_seconds :: nat
  required :: bool
  modes :: "mode set"
  stage_run :: "nat \<Rightarrow> env \<Rightarrow> 'c \<Rightarrow> exn + stage_result"

text \<open>An entry of the stage list: a stage, or a \<open>ParallelGroup\<close>.\<close>

datatype 'c entry = Single "'c pipeline_stage" | ParallelGroup "'c pipeline_stage list"

datatype child_fate = Finishes | Hangs | Dies int | StartFails string

record os_state =
  environ :: env
  spawned :: "(string \<times> env) list"
  slept :: "nat list"

datatype run_outcome = COMPLETED | INTERRUPTED

text \<open>
  The ports the runner is given: \<open>EventPublisher.publish_stage\<close>, the two methods of
  \<open>ProgressReporter\<close>, and \<open>should_stop\<close>.
\<close>

record 'w run_ports =
  publish_stage :: "string \<Rightarrow> string \<Rightarrow> nat \<Rightarrow> nat \<Rightarrow> ('w, exn, unit) prog"
  mark_processing :: "string \<Rightarrow> nat \<Rightarrow> nat \<Rightarrow> ('w, exn, unit) prog"
  save_stage_progress :: "stage_result \<Rightarrow> string option \<Rightarrow> nat option \<Rightarrow> nat \<Rightarrow> ('w, exn, unit) prog"
  should_stop :: "('w, exn, bool) prog"

section \<open>One child process\<close>

text \<open>\<open>_stage_worker\<close>: what the child puts on its queue.\<close>

definition stage_worker ::
  "'c pipeline_stage \<Rightarrow> nat \<Rightarrow> env \<Rightarrow> 'c \<Rightarrow> pipeline_error + stage_result" where
  "stage_worker s pid env context =
     (case stage_run s pid env context of
        Inr r \<Rightarrow> Inr r
      | Inl (Raised e) \<Rightarrow> Inl e
      | Inl (Crash cls message) \<Rightarrow>
          Inl (pipeline_error_init InternalPipelineError
                 (''stage '' @ [CHR 0x27] @ stage_name s @ [CHR 0x27] @ '' crashed: '' @ message) None))"

text \<open>
  The payload crosses the queue pickled. An exception is rebuilt from its class and \<open>args\<close>, and
  \<open>args\<close> holds the message alone: \<open>StageTimeout.__init__\<close>, which takes two arguments, fails.
\<close>

definition unpickle :: "pipeline_error + stage_result \<Rightarrow> exn + (pipeline_error + stage_result)" where
  "unpickle payload =
     (case payload of
        Inl e \<Rightarrow>
          if err_class e = StageTimeout
          then Inl (Crash ''TypeError'' ''missing 1 required positional argument: timeout_seconds'')
          else Inr payload
      | Inr r \<Rightarrow> Inr payload)"

definition start_process ::
  "(nat \<Rightarrow> child_fate) \<Rightarrow> 'c pipeline_stage \<Rightarrow> ('z os_state_scheme, exn, nat \<times> env) prog" where
  "start_process fate s w =
     (let pid = length (spawned w);
          w' = w\<lparr>spawned := spawned w @ [(stage_name s, environ w)]\<rparr>
      in case fate pid of
           StartFails message \<Rightarrow> (Inl (Crash ''OSError'' message), w')
         | _ \<Rightarrow> (Inr (pid, environ w), w'))"

text \<open>\<open>_join_subprocess\<close>: the outcome of a started child.\<close>

definition join_subprocess ::
  "(nat \<Rightarrow> child_fate) \<Rightarrow> 'c pipeline_stage \<Rightarrow> 'c \<Rightarrow> nat \<times> env \<Rightarrow> exn + (pipeline_error + stage_result)" where
  "join_subprocess fate s context process =
     (case fate (fst process) of
        Finishes \<Rightarrow> unpickle (stage_worker s (fst process) (snd process) context)
      | Hangs \<Rightarrow>
          Inr (Inl (pipeline_error_init TransientPipelineError
                 (''stage '' @ [CHR 0x27] @ stage_name s @ [CHR 0x27] @ '' exceeded its ''
                  @ show_nat (timeout_seconds s) @ ''s timeout'') (Some ''TIMEOUT'')))
      | Dies exit_code \<Rightarrow>
          Inr (Inl (pipeline_error_init InternalPipelineError
                 (''stage '' @ [CHR 0x27] @ stage_name s @ [CHR 0x27] @ '' produced no result (exit code ''
                  @ show_int exit_code @ '')'') None))
      | StartFails message \<Rightarrow> Inl (Crash ''OSError'' message))"

definition run_in_subprocess ::
  "(nat \<Rightarrow> child_fate) \<Rightarrow> 'c pipeline_stage \<Rightarrow> 'c \<Rightarrow> ('z os_state_scheme, exn, stage_result) prog" where
  "run_in_subprocess fate s context =
     bindp (start_process fate s) (\<lambda>process.
     bindp (liftp (join_subprocess fate s context process)) (\<lambda>outcome.
       case outcome of Inl e \<Rightarrow> throw (Raised e) | Inr r \<Rightarrow> ret r))"

section \<open>Retries\<close>

definition MAX_STAGE_RETRIES :: nat where
  "MAX_STAGE_RETRIES = 2"

definition RETRY_BACKOFF_BASE_SECONDS :: nat where
  "RETRY_BACKOFF_BASE_SECONDS = 2"

text \<open>\<open>_skipped_result\<close>: the recorded failure of an optional stage.\<close>

definition skipped_result :: "'c pipeline_stage \<Rightarrow> pipeline_error \<Rightarrow> stage_result" where
  "skipped_result s e =
     \<lparr>stage = stage_name s, status = SKIPPED, duration_ms = 0, data = [],
      error_code = Some (err_code e), error_message = Some (err_message e)\<rparr>"

definition sleep :: "nat \<Rightarrow> 'z os_state_scheme \<Rightarrow> 'z os_state_scheme" where
  "sleep delay w = w\<lparr>slept := slept w @ [delay]\<rparr>"

function run_stage_attempts ::
  "(nat \<Rightarrow> child_fate) \<Rightarrow> 'c pipeline_stage \<Rightarrow> 'c \<Rightarrow> nat \<Rightarrow> ('z os_state_scheme, exn, stage_result) prog" where
  "run_stage_attempts fate s context attempt w =
     (case run_in_subprocess fate s context w of
        (Inr r, w') \<Rightarrow> (Inr r, w')
      | (Inl (Crash cls message), w') \<Rightarrow> (Inl (Crash cls message), w')
      | (Inl (Raised e), w') \<Rightarrow>
          if is_logical e then
            (if \<not> required s then (Inr (skipped_result s e), w') else (Inl (Raised e), w'))
          else if is_transient e then
            (if attempt + 1 > MAX_STAGE_RETRIES then
               (if \<not> required s then (Inr (skipped_result s e), w') else (Inl (Raised e), w'))
             else run_stage_attempts fate s context (attempt + 1)
                    (sleep (RETRY_BACKOFF_BASE_SECONDS * 2 ^ attempt) w'))
          else (Inl (Raised e), w'))"
  by pat_completeness auto
termination
  by (relation "measure (\<lambda>(fate, s, c, attempt, w). MAX_STAGE_RETRIES - attempt)") auto

declare run_stage_attempts.simps [simp del]

definition run_stage_with_retries ::
  "(nat \<Rightarrow> child_fate) \<Rightarrow> 'c pipeline_stage \<Rightarrow> 'c \<Rightarrow> ('z os_state_scheme, exn, stage_result) prog" where
  "run_stage_with_retries fate s context = run_stage_attempts fate s context 0"

section \<open>Parallel groups\<close>

definition BLAS_THREAD_ENV_VARS :: "string list" where
  "BLAS_THREAD_ENV_VARS =
     [''OMP_NUM_THREADS'', ''MKL_NUM_THREADS'', ''OPENBLAS_NUM_THREADS'', ''NUMEXPR_NUM_THREADS'']"

definition force_single_threaded_blas ::
  "('z os_state_scheme, exn, (string \<times> string option) list) prog" where
  "force_single_threaded_blas =
     bindp (readp (\<lambda>w. map (\<lambda>var. (var, environ w var)) BLAS_THREAD_ENV_VARS)) (\<lambda>original.
     thenp (for_each (\<lambda>var. modifyp (\<lambda>w. w\<lparr>environ := (environ w)(var \<mapsto> ''1'')\<rparr>)) BLAS_THREAD_ENV_VARS)
       (ret original))"

definition restore_env :: "(string \<times> string option) list \<Rightarrow> ('z os_state_scheme, exn, unit) prog" where
  "restore_env original =
     for_each (\<lambda>(var, value). modifyp (\<lambda>w. w\<lparr>environ := (environ w)(var := value)\<rparr>)) original"

definition start_group ::
  "(nat \<Rightarrow> child_fate) \<Rightarrow> 'c pipeline_stage list \<Rightarrow> 'c \<Rightarrow>
     ('z os_state_scheme, exn, string \<rightharpoonup> pipeline_error + stage_result) prog" where
  "start_group fate stages context =
     bindp force_single_threaded_blas (\<lambda>original_env.
     bindp (finallyp (map_each (start_process fate) stages) (restore_env original_env)) (\<lambda>processes.
     bindp (map_each (\<lambda>(s, process).
              bindp (liftp (join_subprocess fate s context process)) (\<lambda>outcome. ret (stage_name s, outcome)))
            (zip stages processes)) (\<lambda>outcomes.
     ret (map_of (rev outcomes)))))"

text \<open>\<open>d[k]\<close> on a dict of results.\<close>

definition lookup :: "(string \<rightharpoonup> 'a) \<Rightarrow> string \<Rightarrow> ('s, exn, 'a) prog" where
  "lookup d k = (case d k of None \<Rightarrow> throw (Crash ''KeyError'' k) | Some x \<Rightarrow> ret x)"

definition settle_member ::
  "(nat \<Rightarrow> child_fate) \<Rightarrow> 'c \<Rightarrow> (string \<rightharpoonup> pipeline_error + stage_result) \<Rightarrow> 'c pipeline_stage \<Rightarrow>
     ('z os_state_scheme, exn, stage_result) prog" where
  "settle_member fate context outcomes s =
     bindp (lookup outcomes (stage_name s)) (\<lambda>outcome.
       case outcome of
         Inr r \<Rightarrow> ret r
       | Inl e \<Rightarrow>
           if is_logical e then
             (if \<not> required s then ret (skipped_result s e) else throw (Raised e))
           else run_stage_with_retries fate s context)"

definition run_group_with_retries ::
  "(nat \<Rightarrow> child_fate) \<Rightarrow> 'c pipeline_stage list \<Rightarrow> 'c \<Rightarrow>
     ('z os_state_scheme, exn, string \<rightharpoonup> stage_result) prog" where
  "run_group_with_retries fate stages context =
     bindp (start_group fate stages context) (\<lambda>outcomes.
     bindp (map_each (\<lambda>s. bindp (settle_member fate context outcomes s) (\<lambda>r. ret (stage_name s, r))) stages)
       (\<lambda>results. ret (map_of (rev results))))"

fun run_entry_with_retries ::
  "(nat \<Rightarrow> child_fate) \<Rightarrow> 'c entry \<Rightarrow> 'c \<Rightarrow> ('z os_state_scheme, exn, string \<rightharpoonup> stage_result) prog" where
  "run_entry_with_retries fate (ParallelGroup stages) context = run_group_with_retries fate stages context"
| "run_entry_with_retries fate (Single s) context =
     bindp (run_stage_with_retries fate s context) (\<lambda>r. ret [stage_name s \<mapsto> r])"

section \<open>Choosing the entries\<close>

fun members :: "'c entry \<Rightarrow> 'c pipeline_stage list" where
  "members (ParallelGroup stages) = stages"
| "members (Single s) = [s]"

fun flatten :: "'c entry list \<Rightarrow> 'c pipeline_stage list" where
  "flatten [] = []"
| "flatten (ParallelGroup stages # entries) = stages @ flatten entries"
| "flatten (Single s # entries) = s # flatten entries"

type_synonym done_map = "(string \<times> stage_result) list"

fun remaining_entries :: "'c entry list \<Rightarrow> done_map \<Rightarrow> 'c entry list" where
  "remaining_entries [] already_done = []"
| "remaining_entries (ParallelGroup stages # entries) already_done =
     (let ms = filter (\<lambda>s. stage_name s \<notin> fst ` set already_done) stages
      in (if ms \<noteq> [] then [ParallelGroup ms] else []) @ remaining_entries entries already_done)"
| "remaining_entries (Single s # entries) already_done =
     (if stage_name s \<notin> fst ` set already_done then [Single s] else [])
       @ remaining_entries entries already_done"

fun filter_mode :: "'c entry list \<Rightarrow> mode \<Rightarrow> 'c entry list" where
  "filter_mode [] mode = []"
| "filter_mode (ParallelGroup stages # entries) mode =
     (let ms = filter (\<lambda>s. mode \<in> modes s) stages
      in (if ms \<noteq> [] then [ParallelGroup ms] else []) @ filter_mode entries mode)"
| "filter_mode (Single s # entries) mode =
     (if mode \<in> modes s then [Single s] else []) @ filter_mode entries mode"

definition stages_for_mode :: "'c entry list \<Rightarrow> mode option \<Rightarrow> 'c entry list" where
  "stages_for_mode entries mode = (case mode of None \<Rightarrow> entries | Some m \<Rightarrow> filter_mode entries m)"

section \<open>The run\<close>

text \<open>\<open>stage_positions\<close>: a dict comprehension, in which the last stage of a name wins.\<close>

definition stage_positions :: "'c pipeline_stage list \<Rightarrow> string \<rightharpoonup> nat" where
  "stage_positions flat = map_of (rev (zip (map stage_name flat) [1..<length flat + 1]))"

text \<open>The inner loop of \<open>run\<close> over the members of an entry.\<close>

fun save_members ::
  "('c \<Rightarrow> stage_result \<Rightarrow> 'c) \<Rightarrow> 'w run_ports \<Rightarrow> (string \<rightharpoonup> nat) \<Rightarrow> nat \<Rightarrow> 'c pipeline_stage list \<Rightarrow>
     (string \<rightharpoonup> stage_result) \<Rightarrow> 'c pipeline_stage list \<Rightarrow> 'c \<Rightarrow> nat \<Rightarrow> ('w, exn, 'c \<times> nat) prog" where
  "save_members with_result ports positions total_stages remaining_flat results [] context flat_position =
     ret (context, flat_position)"
| "save_members with_result ports positions total_stages remaining_flat results (s # ss) context flat_position =
     bindp (lookup results (stage_name s)) (\<lambda>result.
       let context' = with_result context result;
           position' = flat_position + 1;
           next_stage = (if position' < length remaining_flat
                         then Some (stage_name (remaining_flat ! position')) else None)
       in bindp (case next_stage of
                   None \<Rightarrow> ret None
                 | Some n \<Rightarrow> bindp (lookup positions n) (\<lambda>i. ret (Some i))) (\<lambda>next_stage_index.
          thenp (save_stage_progress ports result next_stage next_stage_index total_stages)
            (save_members with_result ports positions total_stages remaining_flat results ss context' position')))"

fun run_entries ::
  "('c \<Rightarrow> stage_result \<Rightarrow> 'c) \<Rightarrow> (nat \<Rightarrow> child_fate) \<Rightarrow> ('z os_state_scheme) run_ports \<Rightarrow> string \<Rightarrow>
     (string \<rightharpoonup> nat) \<Rightarrow> nat \<Rightarrow> 'c pipeline_stage list \<Rightarrow> 'c entry list \<Rightarrow> 'c \<Rightarrow> nat \<Rightarrow>
     ('z os_state_scheme, exn, run_outcome) prog" where
  "run_entries with_result fate ports job_id positions total_stages remaining_flat [] context flat_position =
     ret COMPLETED"
| "run_entries with_result fate ports job_id positions total_stages remaining_flat (entry # entries) context flat_position =
     bindp (should_stop ports) (\<lambda>stop.
       if stop then ret INTERRUPTED
       else
         thenp (for_each (\<lambda>s. bindp (lookup positions (stage_name s)) (\<lambda>i.
                   publish_stage ports job_id (stage_name s) i total_stages)) (members entry))
         (bindp (run_entry_with_retries fate entry context) (\<lambda>results.
          bindp (save_members with_result ports positions total_stages remaining_flat results
                   (members entry) context flat_position) (\<lambda>(context', position').
            run_entries with_result fate ports job_id positions total_stages remaining_flat entries
              context' position'))))"

definition run ::
  "('c \<Rightarrow> stage_result \<Rightarrow> 'c) \<Rightarrow> (nat \<Rightarrow> child_fate) \<Rightarrow> 'c entry list \<Rightarrow> ('z os_state_scheme) run_ports \<Rightarrow>
     string \<Rightarrow> 'c \<Rightarrow> done_map \<Rightarrow> mode option \<Rightarrow> ('z os_state_scheme, exn, run_outcome) prog" where
  "run with_result fate stages ports job_id initial_context already_done mode =
     (let context = fold (\<lambda>r c. with_result c r) (map snd already_done) initial_context;
          active_stages = stages_for_mode stages mode;
          flat_all = flatten active_stages;
          total_stages = length flat_all;
          positions = stage_positions flat_all;
          remaining = remaining_entries active_stages already_done;
          remaining_flat = flatten remaining
      in thenp (case remaining_flat of
                  [] \<Rightarrow> ret ()
                | first # _ \<Rightarrow>
                    bindp (lookup positions (stage_name first)) (\<lambda>i.
                      mark_processing ports (stage_name first) i total_stages))
           (run_entries with_result fate ports job_id positions total_stages remaining_flat remaining context 0))"

section \<open>What one child and the retry loop do\<close>

text \<open>What the parent learns of child \<open>pid\<close>, as the exception or result of \<open>_run_in_subprocess\<close>.\<close>

definition attempt_outcome ::
  "(nat \<Rightarrow> child_fate) \<Rightarrow> 'c pipeline_stage \<Rightarrow> 'c \<Rightarrow> env \<Rightarrow> nat \<Rightarrow> exn + stage_result" where
  "attempt_outcome fate s context env pid =
     (case join_subprocess fate s context (pid, env) of
        Inl e \<Rightarrow> Inl e | Inr (Inl e) \<Rightarrow> Inl (Raised e) | Inr (Inr r) \<Rightarrow> Inr r)"

definition started_children :: "nat \<Rightarrow> string \<Rightarrow> 'z os_state_scheme \<Rightarrow> 'z os_state_scheme" where
  "started_children n name w = w\<lparr>spawned := spawned w @ replicate n (name, environ w)\<rparr>"

definition transient_failure :: "exn + 'a \<Rightarrow> bool" where
  "transient_failure r \<longleftrightarrow> (case r of Inl (Raised e) \<Rightarrow> is_transient e | _ \<Rightarrow> False)"

text \<open>How the last attempt decides: an optional stage turns its own failures into a skipped result.\<close>

definition settled :: "'c pipeline_stage \<Rightarrow> exn + stage_result \<Rightarrow> exn + stage_result" where
  "settled s r =
     (case r of
        Inl (Raised e) \<Rightarrow>
          if (is_logical e \<or> is_transient e) \<and> \<not> required s then Inr (skipped_result s e) else r
      | _ \<Rightarrow> r)"

lemma run_in_subprocess_eq:
  "run_in_subprocess fate s context w =
     (attempt_outcome fate s context (environ w) (length (spawned w)), started_children (Suc 0) (stage_name s) w)"
  by (simp add: run_in_subprocess_def bindp_def start_process_def attempt_outcome_def started_children_def
      join_subprocess_def Let_def split: child_fate.splits sum.splits)

lemma started_children_simps [simp]:
  "environ (started_children n name w) = environ w"
  "slept (started_children n name w) = slept w"
  "spawned (started_children n name w) = spawned w @ replicate n (name, environ w)"
  "os_state.more (started_children n name w) = os_state.more w"
  "environ (sleep t w) = environ w" "spawned (sleep t w) = spawned w" "slept (sleep t w) = slept w @ [t]"
  "os_state.more (sleep t w) = os_state.more w"
  by (simp_all add: started_children_def sleep_def)

text \<open>The three attempts, and the index of the one that decides.\<close>

definition attempts :: "(nat \<Rightarrow> child_fate) \<Rightarrow> 'c pipeline_stage \<Rightarrow> 'c \<Rightarrow> 'z os_state_scheme \<Rightarrow> nat \<Rightarrow> exn + stage_result" where
  "attempts fate s context w i = attempt_outcome fate s context (environ w) (length (spawned w) + i)"

fun deciding :: "(nat \<Rightarrow> bool) \<Rightarrow> nat \<Rightarrow> nat" where
  "deciding again 0 = 0"
| "deciding again (Suc n) = (if again 0 then Suc (deciding (\<lambda>i. again (Suc i)) n) else 0)"

lemma deciding_le: "deciding again n \<le> n"
  by (induction again n rule: deciding.induct) auto

definition backoffs :: "nat \<Rightarrow> nat list" where
  "backoffs k = map (\<lambda>i. RETRY_BACKOFF_BASE_SECONDS * 2 ^ i) [0..<k]"

lemma run_stage_attempts_eq:
  assumes "attempt \<le> MAX_STAGE_RETRIES"
  shows "run_stage_attempts fate s context attempt w =
    (let k = deciding (\<lambda>i. transient_failure (attempts fate s context w i)) (MAX_STAGE_RETRIES - attempt)
     in (settled s (attempts fate s context w k),
         w\<lparr>spawned := spawned w @ replicate (k + 1) (stage_name s, environ w),
           slept := slept w @ map (\<lambda>i. RETRY_BACKOFF_BASE_SECONDS * 2 ^ i) [attempt..<attempt + k]\<rparr>))"
  using assms
proof (induction "MAX_STAGE_RETRIES - attempt" arbitrary: attempt w)
  case 0
  then have "attempt = MAX_STAGE_RETRIES" by simp
  then show ?case
    by (subst run_stage_attempts.simps)
      (auto simp: run_in_subprocess_eq attempts_def settled_def started_children_def Let_def
        split: sum.splits exn.splits simp del: is_transient_iff is_logical_iff)
next
  case (Suc n)
  then have lt: "attempt + 1 \<le> MAX_STAGE_RETRIES" and sn: "MAX_STAGE_RETRIES - attempt = Suc n"
    and n: "n = MAX_STAGE_RETRIES - (attempt + 1)" by simp_all
  let ?r = "attempts fate s context w 0" and ?w1 = "started_children (Suc 0) (stage_name s) w"
  show ?case
  proof (cases "transient_failure ?r")
    case False
    then show ?thesis unfolding sn
      by (subst run_stage_attempts.simps)
        (auto simp: run_in_subprocess_eq attempts_def settled_def started_children_def Let_def
          transient_failure_def split: sum.splits exn.splits simp del: is_transient_iff is_logical_iff)
  next
    case True
    then obtain e where e: "?r = Inl (Raised e)" "is_transient e" "\<not> is_logical e"
      by (auto simp: transient_failure_def split: sum.splits exn.splits)
    let ?w2 = "sleep (RETRY_BACKOFF_BASE_SECONDS * 2 ^ attempt) ?w1"
    have step: "run_stage_attempts fate s context attempt w = run_stage_attempts fate s context (attempt + 1) ?w2"
      using e lt by (subst run_stage_attempts.simps)
        (simp add: run_in_subprocess_eq attempts_def del: is_transient_iff is_logical_iff)
    have shift: "attempts fate s context ?w2 = (\<lambda>i. attempts fate s context w (Suc i))"
      by (rule ext) (simp add: attempts_def)
    let ?k = "deciding (\<lambda>i. transient_failure (attempts fate s context w (Suc i))) n"
    have "run_stage_attempts fate s context (attempt + 1) ?w2 =
      (settled s (attempts fate s context w (Suc ?k)),
         ?w2\<lparr>spawned := spawned ?w2 @ replicate (?k + 1) (stage_name s, environ ?w2),
           slept := slept ?w2 @ map (\<lambda>i. RETRY_BACKOFF_BASE_SECONDS * 2 ^ i) [attempt + 1..<attempt + 1 + ?k]\<rparr>)"
      using Suc.hyps(1) [OF n lt, of ?w2] n by (simp only: shift Let_def)
    then show ?thesis unfolding step sn
      using True by (simp add: Let_def sleep_def started_children_def upt_conv_Cons del: upt_Suc)
  qed
qed

lemma run_stage_with_retries_eq:
  "run_stage_with_retries fate s context w =
    (let k = deciding (\<lambda>i. transient_failure (attempts fate s context w i)) MAX_STAGE_RETRIES
     in (settled s (attempts fate s context w k),
         w\<lparr>spawned := spawned w @ replicate (k + 1) (stage_name s, environ w), slept := slept w @ backoffs k\<rparr>))"
  using run_stage_attempts_eq [of 0 fate s _ w]
  by (simp add: run_stage_with_retries_def backoffs_def Let_def)

lemma deciding_transient: "i < deciding again n \<Longrightarrow> again i"
proof (induction again n arbitrary: i rule: deciding.induct)
  case (2 again n)
  then show ?case by (cases i) (auto split: if_splits)
qed simp

lemma deciding_last: "deciding again n < n \<Longrightarrow> \<not> again (deciding again n)"
  by (induction again n rule: deciding.induct) (auto split: if_splits)


section \<open>Groups\<close>

definition single_threaded :: "env \<Rightarrow> env" where
  "single_threaded E = (\<lambda>var. if var \<in> set BLAS_THREAD_ENV_VARS then Some ''1'' else E var)"

lemma for_each_modifyp: "for_each (\<lambda>x. modifyp (f x)) xs w = (Inr (), fold f xs w)"
  by (induction xs arbitrary: w) (simp_all add: thenp_def bindp_def)

lemma force_single_threaded_blas_eq:
  "force_single_threaded_blas w =
     (Inr (map (\<lambda>var. (var, environ w var)) BLAS_THREAD_ENV_VARS), w\<lparr>environ := single_threaded (environ w)\<rparr>)"
proof -
  have "fold (\<lambda>var w. w\<lparr>environ := (environ w)(var \<mapsto> ''1'')\<rparr>) BLAS_THREAD_ENV_VARS w =
      w\<lparr>environ := single_threaded (environ w)\<rparr>"
    by (auto simp: BLAS_THREAD_ENV_VARS_def single_threaded_def fun_eq_iff)
  then show ?thesis
    by (simp add: force_single_threaded_blas_def bindp_def thenp_def for_each_modifyp)
qed

lemma restore_env_eq:
  assumes "environ w = single_threaded E"
  shows "restore_env (map (\<lambda>var. (var, E var)) BLAS_THREAD_ENV_VARS) w = (Inr (), w\<lparr>environ := E\<rparr>)"
proof -
  have "restore_env (map (\<lambda>var. (var, E var)) BLAS_THREAD_ENV_VARS) w =
      (Inr (), fold (\<lambda>(var, value) w. w\<lparr>environ := (environ w)(var := value)\<rparr>)
                 (map (\<lambda>var. (var, E var)) BLAS_THREAD_ENV_VARS) w)"
    unfolding restore_env_def case_prod_beta by (rule for_each_modifyp)
  also have "\<dots> = (Inr (), w\<lparr>environ := E\<rparr>)"
    using assms by (cases w) (auto simp: BLAS_THREAD_ENV_VARS_def single_threaded_def fun_eq_iff)
  finally show ?thesis .
qed

text \<open>Which members get started: all of them up to one the operating system refuses.\<close>

definition start_members :: "(nat \<Rightarrow> child_fate) \<Rightarrow> 'c pipeline_stage list \<Rightarrow> ('z os_state_scheme, exn, (nat \<times> env) list) prog" where
  "start_members fate ss = map_each (start_process fate) ss"

lemma start_process_eq:
  "start_process fate s w =
     ((case fate (length (spawned w)) of
         StartFails message \<Rightarrow> Inl (Crash ''OSError'' message) | _ \<Rightarrow> Inr (length (spawned w), environ w)),
      started_children (Suc 0) (stage_name s) w)"
  by (simp add: start_process_def started_children_def Let_def split: child_fate.splits)

lemma map_each_start:
  "\<exists>k r. map_each (start_process fate) ss w =
     (r, w\<lparr>spawned := spawned w @ map (\<lambda>s. (stage_name s, environ w)) (take k ss)\<rparr>) \<and>
     (\<forall>hs. r = Inr hs \<longrightarrow> k = length ss \<and> hs = map (\<lambda>i. (length (spawned w) + i, environ w)) [0..<length ss])"
proof (induction ss arbitrary: w)
  case Nil
  show ?case by (rule exI [of _ 0], rule exI [of _ "Inr []"]) simp
next
  case (Cons s ss)
  let ?w1 = "started_children (Suc 0) (stage_name s) w"
  obtain k r where kr: "map_each (start_process fate) ss ?w1 =
      (r, ?w1\<lparr>spawned := spawned ?w1 @ map (\<lambda>s. (stage_name s, environ ?w1)) (take k ss)\<rparr>)"
    and ok: "\<And>hs. r = Inr hs \<Longrightarrow> k = length ss \<and> hs = map (\<lambda>i. (length (spawned ?w1) + i, environ ?w1)) [0..<length ss]"
    using Cons.IH [of ?w1] by blast
  show ?case
  proof (cases "\<exists>message. fate (length (spawned w)) = StartFails message")
    case True
    then show ?thesis
      by (auto simp: bindp_def start_process_eq started_children_def intro!: exI [of _ 1])
  next
    case False
    then have h: "start_process fate s w = (Inr (length (spawned w), environ w), ?w1)"
      by (auto simp: start_process_eq split: child_fate.splits)
    have "map_each (start_process fate) (s # ss) w =
        ((case r of Inl e \<Rightarrow> Inl e | Inr hs \<Rightarrow> Inr ((length (spawned w), environ w) # hs)),
         w\<lparr>spawned := spawned w @ map (\<lambda>s. (stage_name s, environ w)) (take (Suc k) (s # ss))\<rparr>)"
      by (simp add: bindp_def h kr) (simp add: started_children_def split: sum.splits)
    moreover have "[0..<length (s # ss)] = 0 # map Suc [0..<length ss]"
      by (simp add: upt_conv_Cons map_Suc_upt del: upt_Suc)
    ultimately show ?thesis
      using ok
      by (intro exI [of _ "Suc k"]
          exI [of _ "case r of Inl e \<Rightarrow> Inl e | Inr hs \<Rightarrow> Inr ((length (spawned w), environ w) # hs)"])
        (cases r; simp del: upt_Suc map_each.simps)
  qed
qed

text \<open>
  Starting a group: every member inherits the single-threaded environment, and the parent's own is
  back to what it was, whether or not a start failed.
\<close>

lemma start_group_state:
  "\<exists>k. snd (start_group fate ss ctx w) =
     w\<lparr>spawned := spawned w @ map (\<lambda>s. (stage_name s, single_threaded (environ w))) (take k ss)\<rparr>"
proof -
  let ?w1 = "w\<lparr>environ := single_threaded (environ w)\<rparr>"
  obtain k r where kr: "map_each (start_process fate) ss ?w1 =
      (r, ?w1\<lparr>spawned := spawned ?w1 @ map (\<lambda>s. (stage_name s, environ ?w1)) (take k ss)\<rparr>)"
    using map_each_start by blast
  let ?w2 = "w\<lparr>spawned := spawned w @ map (\<lambda>s. (stage_name s, single_threaded (environ w))) (take k ss)\<rparr>"
  have "finallyp (map_each (start_process fate) ss)
      (restore_env (map (\<lambda>var. (var, environ w var)) BLAS_THREAD_ENV_VARS)) ?w1 = (r, ?w2)"
    by (simp add: finallyp_def kr restore_env_eq)
  then have "start_group fate ss ctx w = (case r of Inl e \<Rightarrow> (Inl e, ?w2)
      | Inr hs \<Rightarrow> bindp (map_each (\<lambda>(s, process). bindp (liftp (join_subprocess fate s ctx process))
            (\<lambda>outcome. ret (stage_name s, outcome))) (zip ss hs)) (\<lambda>outcomes. ret (map_of (rev outcomes))) ?w2)"
    unfolding start_group_def bindp_Inr [OF force_single_threaded_blas_eq]
    by (cases r) (simp_all add: bindp_Inl bindp_Inr)
  moreover have "snd (bindp (map_each (\<lambda>(s, process). bindp (liftp (join_subprocess fate s ctx process))
            (\<lambda>outcome. ret (stage_name s, outcome))) (zip ss hs)) (\<lambda>outcomes. ret (map_of (rev outcomes))) ?w2) = ?w2" for hs
    by (rule keepsD [where I = "\<lambda>w. w = ?w2"]) (intro keeps_rules refl)+
  ultimately have "snd (start_group fate ss ctx w) = ?w2"
    by (cases r) simp_all
  then show ?thesis by blast
qed


section \<open>What a whole run keeps\<close>

definition ports_keep :: "('w \<Rightarrow> bool) \<Rightarrow> 'w run_ports \<Rightarrow> bool" where
  "ports_keep I ports \<longleftrightarrow>
     (\<forall>job n i t. keeps I (publish_stage ports job n i t)) \<and>
     (\<forall>n i t. keeps I (mark_processing ports n i t)) \<and>
     (\<forall>r n i t. keeps I (save_stage_progress ports r n i t)) \<and>
     keeps I (should_stop ports)"

lemma keeps_lookup [keeps_rules]: "keeps I (lookup d k)"
  by (auto simp: lookup_def intro!: keeps_rules split: option.splits)

lemma keeps_save_members:
  assumes "ports_keep I ports"
  shows "keeps I (save_members with_result ports positions n flat results ss ctx pos)"
  using assms
  by (induction ss arbitrary: ctx pos)
    (simp_all add: ports_keep_def Let_def keeps_ret keeps_bindp keeps_lookup keeps_thenp keeps_option
      split: option.split)

lemma keeps_run_entries:
  assumes "ports_keep I ports"
    and "\<And>entry ctx. entry \<in> set entries \<Longrightarrow> keeps I (run_entry_with_retries fate entry ctx)"
  shows "keeps I (run_entries with_result fate ports job positions n flat entries ctx pos)"
  using assms(2)
proof (induction entries arbitrary: ctx pos)
  case (Cons entry entries)
  have p: "keeps I (should_stop ports)" "keeps I (publish_stage ports job m i t)" for m i t
    using assms(1) by (simp_all add: ports_keep_def)
  show ?case
    unfolding run_entries.simps
    by (intro keeps_rules p keeps_save_members assms(1) Cons.prems Cons.IH) auto
qed (simp add: keeps_ret)

lemma keeps_run:
  assumes "ports_keep I ports"
    and "\<And>entry ctx. entry \<in> set (remaining_entries (stages_for_mode stages mode) already_done) \<Longrightarrow>
           keeps I (run_entry_with_retries fate entry ctx)"
  shows "keeps I (run with_result fate stages ports job ctx already_done mode)"
proof -
  have p: "keeps I (mark_processing ports m i t)" for m i t
    using assms(1) by (simp add: ports_keep_def)
  show ?thesis
    unfolding run_def Let_def
    by (intro keeps_rules p keeps_run_entries assms(1) assms(2))
qed

text \<open>The states one entry reaches: some children of its members are started, some sleeps made.\<close>

lemma stage_run_state:
  "\<exists>k zs. snd (run_stage_with_retries fate s ctx w) =
     w\<lparr>spawned := spawned w @ replicate k (stage_name s, environ w), slept := zs\<rparr>"
  unfolding run_stage_with_retries_eq Let_def snd_conv by blast

lemma keeps_stage_run [keeps_rules]:
  assumes "\<And>w k zs. I w \<Longrightarrow> I (w\<lparr>spawned := spawned w @ replicate k (stage_name s, environ w), slept := zs\<rparr>)"
  shows "keeps I (run_stage_with_retries fate s ctx)"
proof (rule keepsI)
  fix w assume "I w"
  then show "I (snd (run_stage_with_retries fate s ctx w))"
    using stage_run_state [of fate s ctx w] assms by auto
qed

lemma keeps_entry_run:
  assumes stage: "\<And>s w k zs. s \<in> set (members entry) \<Longrightarrow> I w \<Longrightarrow>
      I (w\<lparr>spawned := spawned w @ replicate k (stage_name s, environ w), slept := zs\<rparr>)"
    and group: "\<And>w k. I w \<Longrightarrow>
      I (w\<lparr>spawned := spawned w @ map (\<lambda>s. (stage_name s, single_threaded (environ w))) (take k (members entry))\<rparr>)"
  shows "keeps I (run_entry_with_retries fate entry ctx)"
proof (cases entry)
  case (Single s)
  then show ?thesis
    using stage by (auto intro!: keeps_bindp keeps_stage_run keeps_ret)
next
  case (ParallelGroup ss)
  have "keeps I (start_group fate ss ctx)"
  proof (rule keepsI)
    fix w assume "I w"
    then show "I (snd (start_group fate ss ctx w))"
      using start_group_state [of fate ss ctx w] group ParallelGroup by auto
  qed
  then show ?thesis
    unfolding ParallelGroup run_entry_with_retries.simps run_group_with_retries_def settle_member_def
    by (intro keeps_rules) (use stage ParallelGroup in auto)
qed

lemma set_members_flatten: "s \<in> set (members entry) \<Longrightarrow> entry \<in> set entries \<Longrightarrow> s \<in> set (flatten entries)"
  by (induction entries rule: flatten.induct) auto

lemma flatten_append [simp]: "flatten (xs @ ys) = flatten xs @ flatten ys"
  by (induction xs rule: flatten.induct) auto

lemma flatten_remaining:
  "flatten (remaining_entries entries already_done) =
     filter (\<lambda>s. stage_name s \<notin> fst ` set already_done) (flatten entries)"
  by (induction entries already_done rule: remaining_entries.induct) (simp_all add: Let_def)

lemma flatten_mode: "flatten (filter_mode entries m) = filter (\<lambda>s. m \<in> modes s) (flatten entries)"
  by (induction entries m rule: filter_mode.induct) (simp_all add: Let_def)

text \<open>The stages a run may start at all.\<close>

definition runnable :: "'c entry list \<Rightarrow> done_map \<Rightarrow> mode option \<Rightarrow> 'c pipeline_stage set" where
  "runnable stages already_done mode =
     {s \<in> set (flatten stages). stage_name s \<notin> fst ` set already_done \<and>
        (case mode of None \<Rightarrow> True | Some m \<Rightarrow> m \<in> modes s)}"

lemma flatten_remaining_runnable:
  "set (flatten (remaining_entries (stages_for_mode stages mode) already_done)) = runnable stages already_done mode"
  by (cases mode) (auto simp: runnable_def stages_for_mode_def flatten_remaining flatten_mode)


section \<open>Results carry the name of their stage\<close>

lemma map_each_InrD:
  "map_each f xs w = (Inr ys, w') \<Longrightarrow> y \<in> set ys \<Longrightarrow> \<exists>x \<in> set xs. \<exists>v v'. f x v = (Inr y, v')"
  by (induction xs arbitrary: w ys) (fastforce simp: bindp_eq_Inr)+

lemma map_each_map:
  "map_each f xs w = (Inr ys, w') \<Longrightarrow> (\<And>x y v v'. x \<in> set xs \<Longrightarrow> f x v = (Inr y, v') \<Longrightarrow> g y = h x) \<Longrightarrow>
     map g ys = map h xs"
  by (induction xs arbitrary: w ys) (fastforce simp: bindp_eq_Inr)+

text \<open>The contract of a stage: the result it returns is filed under its own name.\<close>

definition names_own_result :: "'c pipeline_stage \<Rightarrow> bool" where
  "names_own_result s \<longleftrightarrow> (\<forall>pid env ctx r. stage_run s pid env ctx = Inr r \<longrightarrow> stage r = stage_name s)"

text \<open>What every result that a run of the stage can give has: those it returns, and its skipped one.\<close>

definition gives_only :: "(stage_result \<Rightarrow> bool) \<Rightarrow> 'c pipeline_stage \<Rightarrow> 'c \<Rightarrow> bool" where
  "gives_only Q s ctx \<longleftrightarrow>
     (\<forall>pid env r. stage_run s pid env ctx = Inr r \<longrightarrow> Q r) \<and> (\<not> required s \<longrightarrow> (\<forall>e. Q (skipped_result s e)))"

lemma named_gives: "names_own_result s \<Longrightarrow> gives_only (\<lambda>r. stage r = stage_name s) s ctx"
  by (simp add: gives_only_def names_own_result_def skipped_result_def)

lemma join_subprocess_gives:
  assumes "gives_only Q s ctx" and "join_subprocess fate s ctx p = Inr (Inr r)"
  shows "Q r"
  using assms
  by (auto simp: join_subprocess_def unpickle_def stage_worker_def gives_only_def
      split: child_fate.splits sum.splits exn.splits if_splits)

lemma run_stage_gives:
  assumes "gives_only Q s ctx" and "run_stage_with_retries fate s ctx w = (Inr r, w')"
  shows "Q r"
proof -
  obtain k where "settled s (attempts fate s ctx w k) = Inr r"
    using assms(2) by (auto simp: run_stage_with_retries_eq Let_def)
  then show ?thesis
    using join_subprocess_gives [OF assms(1)] assms(1)
    by (auto simp: settled_def attempts_def attempt_outcome_def gives_only_def
        split: sum.splits exn.splits if_splits)
qed

lemma join_each_InrD:
  "map_each (\<lambda>(s, process). bindp (liftp (join_subprocess fate s ctx process))
        (\<lambda>outcome. ret (stage_name s, outcome))) xs v = (Inr ps, w') \<Longrightarrow> (n, x) \<in> set ps \<Longrightarrow>
     \<exists>s q. (s, q) \<in> set xs \<and> n = stage_name s \<and> join_subprocess fate s ctx q = Inr x"
  by (induction xs arbitrary: v ps) (fastforce simp: bindp_eq_Inr)+

lemma start_group_gives:
  assumes "\<forall>s \<in> set ss. gives_only (Q (stage_name s)) s ctx" and "start_group fate ss ctx w = (Inr outcomes, w')"
    and "outcomes n = Some (Inr r)"
  shows "Q n r"
proof -
  obtain ps hs v where ps: "map_each (\<lambda>(s, process). bindp (liftp (join_subprocess fate s ctx process))
        (\<lambda>outcome. ret (stage_name s, outcome))) (zip ss hs) v = (Inr ps, w')" and o: "outcomes = map_of (rev ps)"
    using assms(2) by (auto simp: start_group_def bindp_eq_Inr)
  have "(n, Inr r) \<in> set ps" using assms(3) o by (auto dest: map_of_SomeD)
  from join_each_InrD [OF ps this] obtain s q where s: "(s, q) \<in> set (zip ss hs)" "n = stage_name s"
      "join_subprocess fate s ctx q = Inr (Inr r)" by blast
  then have "gives_only (Q n) s ctx" using assms(1) by (metis set_zip_leftD)
  then show ?thesis using s(3) by (rule join_subprocess_gives)
qed

lemma settle_member_gives:
  assumes "gives_only Q s ctx" and "\<And>r. outcomes (stage_name s) = Some (Inr r) \<Longrightarrow> Q r"
    and "settle_member fate ctx outcomes s w = (Inr r, w')"
  shows "Q r"
proof (cases "outcomes (stage_name s)")
  case None
  then show ?thesis using assms(3) by (simp add: settle_member_def bindp_def lookup_def)
next
  case (Some outcome)
  then show ?thesis
    using assms run_stage_gives [OF assms(1)]
    by (cases outcome) (auto simp: settle_member_def bindp_def lookup_def gives_only_def
        simp del: is_logical_iff split: if_splits)
qed

lemma run_entry_gives:
  assumes "\<forall>s \<in> set (members entry). gives_only (Q (stage_name s)) s ctx"
    and "run_entry_with_retries fate entry ctx w = (Inr results, w')" and "s \<in> set (members entry)"
  shows "\<exists>r. results (stage_name s) = Some r \<and> Q (stage_name s) r"
proof (cases entry)
  case (Single t)
  then show ?thesis using assms run_stage_gives by (fastforce simp: bindp_eq_Inr)
next
  case (ParallelGroup ss)
  then obtain outcomes v rs where
      g: "start_group fate ss ctx w = (Inr outcomes, v)"
    and m: "map_each (\<lambda>s. bindp (settle_member fate ctx outcomes s) (\<lambda>r. ret (stage_name s, r))) ss v = (Inr rs, w')"
    and res: "results = map_of (rev rs)"
    using assms(2) by (auto simp: run_group_with_retries_def bindp_eq_Inr)
  have gives: "\<forall>s \<in> set ss. gives_only (Q (stage_name s)) s ctx" using assms(1) ParallelGroup by simp
  have own: "fst p = stage_name t \<and> Q (stage_name t) (snd p)"
    if "t \<in> set ss" "bindp (settle_member fate ctx outcomes t) (\<lambda>r. ret (stage_name t, r)) u = (Inr p, u')" for t p u u'
  proof -
    from that(2) obtain r where p: "p = (stage_name t, r)" and "settle_member fate ctx outcomes t u = (Inr r, u')"
      by (auto simp: bindp_eq_Inr)
    then have "Q (stage_name t) r"
      using settle_member_gives [of "Q (stage_name t)" t ctx outcomes] start_group_gives [OF gives g] gives that(1) by blast
    with p show ?thesis by simp
  qed
  have names: "map fst rs = map stage_name ss"
    by (rule map_each_map [OF m]) (rule conjunct1 [OF own])
  have has: "Q (fst p) (snd p)" if "p \<in> set rs" for p
    using map_each_InrD [OF m that] own by metis
  have "stage_name s \<in> fst ` set (rev rs)"
    using assms(3) ParallelGroup names by (metis image_set list.set_map members.simps(1) imageI set_rev)
  then obtain r where "map_of (rev rs) (stage_name s) = Some r" by (metis map_of_eq_None_iff not_None_eq)
  moreover have "(stage_name s, r) \<in> set rs" using calculation by (auto dest: map_of_SomeD)
  ultimately show ?thesis using has res by auto
qed

lemma run_entry_named:
  assumes "\<forall>s \<in> set (members entry). names_own_result s"
    and "run_entry_with_retries fate entry ctx w = (Inr results, w')" and "s \<in> set (members entry)"
  shows "\<exists>r. results (stage_name s) = Some r \<and> stage r = stage_name s"
  by (rule run_entry_gives [where Q = "\<lambda>n r. stage r = n", OF _ assms(2,3)]) (simp add: assms(1) named_gives)

text \<open>With the results of a prefix of the remaining stages saved, the rest remains, in order.\<close>

lemma filter_drop_prefix:
  assumes "distinct (map f xs)"
  shows "filter (\<lambda>x. f x \<notin> f ` set (take k xs)) xs = drop k xs"
proof -
  have "f ` set (take k xs) \<inter> f ` set (drop k xs) = {}"
    using assms by (metis append_take_drop_id distinct_append map_append set_map)
  then have "filter (\<lambda>x. f x \<notin> f ` set (take k xs)) (drop k xs) = drop k xs"
    by (auto intro!: filter_True)
  moreover have "filter (\<lambda>x. f x \<notin> f ` set (take k xs)) (take k xs) = []"
    by (auto simp: filter_empty_conv)
  ultimately show ?thesis by (metis append_Nil append_take_drop_id filter_append)
qed

section \<open>Progress\<close>

text \<open>
  What the runner needs of a \<open>ProgressReporter\<close>, seen through the results saved so far: a
  successful save adds the result under its stage's name, and no other call changes them. A report
  may fail (its exception leaves the runner), and holds while the job's record exists.
\<close>

locale progress_reporter =
  fixes ports :: "('z os_state_scheme) run_ports"
    and saved :: "'z os_state_scheme \<Rightarrow> string \<rightharpoonup> stage_result"
    and alive :: "'z os_state_scheme \<Rightarrow> bool"
  assumes ports_alive: "ports_keep alive ports"
    and os_alive: "alive w \<Longrightarrow> alive (w\<lparr>spawned := cs, slept := zs\<rparr>)"
    and save_adds: "alive w \<Longrightarrow> save_stage_progress ports r n i t w = (Inr (), w') \<Longrightarrow>
                      saved w' = (saved w)(stage r \<mapsto> r)"
    and save_fails: "alive w \<Longrightarrow> save_stage_progress ports r n i t w = (Inl e, w') \<Longrightarrow> saved w' = saved w"
    and mark_saves_nothing: "saved (snd (mark_processing ports m j t w)) = saved w"
    and publish_saves_nothing: "saved (snd (publish_stage ports job m j t w)) = saved w"
    and stop_saves_nothing: "saved (snd (should_stop ports w)) = saved w"
    and os_saves_nothing: "saved (w\<lparr>spawned := cs, slept := zs\<rparr>) = saved w"
begin

text \<open>The states reached after the results \<open>rs\<close> have been saved, in this order.\<close>

definition after :: "('z os_state_scheme) \<Rightarrow> stage_result list \<Rightarrow> 'z os_state_scheme \<Rightarrow> bool" where
  "after w0 rs w \<longleftrightarrow> alive w \<and> saved w = fold (\<lambda>r m. m(stage r \<mapsto> r)) rs (saved w0)"

lemma after_keeps_os: "after w0 rs w \<Longrightarrow> after w0 rs (w\<lparr>spawned := cs, slept := zs\<rparr>)"
  by (simp add: after_def os_alive os_saves_nothing)

lemma after_keeps_spawned: "after w0 rs w \<Longrightarrow> after w0 rs (w\<lparr>spawned := cs\<rparr>)"
  using after_keeps_os [of w0 rs w "slept w" cs] by simp

lemma keeps_after_entry: "keeps (after w0 rs) (run_entry_with_retries fate entry ctx)"
  by (rule keeps_entry_run) (simp_all add: after_keeps_os after_keeps_spawned)

lemma keeps_after_ports:
  "keeps (after w0 rs) (mark_processing ports n j t)"
  "keeps (after w0 rs) (publish_stage ports job n j t)"
  "keeps (after w0 rs) (should_stop ports)"
  using ports_alive
  by (auto simp: keeps_def after_def ports_keep_def mark_saves_nothing publish_saves_nothing stop_saves_nothing)

lemma save_after:
  assumes "after w0 rs w" and "save_stage_progress ports r n i t w = (x, w')"
  shows "after w0 (case x of Inl e \<Rightarrow> rs | Inr _ \<Rightarrow> rs @ [r]) w'"
proof -
  have "keeps alive (save_stage_progress ports r n i t)" using ports_alive by (simp add: ports_keep_def)
  then have "alive w'" using assms by (auto simp: after_def intro: keepsE)
  then show ?thesis
    using assms save_adds save_fails by (auto simp: after_def split: sum.splits)
qed

text \<open>A run of some saves: the results saved are those of a prefix of the given stages.\<close>

definition saves_prefix ::
  "'z os_state_scheme \<Rightarrow> stage_result list \<Rightarrow> 'c pipeline_stage list \<Rightarrow> ('e + 'a) \<times> 'z os_state_scheme \<Rightarrow> nat \<Rightarrow> bool" where
  "saves_prefix w0 rs ss out k \<longleftrightarrow>
     k \<le> length ss \<and>
     (\<exists>qs. map stage qs = map stage_name (take k ss) \<and> after w0 (rs @ qs) (snd out))"

lemma saves_prefix_0: "after w0 rs (snd out) \<Longrightarrow> saves_prefix w0 rs ss out 0"
  by (simp add: saves_prefix_def)

lemma save_members_prefix:
  assumes "\<forall>s \<in> set ss. \<exists>r. results (stage_name s) = Some r \<and> stage r = stage_name s"
    and "after w0 rs w"
  shows "\<exists>k. saves_prefix w0 rs ss (save_members with_result ports positions n flat results ss ctx pos w) k \<and>
    (\<forall>c v. save_members with_result ports positions n flat results ss ctx pos w = (Inr c, v) \<longrightarrow> k = length ss)"
  using assms
proof (induction ss arbitrary: ctx pos rs w)
  case Nil
  then show ?case by (simp add: saves_prefix_def)
next
  case (Cons s ss)
  obtain r where r: "results (stage_name s) = Some r" "stage r = stage_name s" using Cons.prems(1) by auto
  define nxt where "nxt = (if Suc pos < length flat then Some (stage_name (flat ! Suc pos)) else None)"
  define idx :: "('z os_state_scheme, exn, nat option) prog" where "idx = (case nxt of None \<Rightarrow> ret None | Some m \<Rightarrow> bindp (lookup positions m) (\<lambda>i. ret (Some i)))"
  have step: "save_members with_result ports positions n flat results (s # ss) ctx pos w =
      bindp idx (\<lambda>i. thenp (save_stage_progress ports r nxt i n)
        (save_members with_result ports positions n flat results ss (with_result ctx r) (Suc pos))) w"
    by (simp add: r(1) lookup_def bindp_def Let_def nxt_def idx_def)
  have "snd (idx w) = w"
    by (simp add: idx_def lookup_def bindp_def split: option.splits)
  then consider e where "idx w = (Inl e, w)" | i where "idx w = (Inr i, w)"
    by (cases "idx w"; cases "fst (idx w)") auto
  then show ?case
  proof cases
    case 1
    then show ?thesis unfolding step using saves_prefix_0 [of w0 rs "(Inl e, w)"] Cons.prems(2)
      by (intro exI [of _ 0]) (simp add: bindp_Inl)
  next
    case 2
    obtain x w1 where x: "save_stage_progress ports r nxt i n w = (x, w1)" by fastforce
    show ?thesis
    proof (cases x)
      case (Inl e)
      then have "after w0 rs w1" using save_after [OF Cons.prems(2) x] by simp
      then show ?thesis unfolding step using saves_prefix_0 [of w0 rs "(Inl e, w1)"] x Inl
        by (intro exI [of _ 0]) (simp add: bindp_Inr [where m = idx, OF 2] thenp_Inl)
    next
      case (Inr u)
      then have a: "after w0 (rs @ [r]) w1" using save_after [OF Cons.prems(2) x] by simp
      let ?out = "save_members with_result ports positions n flat results ss (with_result ctx r) (Suc pos) w1"
      have out: "save_members with_result ports positions n flat results (s # ss) ctx pos w = ?out"
        unfolding step using x Inr by (simp add: bindp_Inr [where m = idx, OF 2] thenp_Inr)
      obtain k where k: "saves_prefix w0 (rs @ [r]) ss ?out k"
          "\<forall>c v. ?out = (Inr c, v) \<longrightarrow> k = length ss"
        using Cons.IH [OF _ a, of "with_result ctx r" "Suc pos"] Cons.prems(1) by auto
      have "saves_prefix w0 rs (s # ss) ?out (Suc k)"
        using k(1) r(2) by (fastforce simp: saves_prefix_def intro: exI [of _ "r # _"])
      then show ?thesis unfolding out using k(2) by (intro exI [of _ "Suc k"]) simp
    qed
  qed
qed

text \<open>
  Whatever ends a run, the results it has saved are those of a prefix of the remaining stages, in
  the order of the pipeline; on completion, of all of them.
\<close>

lemma saves_prefix_append:
  assumes "map stage qs = map stage_name ss"
  shows "saves_prefix w0 (rs @ qs) ts out k \<Longrightarrow> saves_prefix w0 rs (ss @ ts) out (length ss + k)"
  unfolding saves_prefix_def
proof (elim conjE exE, intro conjI)
  fix ps assume "map stage ps = map stage_name (take k ts)" "after w0 ((rs @ qs) @ ps) (snd out)"
  then show "\<exists>qs. map stage qs = map stage_name (take (length ss + k) (ss @ ts)) \<and> after w0 (rs @ qs) (snd out)"
    using assms by (intro exI [of _ "qs @ ps"]) simp
qed simp

lemma saves_prefix_extend: "saves_prefix w0 rs ss out k \<Longrightarrow> saves_prefix w0 rs (ss @ ts) out k"
  by (auto simp: saves_prefix_def)

lemma flatten_members: "flatten (entry # entries) = members entry @ flatten entries"
  by (cases entry) simp_all

definition progresses ::
  "'z os_state_scheme \<Rightarrow> stage_result list \<Rightarrow> 'c pipeline_stage list \<Rightarrow> ('z os_state_scheme, exn, run_outcome) prog \<Rightarrow> bool" where
  "progresses w0 rs ss m \<longleftrightarrow>
     (\<forall>w. after w0 rs w \<longrightarrow>
        (\<exists>k. saves_prefix w0 rs ss (m w) k \<and> (\<forall>v. m w = (Inr COMPLETED, v) \<longrightarrow> k = length ss)))"

lemma progresses_stop: "progresses w0 rs ss (ret INTERRUPTED)"
  using saves_prefix_0 by (fastforce simp: progresses_def)

lemma progresses_done: "progresses w0 rs [] (ret COMPLETED)"
  using saves_prefix_0 by (fastforce simp: progresses_def)

lemma progresses_bindp:
  assumes "keeps (after w0 rs) m" and "\<And>a w w'. m w = (Inr a, w') \<Longrightarrow> progresses w0 rs ss (f a)"
  shows "progresses w0 rs ss (bindp m f)"
  unfolding progresses_def
proof (intro allI impI)
  fix w assume w: "after w0 rs w"
  obtain x w' where m: "m w = (x, w')" by fastforce
  then have a: "after w0 rs w'" using keepsE [OF assms(1) w] by blast
  show "\<exists>k. saves_prefix w0 rs ss (bindp m f w) k \<and> (\<forall>v. bindp m f w = (Inr COMPLETED, v) \<longrightarrow> k = length ss)"
  proof (cases x)
    case (Inl e)
    then show ?thesis using m a saves_prefix_0 by (fastforce simp: bindp_Inl)
  next
    case (Inr b)
    then show ?thesis using m a assms(2) by (auto simp: bindp_Inr progresses_def)
  qed
qed

lemma progresses_members:
  assumes "\<forall>s \<in> set ss. \<exists>r. results (stage_name s) = Some r \<and> stage r = stage_name s"
    and "\<And>qs c p. map stage qs = map stage_name ss \<Longrightarrow> progresses w0 (rs @ qs) ts (f c p)"
  shows "progresses w0 rs (ss @ ts)
    (bindp (save_members with_result ports positions n flat results ss ctx pos) (\<lambda>(c, p). f c p))"
  unfolding progresses_def
proof (intro allI impI)
  fix w assume w: "after w0 rs w"
  let ?save = "save_members with_result ports positions n flat results ss ctx pos"
  obtain x w' where m: "?save w = (x, w')" by fastforce
  obtain k where k: "saves_prefix w0 rs ss (?save w) k" "\<forall>c v. ?save w = (Inr c, v) \<longrightarrow> k = length ss"
    using save_members_prefix [OF assms(1) w] by blast
  show "\<exists>k. saves_prefix w0 rs (ss @ ts) (bindp ?save (\<lambda>(c, p). f c p) w) k \<and>
      (\<forall>v. bindp ?save (\<lambda>(c, p). f c p) w = (Inr COMPLETED, v) \<longrightarrow> k = length (ss @ ts))"
  proof (cases x)
    case (Inl e)
    then show ?thesis using saves_prefix_extend [OF k(1), of ts] m
      by (intro exI [of _ k]) (simp add: bindp_Inl saves_prefix_def)
  next
    case (Inr cp)
    then obtain qs where qs: "map stage qs = map stage_name ss" "after w0 (rs @ qs) w'"
      using k m by (auto simp: saves_prefix_def)
    then obtain k' where "saves_prefix w0 (rs @ qs) ts (f (fst cp) (snd cp) w') k'"
        "\<forall>v. f (fst cp) (snd cp) w' = (Inr COMPLETED, v) \<longrightarrow> k' = length ts"
      using assms(2) [OF qs(1)] unfolding progresses_def by blast
    moreover have "bindp ?save (\<lambda>(c, p). f c p) w = f (fst cp) (snd cp) w'"
      using m Inr by (simp add: bindp_Inr case_prod_beta)
    ultimately show ?thesis using saves_prefix_append [OF qs(1)] by (intro exI [of _ "length ss + k'"]) simp
  qed
qed

lemma run_entries_progress:
  assumes "\<forall>s \<in> set (flatten entries). names_own_result s"
  shows "progresses w0 rs (flatten entries)
           (run_entries with_result fate ports job positions n flat entries ctx pos)"
  using assms
proof (induction entries arbitrary: ctx pos rs)
  case Nil
  show ?case unfolding run_entries.simps flatten.simps by (rule progresses_done)
next
  case (Cons entry entries)
  have pub: "keeps (after w0 rs) (for_each (\<lambda>s. bindp (lookup positions (stage_name s)) (\<lambda>i.
      publish_stage ports job (stage_name s) i n)) (members entry))"
    by (intro keeps_rules keeps_after_ports)
  have rest: "progresses w0 rs (flatten (entry # entries))
      (bindp (run_entry_with_retries fate entry ctx) (\<lambda>results.
       bindp (save_members with_result ports positions n flat results (members entry) ctx pos) (\<lambda>(ctx', pos').
         run_entries with_result fate ports job positions n flat entries ctx' pos')))"
  proof (rule progresses_bindp [OF keeps_after_entry])
    fix results w w' assume "run_entry_with_retries fate entry ctx w = (Inr results, w')"
    then have "\<forall>s \<in> set (members entry). \<exists>r. results (stage_name s) = Some r \<and> stage r = stage_name s"
      using run_entry_named Cons.prems by (fastforce simp: flatten_members)
    then show "progresses w0 rs (flatten (entry # entries))
        (bindp (save_members with_result ports positions n flat results (members entry) ctx pos) (\<lambda>(ctx', pos').
           run_entries with_result fate ports job positions n flat entries ctx' pos'))"
      unfolding flatten_members using Cons by (intro progresses_members) (auto simp: flatten_members)
  qed
  show ?case unfolding run_entries.simps thenp_def
    by (rule progresses_bindp [OF keeps_after_ports(3)])
      (simp add: progresses_stop progresses_bindp [OF pub] rest del: flatten.simps)
qed

lemma run_progress:
  assumes "\<forall>s \<in> runnable stages already_done mode. names_own_result s" and "alive w"
  defines "todo \<equiv> flatten (remaining_entries (stages_for_mode stages mode) already_done)"
  shows "\<exists>k. saves_prefix w [] todo (run with_result fate stages ports job ctx already_done mode w) k \<and>
    (\<forall>v. run with_result fate stages ports job ctx already_done mode w = (Inr COMPLETED, v) \<longrightarrow> k = length todo)"
proof -
  have mark: "keeps (after w []) (case todo of [] \<Rightarrow> ret () | first # _ \<Rightarrow>
      bindp (lookup ps (stage_name first)) (\<lambda>i. mark_processing ports (stage_name first) i n))" for ps n
    by (intro keeps_rules keeps_after_ports)
  have "progresses w [] todo (run with_result fate stages ports job ctx already_done mode)"
    unfolding run_def Let_def thenp_def todo_def [symmetric]
    by (rule progresses_bindp [OF mark])
      (use assms(1) in \<open>auto simp: todo_def flatten_remaining_runnable intro!: run_entries_progress\<close>)
  moreover have "after w [] w" using assms(2) by (simp add: after_def)
  ultimately show ?thesis unfolding progresses_def by blast
qed

end

text \<open>Ports that do nothing, and a stage that returns at once: for runs of concrete inputs.\<close>

definition quiet_ports :: "'w run_ports" where
  "quiet_ports =
     \<lparr>publish_stage = \<lambda>_ _ _ _. ret (), mark_processing = \<lambda>_ _ _. ret (),
      save_stage_progress = \<lambda>_ _ _ _. ret (), should_stop = ret False\<rparr>"

lemma ports_keep_quiet: "ports_keep I quiet_ports"
  by (simp add: ports_keep_def quiet_ports_def keeps_ret del: ret_run)

definition demo_stage :: "string \<Rightarrow> 'c pipeline_stage" where
  "demo_stage n =
     \<lparr>stage_name = n, timeout_seconds = 30, required = True, modes = ALL_MODES,
      stage_run = \<lambda>_ _ _. Inr \<lparr>stage = n, status = DONE, duration_ms = 0, data = [],
                             error_code = None, error_message = None\<rparr>\<rparr>"

definition demo_os :: os_state where
  "demo_os = \<lparr>environ = [''MKL_NUM_THREADS'' \<mapsto> ''8''], spawned = [], slept = []\<rparr>"

section \<open>Properties\<close>

text \<open>
  C9: A stage run in isolation is attempted at most three times: only a transient failure is
  retried, after 2 and then 4 seconds, and the last attempt decides. A result is returned as it is;
  an optional stage turns a logical failure, or a transient one that is still there at the last
  attempt, into a skipped result; every other failure is raised.
\<close>

theorem stage_retry_outcome:
  "\<exists>k \<le> MAX_STAGE_RETRIES.
     run_stage_with_retries fate s ctx w =
       (settled s (attempts fate s ctx w k),
        w\<lparr>spawned := spawned w @ replicate (k + 1) (stage_name s, environ w), slept := slept w @ take k [2, 4]\<rparr>) \<and>
     {i. i < k} \<subseteq> {i. transient_failure (attempts fate s ctx w i)} \<and>
     (k = MAX_STAGE_RETRIES \<or> \<not> transient_failure (attempts fate s ctx w k))"
proof -
  let ?again = "\<lambda>i. transient_failure (attempts fate s ctx w i)"
  let ?k = "deciding ?again MAX_STAGE_RETRIES"
  have le: "?k \<le> MAX_STAGE_RETRIES" by (rule deciding_le)
  then have "backoffs ?k = take ?k [2, 4]"
    by (auto simp: MAX_STAGE_RETRIES_def backoffs_def RETRY_BACKOFF_BASE_SECONDS_def le_Suc_eq numeral_2_eq_2)
  then show ?thesis
    using le deciding_transient [of _ ?again] deciding_last [of ?again MAX_STAGE_RETRIES]
    by (intro exI [of _ ?k] conjI le) (auto simp: run_stage_with_retries_eq Let_def order.order_iff_strict)
qed

theorem stage_retry_outcome_witness:
  "length (spawned (snd (run_stage_with_retries (\<lambda>_. Hangs) (demo_stage ''align'') () demo_os))) \<le> 3"
proof -
  let ?s = "demo_stage ''align'' :: unit pipeline_stage"
  obtain k where "k \<le> 2" and "run_stage_with_retries (\<lambda>_. Hangs) ?s () demo_os =
      (settled ?s (attempts (\<lambda>_. Hangs) ?s () demo_os k),
       demo_os\<lparr>spawned := spawned demo_os @ replicate (k + 1) (stage_name ?s, environ demo_os),
         slept := slept demo_os @ take k [2, 4]\<rparr>)"
    using stage_retry_outcome [of "\<lambda>_. Hangs" ?s "()" demo_os]
    unfolding MAX_STAGE_RETRIES_def by blast
  then show ?thesis by (simp add: demo_os_def)
qed

text \<open>
  Starting a parallel group gives every member it starts an environment in which all four BLAS
  thread variables are 1, and leaves the worker's own environment exactly as it was, whichever
  member the operating system refuses to start.
\<close>

theorem group_environment:
  "\<exists>k. snd (start_group fate ss ctx w) =
     w\<lparr>spawned := spawned w @ map (\<lambda>s. (stage_name s, single_threaded (environ w))) (take k ss)\<rparr>"
  by (rule start_group_state)

text \<open>
  C26: A run leaves the environment of the worker as it found it on every path (completion,
  interruption, any failure), when the ports it calls do.
\<close>

theorem run_keeps_environment:
  assumes "ports_keep (\<lambda>w. environ w = environ w0) ports"
  shows "environ (snd (run with_result fate stages ports job ctx already_done mode w0)) = environ w0"
proof -
  have "keeps (\<lambda>w. environ w = environ w0) (run with_result fate stages ports job ctx already_done mode)"
    by (intro keeps_run assms keeps_entry_run) simp_all
  then show ?thesis by (rule keepsD) simp
qed

theorem run_keeps_environment_witness:
  "environ (snd (run (\<lambda>c r. c) (\<lambda>_. Hangs) [ParallelGroup [demo_stage ''pitch'', demo_stage ''rhythm'']]
     quiet_ports ''job'' () [] None demo_os)) = environ demo_os"
  by (rule run_keeps_environment [OF ports_keep_quiet])

text \<open>
  A run starts children of remaining stages only: never a stage whose result is already saved,
  and never one whose modes leave out the mode of the job.
\<close>

theorem run_starts_runnable_only:
  assumes "ports_keep (\<lambda>w. \<exists>cs. spawned w = spawned w0 @ cs \<and> fst ` set cs \<subseteq> stage_name ` runnable stages already_done mode) ports"
  shows "\<exists>cs. spawned (snd (run with_result fate stages ports job ctx already_done mode w0)) = spawned w0 @ cs \<and>
    fst ` set cs \<subseteq> stage_name ` runnable stages already_done mode"
proof -
  let ?I = "\<lambda>w. \<exists>cs. spawned w = spawned w0 @ cs \<and> fst ` set cs \<subseteq> stage_name ` runnable stages already_done mode"
  have "keeps ?I (run with_result fate stages ports job ctx already_done mode)"
  proof (rule keeps_run [OF assms], rule keeps_entry_run)
    fix entry ctx
    assume "entry \<in> set (remaining_entries (stages_for_mode stages mode) already_done)"
    then have m: "stage_name ` set (members entry) \<subseteq> stage_name ` runnable stages already_done mode"
      using set_members_flatten flatten_remaining_runnable [of stages mode already_done] by blast
    have one: "?I (w\<lparr>spawned := spawned w @ ds, slept := zs\<rparr>)" if "?I w" "fst ` set ds \<subseteq> stage_name ` set (members entry)" for w ds zs
    proof -
      from that(1) obtain cs where "spawned w = spawned w0 @ cs" "fst ` set cs \<subseteq> stage_name ` runnable stages already_done mode"
        by blast
      moreover have "fst ` set ds \<subseteq> stage_name ` runnable stages already_done mode"
        using that(2) m by (rule subset_trans)
      ultimately show ?thesis by (intro exI [of _ "cs @ ds"]) (simp add: image_Un)
    qed
    show "?I (w\<lparr>spawned := spawned w @ replicate k (stage_name s, environ w), slept := zs\<rparr>)"
      if "s \<in> set (members entry)" "?I w" for s w k zs
      by (rule one) (use that in auto)
    show "?I (w\<lparr>spawned := spawned w @ map (\<lambda>s. (stage_name s, single_threaded (environ w))) (take k (members entry))\<rparr>)"
      if "?I w" for w k
    proof -
      let ?ds = "map (\<lambda>s. (stage_name s, single_threaded (environ w))) (take k (members entry))"
      have "fst ` set ?ds \<subseteq> stage_name ` set (members entry)" by (auto dest: in_set_takeD)
      from one [OF that this, of "slept w"] show ?thesis by simp
    qed
  qed
  then show ?thesis by (rule keepsD) auto
qed

theorem run_starts_runnable_only_witness:
  "\<exists>cs. spawned (snd (run (\<lambda>c r. c) (\<lambda>_. Finishes) [Single (demo_stage ''pitch''), Single (demo_stage ''rhythm'')]
      quiet_ports ''job'' () [(''pitch'', skipped_result (demo_stage ''pitch'' :: unit pipeline_stage) (stage_timeout_init [] 0))]
      None demo_os)) = [] @ cs \<and> fst ` set cs \<subseteq> {''rhythm''}"
  using run_starts_runnable_only [where ?w0.0 = demo_os and stages = "[Single (demo_stage ''pitch''), Single (demo_stage ''rhythm'')]"
      and already_done = "[(''pitch'', skipped_result (demo_stage ''pitch'' :: unit pipeline_stage) (stage_timeout_init [] 0))]"
      and mode = None and with_result = "\<lambda>c r. c" and fate = "\<lambda>_. Finishes" and job = "''job''" and ctx = "()",
      OF ports_keep_quiet]
  by (auto simp: runnable_def demo_stage_def demo_os_def cong: conj_cong)

text \<open>
  A job that was stopped after saving the results of a prefix of its remaining stages resumes
  exactly where it stopped: the stages still to run are the others, in the same order.
\<close>

theorem resume_continues:
  assumes "distinct (map stage_name (flatten (stages_for_mode stages mode)))"
    and "map stage qs = map stage_name (take k (flatten (remaining_entries (stages_for_mode stages mode) already_done)))"
  shows "flatten (remaining_entries (stages_for_mode stages mode) (already_done @ map (\<lambda>r. (stage r, r)) qs)) =
    drop k (flatten (remaining_entries (stages_for_mode stages mode) already_done))"
proof -
  let ?todo = "flatten (remaining_entries (stages_for_mode stages mode) already_done)"
  have "stage ` set qs = stage_name ` set (take k ?todo)" using assms(2) by (metis set_map)
  moreover have "distinct (map stage_name ?todo)"
    using assms(1) by (simp add: flatten_remaining distinct_map_filter)
  moreover have "flatten (remaining_entries (stages_for_mode stages mode) (already_done @ map (\<lambda>r. (stage r, r)) qs)) =
      filter (\<lambda>s. stage_name s \<notin> stage ` set qs) ?todo"
    by (auto simp: flatten_remaining image_Un image_image intro!: filter_cong)
  ultimately show ?thesis by (simp add: filter_drop_prefix)
qed

theorem resume_continues_witness:
  "map stage_name (flatten (remaining_entries [Single (demo_stage ''a''), ParallelGroup [demo_stage ''b'', demo_stage ''c'']]
     [(''a'', skipped_result (demo_stage ''a'' :: unit pipeline_stage) (stage_timeout_init [] 0))])) = [''b'', ''c'']"
  using resume_continues [of "[Single (demo_stage ''a''), ParallelGroup [demo_stage ''b'', demo_stage ''c'']]" None
      "[skipped_result (demo_stage ''a'' :: unit pipeline_stage) (stage_timeout_init [] 0)]" 1 "[]"]
  by (simp add: stages_for_mode_def demo_stage_def skipped_result_def)

end
