(* ===== verification/Store.thy ===== *)
theory Store
  imports Curves Runner Scoring
begin

text \<open>
  The worker's persistent state and what writes it: the two repositories of
  \<open>repositories/postgres.py\<close> over the \<open>songs\<close>, \<open>analyses\<close> and
  \<open>progress_snapshots\<close> tables, and the publisher of \<open>queue/events.py\<close>. Every
  method is one transaction: it is applied whole, or (when the parameter \<open>db_fault\<close> says the
  n-th transaction fails) not at all and a database error is raised. Timestamps are not modelled.
  The state extends the runner's, so a pipeline run and its progress reports share it.
\<close>

section \<open>Rows and the state\<close>

record scoring_columns =
  col_overall_score :: real
  col_feedback_text :: string
  col_scoring_version :: string
  col_weights_profile :: string
  col_effective_mode :: string
  col_confidence :: string
  col_aspect_confidence :: pydict
  col_warnings :: "pyval list"
  col_unavailable_aspects :: pydict
  col_key_shift_semitones :: "real option"
  col_accompaniment_level :: real
  col_voiced_ratio :: real
  col_alignment_cost :: real

record analysis_row =
  row_id :: string
  row_user_id :: string
  row_song_id :: string
  row_status :: string
  row_stages_json :: "(string \<times> stage_result) list option"
  row_mode :: mode
  row_allow_transposition :: bool
  row_locale :: locale_tag
  row_current_stage :: "string option"
  row_current_stage_index :: "nat option"
  row_total_stages :: "nat option"
  row_queue_position :: "nat option"
  row_queue_seq :: nat
  row_error_code :: "string option"
  row_aspect_scores :: "(string \<times> real) list"
  row_pitch_curve_json :: "piano_roll_data option"
  row_user_pitch :: "(f4_cell list \<times> curve_meta) option"
  row_scoring :: "scoring_columns option"
  row_model_versions :: "(string \<times> string) list"

record song_row =
  song_row_id :: string
  song_content_hash :: string
  song_duration_sec :: int
  song_prep_status :: string
  song_prep_stage :: "string option"
  song_prep_error_code :: "string option"
  song_vocal_stem_path :: "string option"
  song_reference_pitch :: "(f4_cell list \<times> curve_meta) option"
  song_lyrics_json :: "lyrics option"
  song_lyrics_available :: bool
  song_prep_stages_json :: "(string \<times> stage_result) list option"

record snapshot_row =
  snap_user_id :: string
  snap_analysis_id :: string
  snap_overall_score :: real
  snap_mode :: string
  snap_confidence :: string

record worker_state = os_state +
  analyses :: "analysis_row list"
  songs :: "song_row list"
  snapshots :: "snapshot_row list"
  transactions :: nat
  redis_calls :: nat
  published :: "pydict list"
  run_stream :: "string list"
  removed :: "string list"

type_synonym 'z worker_prog_state = "'z worker_state_scheme"

text \<open>What may fail, as functions of the number of the call.\<close>

record faults =
  db_fault :: "nat \<Rightarrow> bool"
  redis_fault :: "nat \<Rightarrow> bool"

section \<open>Transactions\<close>

text \<open>\<open>with self._conn.transaction()\<close>: the update commits on a clean exit only.\<close>

definition transact ::
  "faults \<Rightarrow> ('z worker_state_scheme \<Rightarrow> 'a \<times> 'z worker_state_scheme) \<Rightarrow> ('z worker_state_scheme, exn, 'a) prog" where
  "transact fl update w =
     (let w' = w\<lparr>transactions := transactions w + 1\<rparr>
      in if db_fault fl (transactions w) then (Inl (Crash ''OperationalError'' []), w')
         else (let (a, w'') = update w' in (Inr a, w'')))"

definition update_analysis :: "faults \<Rightarrow> string \<Rightarrow> (analysis_row \<Rightarrow> analysis_row) \<Rightarrow> ('z worker_state_scheme, exn, unit) prog" where
  "update_analysis fl i f =
     transact fl (\<lambda>w. ((), w\<lparr>analyses := map (\<lambda>r. if row_id r = i then f r else r) (analyses w)\<rparr>))"

definition update_song :: "faults \<Rightarrow> string \<Rightarrow> (song_row \<Rightarrow> song_row) \<Rightarrow> ('z worker_state_scheme, exn, unit) prog" where
  "update_song fl i f =
     transact fl (\<lambda>w. ((), w\<lparr>songs := map (\<lambda>r. if song_row_id r = i then f r else r) (songs w)\<rparr>))"

text \<open>\<open>COALESCE(j, '{}') || {k: v}\<close>: the key is replaced or added.\<close>

fun set_key :: "'a \<Rightarrow> 'b \<Rightarrow> ('a \<times> 'b) list \<Rightarrow> ('a \<times> 'b) list" where
  "set_key k v [] = [(k, v)]"
| "set_key k v ((k', v') # kvs) = (if k' = k then (k, v) # kvs else (k', v') # set_key k v kvs)"

definition merge_stage :: "(string \<times> stage_result) list option \<Rightarrow> stage_result \<Rightarrow> (string \<times> stage_result) list option" where
  "merge_stage j r = Some (set_key (stage r) r (case j of None \<Rightarrow> [] | Some kvs \<Rightarrow> kvs))"

definition stages_of :: "(string \<times> stage_result) list option \<Rightarrow> (string \<times> stage_result) list" where
  "stages_of j = (case j of None \<Rightarrow> [] | Some kvs \<Rightarrow> kvs)"

section \<open>The analysis repository\<close>

definition row_to_analysis_record :: "analysis_row \<Rightarrow> analysis_record" where
  "row_to_analysis_record r =
     \<lparr>ar_id = row_id r, ar_user_id = row_user_id r, ar_song_id = row_song_id r, ar_status = row_status r,
      ar_stages = stages_of (row_stages_json r), ar_mode = row_mode r,
      ar_allow_transposition = row_allow_transposition r, ar_locale = row_locale r\<rparr>"

definition analysis_get_by_id :: "faults \<Rightarrow> string \<Rightarrow> ('z worker_state_scheme, exn, analysis_record) prog" where
  "analysis_get_by_id fl i =
     bindp (transact fl (\<lambda>w. (find (\<lambda>r. row_id r = i) (analyses w), w))) (\<lambda>row.
       case row of
         None \<Rightarrow> throw (Crash ''LookupError'' (''analysis '' @ i @ '' not found''))
       | Some r \<Rightarrow> ret (row_to_analysis_record r))"

definition analysis_mark_processing ::
  "faults \<Rightarrow> string \<Rightarrow> string \<Rightarrow> nat \<Rightarrow> nat \<Rightarrow> ('z worker_state_scheme, exn, unit) prog" where
  "analysis_mark_processing fl i first_stage stage_index total_stages =
     update_analysis fl i (\<lambda>r. r\<lparr>row_status := ''processing'', row_current_stage := Some first_stage,
       row_current_stage_index := Some stage_index, row_total_stages := Some total_stages,
       row_queue_position := None\<rparr>)"

definition analysis_save_stage_progress ::
  "faults \<Rightarrow> string \<Rightarrow> stage_result \<Rightarrow> string option \<Rightarrow> nat option \<Rightarrow> nat \<Rightarrow> ('z worker_state_scheme, exn, unit) prog" where
  "analysis_save_stage_progress fl i result next_stage next_stage_index total_stages =
     update_analysis fl i (\<lambda>r. r\<lparr>row_stages_json := merge_stage (row_stages_json r) result,
       row_current_stage := next_stage, row_current_stage_index := next_stage_index,
       row_total_stages := Some total_stages\<rparr>)"

definition save_aspect_score :: "faults \<Rightarrow> string \<Rightarrow> string \<Rightarrow> real \<Rightarrow> ('z worker_state_scheme, exn, unit) prog" where
  "save_aspect_score fl i aspect score =
     (if aspect \<notin> set ASPECTS then throw (Crash ''ValueError'' (''unknown aspect '' @ aspect))
      else update_analysis fl i (\<lambda>r. r\<lparr>row_aspect_scores := set_key aspect score (row_aspect_scores r)\<rparr>))"

definition save_piano_roll :: "faults \<Rightarrow> string \<Rightarrow> piano_roll_data \<Rightarrow> ('z worker_state_scheme, exn, unit) prog" where
  "save_piano_roll fl i d = update_analysis fl i (\<lambda>r. r\<lparr>row_pitch_curve_json := Some d\<rparr>)"

definition save_user_pitch_curve ::
  "faults \<Rightarrow> (real \<Rightarrow> real) \<Rightarrow> string \<Rightarrow> pitch_curve \<Rightarrow> ('z worker_state_scheme, exn, unit) prog" where
  "save_user_pitch_curve fl f4 i curve =
     update_analysis fl i (\<lambda>r. r\<lparr>row_user_pitch := Some (to_bytes f4 curve)\<rparr>)"

text \<open>\<open>stages_json #- '{pitch,data,...}'\<close> for the three dense fields.\<close>

definition prune_pitch :: "string \<times> stage_result \<Rightarrow> string \<times> stage_result" where
  "prune_pitch = (\<lambda>(k, r). if k = ''pitch''
     then (k, r\<lparr>data := filter (\<lambda>(f, v). f \<notin> {''user_pitch_curve'', ''reference_pitch_curve'', ''piano_roll''}) (data r)\<rparr>)
     else (k, r))"

definition prune_dense_stage_fields :: "faults \<Rightarrow> string \<Rightarrow> ('z worker_state_scheme, exn, unit) prog" where
  "prune_dense_stage_fields fl i =
     update_analysis fl i (\<lambda>r. r\<lparr>row_stages_json := map_option (map prune_pitch) (row_stages_json r)\<rparr>)"

definition save_scoring_result :: "faults \<Rightarrow> string \<Rightarrow> scoring_columns \<Rightarrow> ('z worker_state_scheme, exn, unit) prog" where
  "save_scoring_result fl i cols = update_analysis fl i (\<lambda>r. r\<lparr>row_scoring := Some cols\<rparr>)"

text \<open>\<open>INSERT ... ON CONFLICT (analysis_id) DO UPDATE\<close>: the user id of an old row stays.\<close>

fun upsert_snapshot :: "snapshot_row \<Rightarrow> snapshot_row list \<Rightarrow> snapshot_row list" where
  "upsert_snapshot s [] = [s]"
| "upsert_snapshot s (q # qs) =
     (if snap_analysis_id q = snap_analysis_id s
      then q\<lparr>snap_overall_score := snap_overall_score s, snap_mode := snap_mode s,
             snap_confidence := snap_confidence s\<rparr> # qs
      else q # upsert_snapshot s qs)"

definition record_progress_snapshot ::
  "faults \<Rightarrow> string \<Rightarrow> string \<Rightarrow> real \<Rightarrow> string \<Rightarrow> string \<Rightarrow> ('z worker_state_scheme, exn, unit) prog" where
  "record_progress_snapshot fl i user overall mode_string confidence =
     transact fl (\<lambda>w. ((), w\<lparr>snapshots := upsert_snapshot
       \<lparr>snap_user_id = user, snap_analysis_id = i, snap_overall_score = overall,
        snap_mode = mode_string, snap_confidence = confidence\<rparr> (snapshots w)\<rparr>))"

definition analysis_mark_done :: "faults \<Rightarrow> string \<Rightarrow> (string \<times> string) list \<Rightarrow> ('z worker_state_scheme, exn, unit) prog" where
  "analysis_mark_done fl i versions =
     update_analysis fl i (\<lambda>r. r\<lparr>row_status := ''done'', row_current_stage := None, row_current_stage_index := None,
       row_total_stages := None, row_queue_position := None, row_model_versions := versions\<rparr>)"

definition analysis_mark_failed :: "faults \<Rightarrow> string \<Rightarrow> string \<Rightarrow> ('z worker_state_scheme, exn, unit) prog" where
  "analysis_mark_failed fl i code =
     update_analysis fl i (\<lambda>r. r\<lparr>row_status := ''failed'', row_error_code := Some code, row_current_stage := None,
       row_current_stage_index := None, row_total_stages := None, row_queue_position := None\<rparr>)"

section \<open>Waiting analyses\<close>

definition waits_for :: "string \<Rightarrow> analysis_row \<Rightarrow> bool" where
  "waits_for song r \<longleftrightarrow> row_song_id r = song \<and> row_status r = ''waiting_for_reference''"

text \<open>\<open>ROW_NUMBER() OVER (ORDER BY queue_seq)\<close> over the queued rows.\<close>

definition queue_rank :: "analysis_row list \<Rightarrow> analysis_row \<Rightarrow> nat" where
  "queue_rank rows r = length (filter (\<lambda>q. row_status q = ''queued'' \<and> row_queue_seq q < row_queue_seq r) rows) + 1"

definition recalculate_positions :: "analysis_row list \<Rightarrow> analysis_row list \<times> (string \<times> nat) list" where
  "recalculate_positions rows =
     (map (\<lambda>r. if row_status r = ''queued'' then r\<lparr>row_queue_position := Some (queue_rank rows r)\<rparr> else r) rows,
      map (\<lambda>r. (row_id r, queue_rank rows r))
        (filter (\<lambda>r. row_status r = ''queued'' \<and> row_queue_position r \<noteq> Some (queue_rank rows r)) rows))"

definition wake_waiting_for_reference ::
  "faults \<Rightarrow> string \<Rightarrow> ('z worker_state_scheme, exn, string list \<times> (string \<times> nat) list) prog" where
  "wake_waiting_for_reference fl song =
     transact fl (\<lambda>w.
       let newly_queued = map row_id (filter (waits_for song) (analyses w));
           rows = map (\<lambda>r. if waits_for song r then r\<lparr>row_status := ''queued''\<rparr> else r) (analyses w);
           (rows', changed_positions) = recalculate_positions rows
       in ((newly_queued, changed_positions), w\<lparr>analyses := rows'\<rparr>))"

definition fail_waiting_for_reference ::
  "faults \<Rightarrow> string \<Rightarrow> string \<Rightarrow> ('z worker_state_scheme, exn, string list) prog" where
  "fail_waiting_for_reference fl song code =
     transact fl (\<lambda>w.
       (map row_id (filter (waits_for song) (analyses w)),
        w\<lparr>analyses := map (\<lambda>r. if waits_for song r then r\<lparr>row_status := ''failed'', row_error_code := Some code\<rparr> else r)
                        (analyses w)\<rparr>))"

text \<open>\<open>ORDER BY queue_seq LIMIT 1\<close> over the waiting rows.\<close>

fun oldest :: "analysis_row list \<Rightarrow> analysis_row option" where
  "oldest [] = None"
| "oldest (r # rs) =
     (case oldest rs of
        None \<Rightarrow> Some r
      | Some q \<Rightarrow> if row_queue_seq r \<le> row_queue_seq q then Some r else Some q)"

definition oldest_waiting_song_id :: "faults \<Rightarrow> ('z worker_state_scheme, exn, string option) prog" where
  "oldest_waiting_song_id fl =
     transact fl (\<lambda>w. (map_option row_song_id
       (oldest (filter (\<lambda>r. row_status r = ''waiting_for_reference'') (analyses w))), w))"

section \<open>The song repository\<close>

definition row_to_song_record :: "song_row \<Rightarrow> song_record" where
  "row_to_song_record r =
     \<lparr>sr_id = song_row_id r, sr_content_hash = song_content_hash r, sr_duration_sec = song_duration_sec r,
      sr_prep_status = song_prep_status r, sr_vocal_stem_path = song_vocal_stem_path r,
      sr_reference_pitch = map_option (case_prod from_bytes) (song_reference_pitch r),
      sr_lyrics = song_lyrics_json r, sr_lyrics_available = song_lyrics_available r,
      sr_prep_stages = stages_of (song_prep_stages_json r)\<rparr>"

definition song_get_by_id :: "faults \<Rightarrow> string \<Rightarrow> ('z worker_state_scheme, exn, song_record) prog" where
  "song_get_by_id fl i =
     bindp (transact fl (\<lambda>w. (find (\<lambda>r. song_row_id r = i) (songs w), w))) (\<lambda>row.
       case row of
         None \<Rightarrow> throw (Crash ''LookupError'' (''song '' @ i @ '' not found''))
       | Some r \<Rightarrow> ret (row_to_song_record r))"

definition mark_prep_processing ::
  "faults \<Rightarrow> string \<Rightarrow> string \<Rightarrow> nat \<Rightarrow> nat \<Rightarrow> ('z worker_state_scheme, exn, unit) prog" where
  "mark_prep_processing fl i first_stage stage_index total_stages =
     update_song fl i (\<lambda>r. r\<lparr>song_prep_status := ''processing'', song_prep_stage := Some first_stage\<rparr>)"

definition save_prep_stage_progress ::
  "faults \<Rightarrow> string \<Rightarrow> stage_result \<Rightarrow> string option \<Rightarrow> nat option \<Rightarrow> nat \<Rightarrow> ('z worker_state_scheme, exn, unit) prog" where
  "save_prep_stage_progress fl i result next_stage next_stage_index total_stages =
     update_song fl i (\<lambda>r. r\<lparr>song_prep_stages_json := merge_stage (song_prep_stages_json r) result,
       song_prep_stage := next_stage\<rparr>)"

definition mark_prep_ready ::
  "faults \<Rightarrow> (real \<Rightarrow> real) \<Rightarrow> string \<Rightarrow> string \<Rightarrow> pitch_curve \<Rightarrow> lyrics option \<Rightarrow> bool \<Rightarrow> ('z worker_state_scheme, exn, unit) prog" where
  "mark_prep_ready fl f4 i stem_path curve lyr lyrics_available =
     update_song fl i (\<lambda>r. r\<lparr>song_prep_status := ''ready'', song_prep_stage := None, song_prep_error_code := None,
       song_vocal_stem_path := Some stem_path, song_reference_pitch := Some (to_bytes f4 curve),
       song_lyrics_json := lyr, song_lyrics_available := lyrics_available\<rparr>)"

definition mark_prep_failed :: "faults \<Rightarrow> string \<Rightarrow> string \<Rightarrow> ('z worker_state_scheme, exn, unit) prog" where
  "mark_prep_failed fl i code =
     update_song fl i (\<lambda>r. r\<lparr>song_prep_status := ''failed'', song_prep_error_code := Some code, song_prep_stage := None\<rparr>)"

section \<open>Published events\<close>

definition publish :: "faults \<Rightarrow> pydict \<Rightarrow> ('z worker_state_scheme, exn, unit) prog" where
  "publish fl payload w =
     (let w' = w\<lparr>redis_calls := redis_calls w + 1\<rparr>
      in if redis_fault fl (redis_calls w) then (Inl (Crash ''ConnectionError'' []), w')
         else (Inr (), w'\<lparr>published := published w @ [payload]\<rparr>))"

definition event_stage :: "faults \<Rightarrow> string \<Rightarrow> string \<Rightarrow> nat \<Rightarrow> nat \<Rightarrow> ('z worker_state_scheme, exn, unit) prog" where
  "event_stage fl i name index total_stages =
     publish fl [(''analysis_id'', PStr i), (''type'', PStr ''stage''), (''name'', PStr name),
       (''index'', PInt (int index)), (''total'', PInt (int total_stages))]"

definition event_done :: "faults \<Rightarrow> string \<Rightarrow> ('z worker_state_scheme, exn, unit) prog" where
  "event_done fl i = publish fl [(''analysis_id'', PStr i), (''type'', PStr ''done'')]"

definition event_failed :: "faults \<Rightarrow> string \<Rightarrow> string \<Rightarrow> string \<Rightarrow> ('z worker_state_scheme, exn, unit) prog" where
  "event_failed fl i code message =
     publish fl [(''analysis_id'', PStr i), (''type'', PStr ''failed''), (''error_code'', PStr code),
       (''message'', PStr message)]"

definition event_queued :: "faults \<Rightarrow> string \<Rightarrow> nat \<Rightarrow> ('z worker_state_scheme, exn, unit) prog" where
  "event_queued fl i position =
     publish fl [(''analysis_id'', PStr i), (''type'', PStr ''queued''), (''position'', PInt (int position))]"

text \<open>\<open>redis_client.xadd(ANALYSES_STREAM_NAME, {"job_id": i})\<close>.\<close>

definition xadd_run :: "faults \<Rightarrow> string \<Rightarrow> ('z worker_state_scheme, exn, unit) prog" where
  "xadd_run fl i w =
     (let w' = w\<lparr>redis_calls := redis_calls w + 1\<rparr>
      in if redis_fault fl (redis_calls w) then (Inl (Crash ''ConnectionError'' []), w')
         else (Inr (), w'\<lparr>run_stream := run_stream w @ [i]\<rparr>))"

section \<open>What the repository calls change\<close>

text \<open>Programs that keep everything in the state but the two call counters.\<close>

definition analysis_row_of :: "string \<Rightarrow> 'z worker_state_scheme \<Rightarrow> analysis_row option" where
  "analysis_row_of i w = find (\<lambda>r. row_id r = i) (analyses w)"

definition other_rows :: "string \<Rightarrow> 'z worker_state_scheme \<Rightarrow> analysis_row list" where
  "other_rows i w = filter (\<lambda>r. row_id r \<noteq> i) (analyses w)"

lemma find_update:
  assumes "\<And>r. row_id (f r) = row_id r"
  shows "find (\<lambda>r. row_id r = j) (map (\<lambda>r. if row_id r = i then f r else r) rs) =
    (if i = j then map_option f (find (\<lambda>r. row_id r = j) rs) else find (\<lambda>r. row_id r = j) rs)"
  by (induction rs) (auto simp: assms)

lemma filter_update:
  assumes "\<And>r. row_id (f r) = row_id r"
  shows "filter (\<lambda>r. row_id r \<noteq> i) (map (\<lambda>r. if row_id r = i then f r else r) rs) = filter (\<lambda>r. row_id r \<noteq> i) rs"
  by (induction rs) (auto simp: assms)

lemma map_of_set_key [simp]: "map_of (set_key k v kvs) = (map_of kvs)(k \<mapsto> v)"
  by (induction k v kvs rule: set_key.induct) auto

lemma map_of_merge_stage [simp]:
  "map_of (stages_of (merge_stage j r)) = (map_of (stages_of j))(stage r \<mapsto> r)"
  by (cases j) (simp_all add: merge_stage_def stages_of_def)

lemma update_analysis_eq:
  "update_analysis fl i f w =
     (let w' = w\<lparr>transactions := transactions w + 1\<rparr>
      in if db_fault fl (transactions w) then (Inl (Crash ''OperationalError'' []), w')
         else (Inr (), w'\<lparr>analyses := map (\<lambda>r. if row_id r = i then f r else r) (analyses w)\<rparr>))"
  by (simp add: update_analysis_def transact_def Let_def)

text \<open>A predicate on the state is kept by an update of row \<open>i\<close> that keeps it.\<close>

lemma keeps_update_analysis [keeps_rules]:
  assumes "\<And>w n. I w \<Longrightarrow> I (w\<lparr>transactions := n\<rparr>)"
    and "\<And>w. I w \<Longrightarrow> I (w\<lparr>analyses := map (\<lambda>r. if row_id r = i then f r else r) (analyses w)\<rparr>)"
  shows "keeps I (update_analysis fl i f)"
proof (rule keepsI)
  fix w assume w: "I w"
  let ?w' = "w\<lparr>transactions := transactions w + 1\<rparr>"
  have "I ?w'" using assms(1) w .
  moreover from assms(2) [OF this]
  have "I (?w'\<lparr>analyses := map (\<lambda>r. if row_id r = i then f r else r) (analyses w)\<rparr>)" by simp
  ultimately show "I (snd (update_analysis fl i f w))" by (simp add: update_analysis_eq Let_def)
qed

lemma keeps_transact_read [keeps_rules]:
  assumes "\<And>w n. I w \<Longrightarrow> I (w\<lparr>transactions := n\<rparr>)"
  shows "keeps I (transact fl (\<lambda>w. (g w, w)))"
  using assms by (auto simp: transact_def Let_def intro!: keepsI)

lemma keeps_publish [keeps_rules]:
  assumes "\<And>w n. I w \<Longrightarrow> I (w\<lparr>redis_calls := n\<rparr>)" and "\<And>w xs. I w \<Longrightarrow> I (w\<lparr>published := xs\<rparr>)"
  shows "keeps I (publish fl payload)"
  using assms by (auto simp: publish_def Let_def intro!: keepsI)

lemmas event_defs = event_stage_def event_done_def event_failed_def event_queued_def

lemmas analysis_update_defs = analysis_mark_processing_def analysis_save_stage_progress_def
  save_piano_roll_def save_user_pitch_curve_def prune_dense_stage_fields_def save_scoring_result_def
  analysis_mark_done_def analysis_mark_failed_def


section \<open>Properties\<close>

lemma oldest_None: "oldest rs = None \<longleftrightarrow> rs = []"
  by (cases rs) (auto split: option.splits)

lemma oldest_min:
  "oldest rs = Some r \<Longrightarrow> r \<in> set rs \<and> (\<forall>q \<in> set rs. row_queue_seq r \<le> row_queue_seq q)"
proof (induction rs arbitrary: r)
  case (Cons a rs)
  show ?case
  proof (cases "oldest rs")
    case None
    then show ?thesis using Cons.prems by (simp add: oldest_None)
  next
    case (Some q)
    then show ?thesis using Cons.prems Cons.IH [OF Some] by (auto split: if_splits)
  qed
qed simp

text \<open>
  The song the scheduler lets jump the line is that of the waiting analysis submitted first, and
  there is none exactly when no analysis waits.
\<close>

theorem oldest_waiting_first:
  assumes "oldest_waiting_song_id fl w = (Inr found, w')"
  shows "(case found of
      None \<Rightarrow> \<forall>r \<in> set (analyses w). row_status r \<noteq> ''waiting_for_reference''
    | Some song \<Rightarrow> \<exists>r \<in> set (analyses w). waits_for song r \<and>
        (\<forall>q \<in> set (analyses w). row_status q = ''waiting_for_reference'' \<longrightarrow> row_queue_seq r \<le> row_queue_seq q)) \<and>
    analyses w' = analyses w \<and> songs w' = songs w"
proof -
  let ?ws = "filter (\<lambda>r. row_status r = ''waiting_for_reference'') (analyses w)"
  have f: "found = map_option row_song_id (oldest ?ws)" and "analyses w' = analyses w \<and> songs w' = songs w"
    using assms by (auto simp: oldest_waiting_song_id_def transact_def Let_def split: if_splits)
  moreover have "(case found of
      None \<Rightarrow> \<forall>r \<in> set (analyses w). row_status r \<noteq> ''waiting_for_reference''
    | Some song \<Rightarrow> \<exists>r \<in> set (analyses w). waits_for song r \<and>
        (\<forall>q \<in> set (analyses w). row_status q = ''waiting_for_reference'' \<longrightarrow> row_queue_seq r \<le> row_queue_seq q))"
  proof (cases "oldest ?ws")
    case None
    then show ?thesis using f by (auto simp: oldest_None filter_empty_conv)
  next
    case (Some r)
    then show ?thesis using f oldest_min [OF Some] by (auto simp: waits_for_def)
  qed
  ultimately show ?thesis by blast
qed

definition queue_demo_row :: "string \<Rightarrow> string \<Rightarrow> nat \<Rightarrow> analysis_row" where
  "queue_demo_row i s n =
     \<lparr>row_id = i, row_user_id = [], row_song_id = s, row_status = ''waiting_for_reference'',
      row_stages_json = None, row_mode = Clean, row_allow_transposition = False, row_locale = En,
      row_current_stage = None, row_current_stage_index = None, row_total_stages = None,
      row_queue_position = None, row_queue_seq = n, row_error_code = None, row_aspect_scores = [],
      row_pitch_curve_json = None, row_user_pitch = None, row_scoring = None, row_model_versions = []\<rparr>"

definition queue_demo_db :: worker_state where
  "queue_demo_db =
     \<lparr>environ = Map.empty, spawned = [], slept = [],
      analyses = [queue_demo_row ''a1'' ''s2'' 5, queue_demo_row ''a2'' ''s1'' 2],
      songs = [], snapshots = [], transactions = 0, redis_calls = 0, published = [], run_stream = [], removed = []\<rparr>"

theorem oldest_waiting_first_witness:
  "\<exists>r \<in> set (analyses queue_demo_db). waits_for ''s1'' r"
proof -
  have "oldest_waiting_song_id \<lparr>db_fault = (\<lambda>_. False), redis_fault = (\<lambda>_. False)\<rparr> queue_demo_db =
      (Inr (Some ''s1''), queue_demo_db\<lparr>transactions := 1\<rparr>)"
    by (simp add: oldest_waiting_song_id_def transact_def queue_demo_db_def queue_demo_row_def)
  from oldest_waiting_first [OF this] show ?thesis by auto
qed

end
