(* ===== verification/Paths.thy ===== *)
theory Paths
  imports Prelude
begin

text \<open>
  \<open>audio/paths.py\<close>: where the files of a song and of an analysis live. A path is the string
  \<open>str(path)\<close> prints, and \<open>directory / name\<close> joins with a slash.
\<close>

definition path_join :: "string \<Rightarrow> string \<Rightarrow> string" where
  "path_join directory name = directory @ ''/'' @ name"

definition song_source_path :: "string \<Rightarrow> string \<Rightarrow> string" where
  "song_source_path audio_storage_dir song_id = path_join audio_storage_dir (''song-'' @ song_id @ ''.wav'')"

definition recording_source_path :: "string \<Rightarrow> string \<Rightarrow> string" where
  "recording_source_path audio_storage_dir analysis_id =
     path_join audio_storage_dir (''analysis-'' @ analysis_id @ ''.wav'')"

definition song_stem_path :: "string \<Rightarrow> string \<Rightarrow> string" where
  "song_stem_path song_stems_dir song_id = path_join song_stems_dir (''song-stem-'' @ song_id @ ''.wav'')"

definition analysis_work_dir :: "string \<Rightarrow> string \<Rightarrow> string" where
  "analysis_work_dir audio_storage_dir analysis_id = path_join audio_storage_dir (''work-'' @ analysis_id)"

definition song_prep_work_dir :: "string \<Rightarrow> string \<Rightarrow> string" where
  "song_prep_work_dir audio_storage_dir song_id = path_join audio_storage_dir (''prep-'' @ song_id)"

lemmas path_defs = path_join_def song_source_path_def recording_source_path_def song_stem_path_def
  analysis_work_dir_def song_prep_work_dir_def

text \<open>Files of different jobs, and of different kinds, never share a path in one directory.\<close>

lemma path_inject:
  "song_source_path d a = song_source_path d b \<longleftrightarrow> a = b"
  "recording_source_path d a = recording_source_path d b \<longleftrightarrow> a = b"
  "song_stem_path d a = song_stem_path d b \<longleftrightarrow> a = b"
  "analysis_work_dir d a = analysis_work_dir d b \<longleftrightarrow> a = b"
  "song_prep_work_dir d a = song_prep_work_dir d b \<longleftrightarrow> a = b"
  by (simp_all add: path_defs)

text \<open>
  Within one storage directory the five kinds of paths are disjoint, and each is injective in the
  id: no job ever reads or deletes a file of another job or another kind. (The stem of a song
  would otherwise meet the upload of a song whose id starts with \<open>stem-\<close>: ids are UUIDs, so an id
  has 36 characters.)
\<close>

theorem paths_disjoint:
  assumes "length a = 36" and "length b = 36"
  shows "distinct [song_source_path d a, recording_source_path d b, song_stem_path d b, analysis_work_dir d b,
      song_prep_work_dir d a] \<and>
    (song_source_path d a = song_source_path d b \<longleftrightarrow> a = b) \<and>
    (recording_source_path d a = recording_source_path d b \<longleftrightarrow> a = b) \<and>
    (analysis_work_dir d a = analysis_work_dir d b \<longleftrightarrow> a = b)"
proof -
  have "length (song_source_path d a) \<noteq> length (song_stem_path d b)" using assms by (simp add: path_defs)
  then have "song_source_path d a \<noteq> song_stem_path d b" by metis
  then have "distinct [song_source_path d a, recording_source_path d b, song_stem_path d b, analysis_work_dir d b,
      song_prep_work_dir d a]"
    by (simp add: path_defs)
  then show ?thesis by (simp add: path_inject)
qed

theorem paths_disjoint_witness:
  "song_source_path ''/audio'' (replicate 36 CHR ''0'') \<noteq> song_stem_path ''/audio'' (replicate 36 CHR ''1'')"
  using paths_disjoint [of "replicate 36 CHR ''0''" "replicate 36 CHR ''1''" "''/audio''"] by simp

end
