(* ===== verification/Handler.thy ===== *)
theory Handler
  imports Store Paths StageData
begin

text \<open>
  \<open>queue/handler.py\<close>: one analysis job from the stream to its terminal state. The handler
  reads the analysis and its song, runs the pipeline with the repository as the progress reporter,
  and records the outcome: failed with the code of the error, interrupted (nothing recorded, the job
  stays pending), or done with the scores copied out of the stage results. The lemmas show when the
  job may be acknowledged, and that the stage results saved always form a prefix of the pipeline.
\<close>

section \<open>Reading the values of a stage's data\<close>

definition py_get :: "pydict \<Rightarrow> string \<Rightarrow> ('s, exn, pyval) prog" where
  "py_get d k = liftp (getitem d k)"

section \<open>Ports of the runner\<close>

text \<open>\<open>AnalysisProgressReporter\<close> bound to one analysis, with the event publisher and a stop flag.\<close>

definition analysis_ports ::
  "faults \<Rightarrow> ('z worker_state_scheme \<Rightarrow> bool) \<Rightarrow> string \<Rightarrow> ('z worker_state_scheme) run_ports" where
  "analysis_ports fl stopping i =
     \<lparr>publish_stage = event_stage fl,
      mark_processing = analysis_mark_processing fl i,
      save_stage_progress = analysis_save_stage_progress fl i,
      should_stop = readp stopping\<rparr>"

section \<open>The job\<close>

definition build_analysis_context ::
  "faults \<Rightarrow> string \<Rightarrow> analysis_record \<Rightarrow> ('z worker_state_scheme, exn, analysis_context) prog" where
  "build_analysis_context fl storage_dir a =
     bindp (song_get_by_id fl (ar_song_id a)) (\<lambda>song.
       case (sr_vocal_stem_path song, sr_reference_pitch song) of
         (Some stem, Some curve) \<Rightarrow>
           ret \<lparr>analysis_id = ar_id a, user_id = ar_user_id a, song_id = sr_id song,
                recording_path = recording_source_path storage_dir (ar_id a),
                work_dir = analysis_work_dir storage_dir (ar_id a),
                reference_vocal_stem_path = stem, reference_pitch = curve, reference_lyrics = sr_lyrics song,
                context_mode = ar_mode a, allow_transposition = ar_allow_transposition a,
                context_locale = ar_locale a, completed = Map.empty\<rparr>
       | _ \<Rightarrow>
           throw (Raised (pipeline_error_init InternalPipelineError
             (''song '' @ ar_song_id a @ '' has no cached reference (vocal_stem_path/reference_pitch); ''
              @ ''expected prep_status='' @ [CHR 0x27] @ ''ready'' @ [CHR 0x27]
              @ '' before an analysis reaches analyses:run'') None)))"

definition cleanup ::
  "analysis_context \<Rightarrow> bool \<Rightarrow> bool \<Rightarrow> ('z worker_state_scheme, exn, unit) prog" where
  "cleanup c recording_done remove_work_dir =
     thenp (if remove_work_dir then modifyp (\<lambda>w. w\<lparr>removed := removed w @ [work_dir c]\<rparr>) else ret ())
       (if recording_done then modifyp (\<lambda>w. w\<lparr>removed := removed w @ [recording_path c]\<rparr>) else ret ())"

definition save_one_score ::
  "faults \<Rightarrow> string \<Rightarrow> (string \<times> stage_result) list \<Rightarrow> string \<Rightarrow> ('z worker_state_scheme, exn, unit) prog" where
  "save_one_score fl i stages aspect =
     (case map_of stages aspect of
        None \<Rightarrow> ret ()
      | Some result \<Rightarrow>
          (case map_of (data result) ''score'' of
             None \<Rightarrow> ret ()
           | Some v \<Rightarrow> bindp (liftp (py_float v)) (\<lambda>x. save_aspect_score fl i aspect x)))"

definition save_dense_fields ::
  "faults \<Rightarrow> (real \<Rightarrow> real) \<Rightarrow> string \<Rightarrow> (string \<times> stage_result) list \<Rightarrow> ('z worker_state_scheme, exn, unit) prog" where
  "save_dense_fields fl f4 i stages =
     (case map_of stages ''pitch'' of
        None \<Rightarrow> ret ()
      | Some result \<Rightarrow>
          thenp (case map_of (data result) ''piano_roll'' of
                   None \<Rightarrow> ret ()
                 | Some v \<Rightarrow> bindp (liftp (validate_piano_roll v)) (\<lambda>p. save_piano_roll fl i p))
            (case map_of (data result) ''user_pitch_curve'' of
               None \<Rightarrow> ret ()
             | Some v \<Rightarrow> bindp (liftp (validate_curve v)) (\<lambda>c. save_user_pitch_curve fl f4 i c)))"

definition scoring_columns_of :: "pydict \<Rightarrow> exn + scoring_columns" where
  "scoring_columns_of d =
     and_then (read_as py_float d ''overall_score'') (\<lambda>overall.
     and_then (read_as py_str d ''confidence'') (\<lambda>conf.
     and_then (getitem d ''key_shift_semitones'') (\<lambda>key_shift.
     and_then (read_as py_str d ''feedback_text'') (\<lambda>feedback.
     and_then (read_as py_str d ''scoring_version'') (\<lambda>version.
     and_then (read_as py_str d ''weights_profile'') (\<lambda>profile.
     and_then (read_as py_str d ''effective_mode'') (\<lambda>effective.
     and_then (read_as py_dict d ''aspect_confidence'') (\<lambda>aspect_conf.
     and_then (read_as py_list d ''warnings'') (\<lambda>warns.
     and_then (read_as py_dict d ''unavailable_aspects'') (\<lambda>unavailable.
     and_then (py_opt_float key_shift) (\<lambda>shift.
     and_then (read_as py_float d ''accompaniment_level'') (\<lambda>accompaniment.
     and_then (read_as py_float d ''voiced_ratio'') (\<lambda>voiced.
     and_then (read_as py_float d ''alignment_cost'') (\<lambda>align_cost.
       Inr \<lparr>col_overall_score = overall, col_feedback_text = feedback, col_scoring_version = version,
            col_weights_profile = profile, col_effective_mode = effective, col_confidence = conf,
            col_aspect_confidence = aspect_conf, col_warnings = warns, col_unavailable_aspects = unavailable,
            col_key_shift_semitones = shift, col_accompaniment_level = accompaniment,
            col_voiced_ratio = voiced, col_alignment_cost = align_cost\<rparr>))))))))))))))"

definition persist_scores ::
  "faults \<Rightarrow> (real \<Rightarrow> real) \<Rightarrow> string \<Rightarrow> ('z worker_state_scheme, exn, unit) prog" where
  "persist_scores fl f4 i =
     bindp (analysis_get_by_id fl i) (\<lambda>record.
     thenp (for_each (save_one_score fl i (ar_stages record)) ASPECTS)
    (thenp (save_dense_fields fl f4 i (ar_stages record))
       (case map_of (ar_stages record) ''aggregate'' of
          None \<Rightarrow> ret ()
        | Some result \<Rightarrow>
            bindp (liftp (scoring_columns_of (data result))) (\<lambda>cols.
            thenp (save_scoring_result fl i cols)
              (record_progress_snapshot fl i (ar_user_id record) (col_overall_score cols)
                 (mode_name (ar_mode record)) (col_confidence cols))))))"

record handler_config =
  cfg_faults :: faults
  cfg_fate :: "nat \<Rightarrow> child_fate"
  cfg_storage_dir :: string
  cfg_f4 :: "real \<Rightarrow> real"
  cfg_model_versions :: "(string \<times> string) list"

definition analysis_run ::
  "handler_config \<Rightarrow> analysis_context entry list \<Rightarrow> ('z worker_state_scheme \<Rightarrow> bool) \<Rightarrow> analysis_record \<Rightarrow>
     analysis_context \<Rightarrow> string \<Rightarrow> ('z worker_state_scheme, exn, run_outcome) prog" where
  "analysis_run cfg stages stopping record context i =
     run analysis_with_result (cfg_fate cfg) stages (analysis_ports (cfg_faults cfg) stopping i) i context
       (ar_stages record) (Some (context_mode context))"

text \<open>What the \<open>except PipelineError\<close> clause does, and what happens after a completed run.\<close>

definition fail_analysis ::
  "handler_config \<Rightarrow> string \<Rightarrow> analysis_context \<Rightarrow> pipeline_error \<Rightarrow> ('z worker_state_scheme, exn, bool) prog" where
  "fail_analysis cfg i context e =
     thenp (analysis_mark_failed (cfg_faults cfg) i (err_code e))
    (thenp (event_failed (cfg_faults cfg) i (err_code e) (err_message e))
    (thenp (cleanup context False False) (ret True)))"

definition finish_analysis ::
  "handler_config \<Rightarrow> string \<Rightarrow> analysis_context \<Rightarrow> ('z worker_state_scheme, exn, bool) prog" where
  "finish_analysis cfg i context =
     thenp (persist_scores (cfg_faults cfg) (cfg_f4 cfg) i)
    (thenp (prune_dense_stage_fields (cfg_faults cfg) i)
    (thenp (analysis_mark_done (cfg_faults cfg) i (cfg_model_versions cfg))
    (thenp (event_done (cfg_faults cfg) i)
    (thenp (cleanup context True True) (ret True)))))"

definition handle_analysis ::
  "handler_config \<Rightarrow> analysis_context entry list \<Rightarrow> string \<Rightarrow> ('z worker_state_scheme \<Rightarrow> bool) \<Rightarrow>
     ('z worker_state_scheme, exn, bool) prog" where
  "handle_analysis cfg stages i stopping =
     bindp (analysis_get_by_id (cfg_faults cfg) i) (\<lambda>record.
     bindp (build_analysis_context (cfg_faults cfg) (cfg_storage_dir cfg) record) (\<lambda>context w.
       case analysis_run cfg stages stopping record context i w of
         (Inl (Raised e), w') \<Rightarrow> fail_analysis cfg i context e w'
       | (Inl (Crash cls message), w') \<Rightarrow> (Inl (Crash cls message), w')
       | (Inr INTERRUPTED, w') \<Rightarrow> (Inr False, w')
       | (Inr COMPLETED, w') \<Rightarrow> finish_analysis cfg i context w'))"

definition analysis_mark_permanently_failed ::
  "handler_config \<Rightarrow> string \<Rightarrow> ('z worker_state_scheme, exn, unit) prog" where
  "analysis_mark_permanently_failed cfg i =
     thenp (analysis_mark_failed (cfg_faults cfg) i ''INTERNAL'')
       (event_failed (cfg_faults cfg) i ''INTERNAL'' ''worker repeatedly failed to process this job'')"

section \<open>The analysis reporter is a progress reporter\<close>

definition analysis_saved :: "string \<Rightarrow> 'z worker_state_scheme \<Rightarrow> string \<rightharpoonup> stage_result" where
  "analysis_saved i w =
     (case analysis_row_of i w of None \<Rightarrow> Map.empty | Some r \<Rightarrow> map_of (stages_of (row_stages_json r)))"

definition analysis_exists :: "string \<Rightarrow> 'z worker_state_scheme \<Rightarrow> bool" where
  "analysis_exists i w \<longleftrightarrow> analysis_row_of i w \<noteq> None"

lemma analysis_row_of_more [simp]:
  "analysis_row_of i (w\<lparr>transactions := n\<rparr>) = analysis_row_of i w"
  "analysis_row_of i (w\<lparr>redis_calls := n\<rparr>) = analysis_row_of i w"
  "analysis_row_of i (w\<lparr>published := xs\<rparr>) = analysis_row_of i w"
  "analysis_row_of i (w\<lparr>removed := rs\<rparr>) = analysis_row_of i w"
  "analysis_row_of i (w\<lparr>spawned := cs\<rparr>) = analysis_row_of i w"
  "analysis_row_of i (w\<lparr>spawned := cs, slept := zs\<rparr>) = analysis_row_of i w"
  by (simp_all add: analysis_row_of_def)

interpretation analysis_progress: progress_reporter
  "analysis_ports fl stopping i" "analysis_saved i" "analysis_exists i" for fl stopping i
proof unfold_locales
  show "ports_keep (analysis_exists i) (analysis_ports fl stopping i)" for fl and stopping :: "'a worker_state_scheme \<Rightarrow> bool" and i
    unfolding ports_keep_def analysis_ports_def event_defs analysis_update_defs run_ports.simps
    by (intro conjI allI keeps_rules)
      (auto simp: analysis_exists_def analysis_row_of_def find_update)
qed (auto simp: analysis_ports_def event_defs analysis_update_defs update_analysis_eq publish_def Let_def
      analysis_saved_def analysis_exists_def analysis_row_of_def find_update split: if_splits option.splits)


section \<open>Frames\<close>

text \<open>Everything a handled job must leave alone: the other analyses, the songs, the analyses stream.\<close>

definition rest :: "string \<Rightarrow> 'z worker_state_scheme \<Rightarrow> analysis_row list \<times> song_row list \<times> snapshot_row list \<times> string list" where
  "rest i w = (other_rows i w, songs w, filter (\<lambda>s. snap_analysis_id s \<noteq> i) (snapshots w), run_stream w)"

lemma rest_simps [simp]:
  "rest i (w\<lparr>transactions := n\<rparr>) = rest i w" "rest i (w\<lparr>redis_calls := n\<rparr>) = rest i w"
  "rest i (w\<lparr>published := xs\<rparr>) = rest i w" "rest i (w\<lparr>removed := rs\<rparr>) = rest i w"
  "rest i (w\<lparr>spawned := cs\<rparr>) = rest i w" "rest i (w\<lparr>spawned := cs, slept := zs\<rparr>) = rest i w"
  by (simp_all add: rest_def other_rows_def)

lemma rest_update [simp]:
  "(\<And>r. row_id (f r) = row_id r) \<Longrightarrow>
     rest i (w\<lparr>analyses := map (\<lambda>r. if row_id r = i then f r else r) (analyses w)\<rparr>) = rest i w"
  by (simp add: rest_def other_rows_def filter_update)

lemma keeps_analysis_get [keeps_rules]:
  assumes "\<And>w n. I w \<Longrightarrow> I (w\<lparr>transactions := n\<rparr>)"
  shows "keeps I (analysis_get_by_id fl i)" and "keeps I (song_get_by_id fl i)"
  unfolding analysis_get_by_id_def song_get_by_id_def by (intro keeps_rules assms; assumption)+

lemma keeps_build_analysis_context [keeps_rules]:
  assumes "\<And>w n. I w \<Longrightarrow> I (w\<lparr>transactions := n\<rparr>)"
  shows "keeps I (build_analysis_context fl dir a)"
  unfolding build_analysis_context_def by (intro keeps_rules assms; assumption)+

lemma keeps_case_run:
  assumes "keeps I m" and "\<And>e. keeps I (f e)" and "keeps I g"
  shows "keeps I (\<lambda>w. case m w of
         (Inl (Raised e), w') \<Rightarrow> f e w'
       | (Inl (Crash cls message), w') \<Rightarrow> (Inl (Crash cls message), w')
       | (Inr INTERRUPTED, w') \<Rightarrow> (Inr False, w')
       | (Inr COMPLETED, w') \<Rightarrow> g w')"
  using assms by (auto simp: keeps_def split: prod.splits sum.splits exn.splits run_outcome.splits)

lemma keeps_analysis_run:
  assumes "\<And>w n. I w \<Longrightarrow> I (w\<lparr>transactions := n\<rparr>)" and "\<And>w n. I w \<Longrightarrow> I (w\<lparr>redis_calls := n\<rparr>)"
    and "\<And>w xs. I w \<Longrightarrow> I (w\<lparr>published := xs\<rparr>)"
    and "\<And>w cs. I w \<Longrightarrow> I (w\<lparr>spawned := cs\<rparr>)" and "\<And>w cs zs. I w \<Longrightarrow> I (w\<lparr>spawned := cs, slept := zs\<rparr>)"
    and "\<And>w f. I w \<Longrightarrow> (\<And>r. row_id (f r) = row_id r) \<Longrightarrow>
           I (w\<lparr>analyses := map (\<lambda>r. if row_id r = i then f r else r) (analyses w)\<rparr>)"
  shows "keeps I (analysis_run cfg stages stopping record c i)"
proof -
  have "ports_keep I (analysis_ports (cfg_faults cfg) stopping i)"
    unfolding ports_keep_def analysis_ports_def event_defs analysis_update_defs run_ports.simps
    by (intro conjI allI keeps_rules assms; (assumption | simp))
  then show ?thesis
    unfolding analysis_run_def by (rule keeps_run) (rule keeps_entry_run; simp add: assms)
qed

lemma keeps_save_aspect [keeps_rules]:
  assumes "\<And>w n. I w \<Longrightarrow> I (w\<lparr>transactions := n\<rparr>)"
    and "\<And>w f. I w \<Longrightarrow> (\<And>r. row_id (f r) = row_id r) \<Longrightarrow>
           I (w\<lparr>analyses := map (\<lambda>r. if row_id r = i then f r else r) (analyses w)\<rparr>)"
  shows "keeps I (save_aspect_score fl i aspect x)"
  unfolding save_aspect_score_def by (intro keeps_rules assms; (assumption | simp))

lemma keeps_snapshot [keeps_rules]:
  assumes "\<And>w n. I w \<Longrightarrow> I (w\<lparr>transactions := n\<rparr>)"
    and "\<And>w xs. I w \<Longrightarrow> filter (\<lambda>s. snap_analysis_id s \<noteq> i) xs = filter (\<lambda>s. snap_analysis_id s \<noteq> i) (snapshots w) \<Longrightarrow>
           I (w\<lparr>snapshots := xs\<rparr>)"
  shows "keeps I (record_progress_snapshot fl i user x m conf)"
proof (rule keepsI)
  fix w assume w: "I w"
  have f: "filter (\<lambda>s. snap_analysis_id s \<noteq> snap_analysis_id q) (upsert_snapshot q xs) =
      filter (\<lambda>s. snap_analysis_id s \<noteq> snap_analysis_id q) xs" for q xs
    by (induction q xs rule: upsert_snapshot.induct) auto
  let ?q = "\<lparr>snap_user_id = user, snap_analysis_id = i, snap_overall_score = x, snap_mode = m, snap_confidence = conf\<rparr>"
  have "I (w\<lparr>transactions := transactions w + 1\<rparr>)" using assms(1) w .
  then show "I (snd (record_progress_snapshot fl i user x m conf w))"
    using assms(2) [of "w\<lparr>transactions := transactions w + 1\<rparr>" "upsert_snapshot ?q (snapshots w)"] f [of ?q "snapshots w"]
    by (simp add: record_progress_snapshot_def transact_def Let_def)
qed

lemma keeps_handle_analysis:
  assumes "\<And>w n. I w \<Longrightarrow> I (w\<lparr>transactions := n\<rparr>)" and "\<And>w n. I w \<Longrightarrow> I (w\<lparr>redis_calls := n\<rparr>)"
    and "\<And>w xs. I w \<Longrightarrow> I (w\<lparr>published := xs\<rparr>)" and "\<And>w rs. I w \<Longrightarrow> I (w\<lparr>removed := rs\<rparr>)"
    and "\<And>w cs. I w \<Longrightarrow> I (w\<lparr>spawned := cs\<rparr>)" and "\<And>w cs zs. I w \<Longrightarrow> I (w\<lparr>spawned := cs, slept := zs\<rparr>)"
    and "\<And>w f. I w \<Longrightarrow> (\<And>r. row_id (f r) = row_id r) \<Longrightarrow>
           I (w\<lparr>analyses := map (\<lambda>r. if row_id r = i then f r else r) (analyses w)\<rparr>)"
    and "\<And>w xs. I w \<Longrightarrow> filter (\<lambda>s. snap_analysis_id s \<noteq> i) xs = filter (\<lambda>s. snap_analysis_id s \<noteq> i) (snapshots w) \<Longrightarrow>
           I (w\<lparr>snapshots := xs\<rparr>)"
  shows "keeps I (handle_analysis cfg stages i stopping)"
proof -
  have up: "keeps I (update_analysis fl i f)" if "\<And>r. row_id (f r) = row_id r" for fl f
    by (intro keeps_rules assms that; assumption)
  have pub: "keeps I (publish fl payload)" for fl payload
    by (intro keeps_rules assms; assumption)
  have clean: "keeps I (cleanup c a b)" for c a b
    unfolding cleanup_def by (intro keeps_rules assms; assumption)
  have score: "keeps I (save_one_score fl i st aspect)" for fl st aspect
    unfolding save_one_score_def by (intro keeps_rules assms; assumption)
  have dense: "keeps I (save_dense_fields fl f4 i st)" for fl f4 st
    unfolding save_dense_fields_def analysis_update_defs by (intro keeps_rules up; simp)
  have persist: "keeps I (persist_scores fl f4 i)" for fl f4
    unfolding persist_scores_def analysis_update_defs
    by (intro keeps_rules score dense up assms; (assumption | simp))
  have fin: "keeps I (finish_analysis cfg i c)" for c
    unfolding finish_analysis_def event_defs analysis_update_defs
    by (intro keeps_rules persist up pub clean; simp)
  have bad: "keeps I (fail_analysis cfg i c e)" for c e
    unfolding fail_analysis_def event_defs analysis_update_defs
    by (intro keeps_rules up pub clean; simp)
  show ?thesis
    unfolding handle_analysis_def
    by (intro keeps_bindp keeps_analysis_get keeps_build_analysis_context keeps_case_run keeps_analysis_run fin bad assms;
        assumption)
qed


section \<open>Outcomes of a job\<close>

lemma update_analysis_Inr:
  assumes "update_analysis fl i f w = (Inr u, w')" and "\<And>r. row_id (f r) = row_id r"
  shows "analysis_row_of i w' = map_option f (analysis_row_of i w) \<and> removed w' = removed w"
  using assms by (auto simp: update_analysis_eq Let_def analysis_row_of_def find_update split: if_splits)

lemma publish_Inr:
  "publish fl payload w = (Inr u, w') \<Longrightarrow>
     analysis_row_of i w' = analysis_row_of i w \<and> removed w' = removed w \<and> published w' = published w @ [payload]"
  by (auto simp: publish_def Let_def split: if_splits)

lemma cleanup_eq:
  "cleanup c a b w = (Inr (), w\<lparr>removed := removed w @ (if b then [work_dir c] else []) @ (if a then [recording_path c] else [])\<rparr>)"
  by (simp add: cleanup_def thenp_def bindp_def)

lemma keeps_analysis_exists: "keeps (analysis_exists i) (handle_analysis cfg stages i stopping)"
  by (rule keeps_handle_analysis) (simp_all add: analysis_exists_def analysis_row_of_def find_update)

definition status_of :: "string \<Rightarrow> 'z worker_state_scheme \<Rightarrow> string option" where
  "status_of i w = map_option row_status (analysis_row_of i w)"

lemma fail_analysis_Inr:
  assumes "fail_analysis cfg i c e w = (Inr b, w')" and "analysis_exists i w"
  shows "b \<and> status_of i w' = Some ''failed'' \<and>
    map_option row_error_code (analysis_row_of i w') = Some (Some (err_code e)) \<and> removed w' = removed w"
proof -
  from assms(1) obtain w1 w2 where
      1: "analysis_mark_failed (cfg_faults cfg) i (err_code e) w = (Inr (), w1)"
    and 2: "event_failed (cfg_faults cfg) i (err_code e) (err_message e) w1 = (Inr (), w2)"
    and 3: "thenp (cleanup c False False) (ret True) w2 = (Inr b, w')"
    by (auto simp: fail_analysis_def thenp_eq_Inr)
  have "w' = w2" "b" using 3 by (auto simp: thenp_eq_Inr cleanup_eq)
  moreover note update_analysis_Inr [OF 1 [unfolded analysis_mark_failed_def]] publish_Inr [OF 2 [unfolded event_failed_def], of i]
  ultimately show ?thesis using assms(2) by (auto simp: status_of_def analysis_exists_def)
qed

text \<open>What the steps after a completed run keep: no file removed, the same stages recorded.\<close>

definition kept :: "string \<Rightarrow> string list \<Rightarrow> string set \<Rightarrow> 'z worker_state_scheme \<Rightarrow> bool" where
  "kept i rs D w \<longleftrightarrow> removed w = rs \<and> analysis_exists i w \<and> dom (analysis_saved i w) = D"

lemma kept_simps [simp]:
  "kept i rs D (w\<lparr>transactions := n\<rparr>) = kept i rs D w" "kept i rs D (w\<lparr>redis_calls := n\<rparr>) = kept i rs D w"
  "kept i rs D (w\<lparr>published := xs\<rparr>) = kept i rs D w" "kept i rs D (w\<lparr>snapshots := ss\<rparr>) = kept i rs D w"
  by (simp_all add: kept_def analysis_exists_def analysis_saved_def analysis_row_of_def)

lemma keeps_kept_update:
  assumes "\<And>r. row_id (f r) = row_id r"
    and "\<And>r. fst ` set (stages_of (row_stages_json (f r))) = fst ` set (stages_of (row_stages_json r))"
  shows "keeps (kept i rs D) (update_analysis fl i f)"
  using assms
  by (intro keeps_rules)
    (auto simp: kept_def analysis_exists_def analysis_saved_def analysis_row_of_def find_update
      dom_map_of_conv_image_fst split: option.splits)

lemma prune_pitch_fst: "fst (prune_pitch p) = fst p"
  by (cases p) (simp add: prune_pitch_def)

lemma stages_of_map: "stages_of (map_option (map f) j) = map f (stages_of j)"
  by (cases j) (simp_all add: stages_of_def)

lemma keeps_kept_prune: "keeps (kept i rs D) (prune_dense_stage_fields fl i)"
  unfolding prune_dense_stage_fields_def
  by (rule keeps_kept_update) (simp_all add: stages_of_map image_image prune_pitch_fst)

lemma keeps_kept_persist: "keeps (kept i rs D) (persist_scores fl f4 i)"
proof -
  have up2: "keeps (kept i rs D) (save_aspect_score fl i aspect x)" for aspect x
    unfolding save_aspect_score_def by (intro keeps_if keeps_throw keeps_kept_update) simp_all
  have snap: "keeps (kept i rs D) (record_progress_snapshot fl i user x m conf)" for user x m conf
    by (intro keeps_rules) simp_all
  have get: "keeps (kept i rs D) (analysis_get_by_id fl i)"
    by (intro keeps_rules) simp
  show ?thesis
    unfolding persist_scores_def save_one_score_def save_dense_fields_def analysis_update_defs
    by (intro keeps_bindp keeps_thenp keeps_option keeps_for_each keeps_ret keeps_liftp get up2 snap
        keeps_kept_update; simp)
qed

lemma keeps_kept_done:
  "keeps (kept i rs D) (analysis_mark_done fl i versions)" "keeps (kept i rs D) (event_done fl i)"
  unfolding analysis_mark_done_def event_defs by (intro keeps_kept_update keeps_rules; simp)+

lemma finish_analysis_Inr:
  assumes "finish_analysis cfg i c w = (Inr b, w')" and "analysis_exists i w"
  shows "b \<and> status_of i w' = Some ''done'' \<and> removed w' = removed w @ [work_dir c, recording_path c] \<and>
    dom (analysis_saved i w') = dom (analysis_saved i w) \<and>
    [(''analysis_id'', PStr i), (''type'', PStr ''done'')] \<in> set (published w')"
proof -
  let ?fl = "cfg_faults cfg"
  from assms(1) obtain w1 w2 w3 w4 where
      1: "persist_scores ?fl (cfg_f4 cfg) i w = (Inr (), w1)"
    and 2: "prune_dense_stage_fields ?fl i w1 = (Inr (), w2)"
    and 3: "analysis_mark_done ?fl i (cfg_model_versions cfg) w2 = (Inr (), w3)"
    and 4: "event_done ?fl i w3 = (Inr (), w4)"
    and 5: "thenp (cleanup c True True) (ret True) w4 = (Inr b, w')"
    by (auto simp: finish_analysis_def thenp_eq_Inr)
  let ?D = "dom (analysis_saved i w)"
  have "kept i (removed w) ?D w" using assms(2) by (simp add: kept_def)
  then have k1: "kept i (removed w) ?D w1" by (rule keepsE [OF keeps_kept_persist _ 1])
  then have k2: "kept i (removed w) ?D w2" by (rule keepsE [OF keeps_kept_prune _ 2])
  then have "kept i (removed w) ?D w3" by (rule keepsE [OF keeps_kept_done(1) _ 3])
  then have "kept i (removed w) ?D w4" by (rule keepsE [OF keeps_kept_done(2) _ 4])
  moreover have "b" "w' = w4\<lparr>removed := removed w4 @ [work_dir c, recording_path c]\<rparr>"
    using 5 by (auto simp: thenp_eq_Inr cleanup_eq)
  moreover note update_analysis_Inr [OF 2 [unfolded prune_dense_stage_fields_def]]
    update_analysis_Inr [OF 3 [unfolded analysis_mark_done_def]] publish_Inr [OF 4 [unfolded event_done_def], of i]
  ultimately show ?thesis using k2
    by (auto simp: kept_def status_of_def analysis_exists_def analysis_saved_def)
qed

lemma finish_analysis_removes:
  assumes "finish_analysis cfg i c w = (r, w')" and "analysis_exists i w"
  shows "removed w' = removed w \<or> r = Inr True"
proof (cases r)
  case (Inr b)
  then show ?thesis using finish_analysis_Inr [of cfg i c w b w'] assms by simp
next
  case (Inl e)
  let ?fl = "cfg_faults cfg" and ?I = "kept i (removed w) (dom (analysis_saved i w))"
  have k: "keeps ?I (thenp (persist_scores ?fl (cfg_f4 cfg) i) (thenp (prune_dense_stage_fields ?fl i)
      (thenp (analysis_mark_done ?fl i (cfg_model_versions cfg)) (event_done ?fl i))))"
    by (intro keeps_thenp keeps_kept_persist keeps_kept_prune keeps_kept_done)
  have "finish_analysis cfg i c w = thenp (thenp (persist_scores ?fl (cfg_f4 cfg) i) (thenp (prune_dense_stage_fields ?fl i)
      (thenp (analysis_mark_done ?fl i (cfg_model_versions cfg)) (event_done ?fl i)))) (thenp (cleanup c True True) (ret True)) w"
    by (auto simp: finish_analysis_def thenp_def bindp_def split: prod.splits sum.splits)
  moreover obtain x v where m: "thenp (persist_scores ?fl (cfg_f4 cfg) i) (thenp (prune_dense_stage_fields ?fl i)
      (thenp (analysis_mark_done ?fl i (cfg_model_versions cfg)) (event_done ?fl i))) w = (x, v)" by fastforce
  ultimately have "finish_analysis cfg i c w = (case x of Inl e \<Rightarrow> (Inl e, v) | Inr u \<Rightarrow> thenp (cleanup c True True) (ret True) v)"
    by (cases x) (simp_all add: thenp_Inl thenp_Inr)
  moreover have "thenp (cleanup c True True) (ret True) v \<noteq> (Inl e, w')" by (simp add: thenp_def bindp_def cleanup_eq)
  ultimately have "w' = v" using assms(1) Inl by (auto split: sum.splits)
  moreover have "?I v" by (rule keepsE [OF k _ m]) (simp add: kept_def assms(2))
  ultimately show ?thesis by (simp add: kept_def)
qed


section \<open>A job from start to end\<close>

lemma analysis_get_Inr:
  assumes "analysis_get_by_id fl i w = (Inr a, w')"
  shows "\<exists>r. analysis_row_of i w = Some r \<and> a = row_to_analysis_record r \<and> w' = w\<lparr>transactions := transactions w + 1\<rparr>"
  using assms
  by (auto simp: analysis_get_by_id_def bindp_def transact_def Let_def analysis_row_of_def split: if_splits option.splits)

lemma build_context_Inr:
  assumes "build_analysis_context fl dir a w = (Inr c, w')"
  shows "w' = w\<lparr>transactions := transactions w + 1\<rparr> \<and> context_mode c = ar_mode a \<and> completed c = Map.empty \<and>
    work_dir c = analysis_work_dir dir (ar_id a) \<and> recording_path c = recording_source_path dir (ar_id a)"
  using assms
  by (auto simp: build_analysis_context_def song_get_by_id_def bindp_def transact_def Let_def
      split: if_splits option.splits prod.splits sum.splits)

lemma early_state:
  "keeps (\<lambda>v. removed v = rs \<and> analyses v = as) (analysis_get_by_id fl i)"
  "keeps (\<lambda>v. removed v = rs \<and> analyses v = as) (build_analysis_context fl dir a)"
  by (intro keeps_rules; simp)+

definition settle_run ::
  "handler_config \<Rightarrow> string \<Rightarrow> analysis_context \<Rightarrow> (exn + run_outcome) \<times> 'z worker_state_scheme \<Rightarrow>
     (exn + bool) \<times> 'z worker_state_scheme" where
  "settle_run cfg i context out =
     (case out of
         (Inl (Raised e), w') \<Rightarrow> fail_analysis cfg i context e w'
       | (Inl (Crash cls message), w') \<Rightarrow> (Inl (Crash cls message), w')
       | (Inr INTERRUPTED, w') \<Rightarrow> (Inr False, w')
       | (Inr COMPLETED, w') \<Rightarrow> finish_analysis cfg i context w')"

text \<open>Either the job stops before the pipeline, nothing changed, or its pipeline runs from the state read.\<close>

lemma handle_analysis_cases:
  assumes "handle_analysis cfg stages i stopping w = (x, w')"
  obtains (early) e where "x = Inl e" "removed w' = removed w" "analyses w' = analyses w"
  | (started) r c w0 where "analysis_row_of i w = Some r" "removed w0 = removed w" "analyses w0 = analyses w"
      "work_dir c = analysis_work_dir (cfg_storage_dir cfg) (row_id r)"
      "recording_path c = recording_source_path (cfg_storage_dir cfg) (row_id r)"
      "context_mode c = row_mode r" "completed c = Map.empty"
      "(x, w') = settle_run cfg i c (analysis_run cfg stages stopping (row_to_analysis_record r) c i w0)"
proof -
  let ?fl = "cfg_faults cfg"
  obtain y w1 where get: "analysis_get_by_id ?fl i w = (y, w1)" by fastforce
  have k1: "removed w1 = removed w \<and> analyses w1 = analyses w"
    using keepsE [OF early_state(1) _ get, of "removed w" "analyses w"] by simp
  show ?thesis
  proof (cases y)
    case (Inl e)
    then show ?thesis using early k1 assms get by (auto simp: handle_analysis_def bindp_Inl)
  next
    case (Inr a)
    obtain r where r: "analysis_row_of i w = Some r" "a = row_to_analysis_record r"
      using analysis_get_Inr get Inr by blast
    obtain z w2 where build: "build_analysis_context ?fl (cfg_storage_dir cfg) a w1 = (z, w2)" by fastforce
    have k2: "removed w2 = removed w \<and> analyses w2 = analyses w"
      using keepsE [OF early_state(2) _ build, of "removed w" "analyses w"] k1 by simp
    show ?thesis
    proof (cases z)
      case (Inl e)
      then show ?thesis using early k2 assms get Inr build by (auto simp: handle_analysis_def bindp_Inl bindp_Inr)
    next
      case (Inr c)
      note b = build_context_Inr [OF build [unfolded Inr]]
      have "(x, w') = settle_run cfg i c (analysis_run cfg stages stopping a c i w2)"
        using assms get \<open>y = Inr a\<close> build Inr by (simp add: handle_analysis_def bindp_Inr settle_run_def)
      then show ?thesis using started [of r w2 c] r k2 b by (simp add: row_to_analysis_record_def)
    qed
  qed
qed

lemma analysis_run_progress:
  assumes "\<forall>s \<in> runnable stages (ar_stages a) (Some (context_mode c)). names_own_result s"
    and "analysis_exists i w"
  defines "todo \<equiv> flatten (remaining_entries (stages_for_mode stages (Some (context_mode c))) (ar_stages a))"
  shows "\<exists>k qs. map stage qs = map stage_name (take k todo) \<and>
    analysis_exists i (snd (analysis_run cfg stages stopping a c i w)) \<and>
    analysis_saved i (snd (analysis_run cfg stages stopping a c i w)) = fold (\<lambda>r m. m(stage r \<mapsto> r)) qs (analysis_saved i w) \<and>
    (fst (analysis_run cfg stages stopping a c i w) = Inr COMPLETED \<longrightarrow> length todo \<le> k)"
proof -
  obtain k where k: "analysis_progress.saves_prefix i w [] todo (analysis_run cfg stages stopping a c i w) k"
      "\<forall>v. analysis_run cfg stages stopping a c i w = (Inr COMPLETED, v) \<longrightarrow> k = length todo"
    using analysis_progress.run_progress [OF assms(1,2)] unfolding todo_def analysis_run_def by blast
  then show ?thesis
    by (cases "analysis_run cfg stages stopping a c i w")
      (auto simp: analysis_progress.saves_prefix_def analysis_progress.after_def)
qed

lemma keeps_run_other:
  "keeps (\<lambda>v. rest i v = R \<and> removed v = rs \<and> analysis_exists i v) (analysis_run cfg stages stopping a c i)"
  by (rule keeps_analysis_run) (auto simp: analysis_exists_def analysis_row_of_def find_update)


lemma outcome_cases:
  fixes y :: "exn + run_outcome"
  obtains e where "y = Inl (Raised e)" | cls m where "y = Inl (Crash cls m)"
    | "y = Inr INTERRUPTED" | "y = Inr COMPLETED"
proof (cases y)
  case (Inl e)
  then show thesis using that by (cases e) simp_all
next
  case (Inr oc)
  then show thesis using that by (cases oc) simp_all
qed

lemma settle_run_cases:
  assumes "(x, w') = settle_run cfg i c out" and "analysis_exists i (snd out)"
  shows "x = Inr True \<and> status_of i w' = Some ''failed'' \<and> removed w' = removed (snd out) \<or>
    x = Inr True \<and> fst out = Inr COMPLETED \<and> status_of i w' = Some ''done'' \<and>
      removed w' = removed (snd out) @ [work_dir c, recording_path c] \<and>
      dom (analysis_saved i w') = dom (analysis_saved i (snd out)) \<or>
    x = Inr False \<and> fst out = Inr INTERRUPTED \<and> w' = snd out \<or>
    (\<exists>e. x = Inl e) \<and> removed w' = removed (snd out)"
proof -
  obtain y v where out: "out = (y, v)" by (cases out)
  have v: "analysis_exists i v" using assms(2) out by simp
  consider e where "y = Inl (Raised e)" | cls m where "y = Inl (Crash cls m)"
    | "y = Inr INTERRUPTED" | "y = Inr COMPLETED"
    by (rule outcome_cases)
  then show ?thesis
  proof cases
    case 1
    then have eq: "fail_analysis cfg i c e v = (x, w')" using assms(1) out by (simp add: settle_run_def)
    show ?thesis
    proof (cases x)
      case (Inl e')
      have k: "keeps (\<lambda>u. removed u = removed v) (fail_analysis cfg i c e)"
        unfolding fail_analysis_def event_defs analysis_update_defs cleanup_def
        by (intro keeps_rules; simp)
      then have "removed w' = removed v" using keepsE [OF k _ eq] by simp
      then show ?thesis using Inl out by simp
    next
      case (Inr b)
      then show ?thesis using fail_analysis_Inr [OF eq [unfolded Inr] v] out by simp
    qed
  next
    case 4
    then have eq: "finish_analysis cfg i c v = (x, w')" using assms(1) out by (simp add: settle_run_def)
    show ?thesis
    proof (cases x)
      case (Inl e')
      then show ?thesis using finish_analysis_removes [OF eq v] out by simp
    next
      case (Inr b)
      then show ?thesis using finish_analysis_Inr [OF eq [unfolded Inr] v] out 4 by simp
    qed
  qed (use assms(1) out in \<open>simp_all add: settle_run_def\<close>)
qed

lemma row_of_id: "analysis_row_of i w = Some r \<Longrightarrow> row_id r = i"
  by (auto simp: analysis_row_of_def find_Some_iff)

lemma handle_analysis_outcome:
  assumes "handle_analysis cfg stages i stopping w = (x, w')"
  shows "(x = Inr True \<longrightarrow> status_of i w' = Some ''failed'' \<or> status_of i w' = Some ''done'') \<and>
    (removed w' = removed w \<or>
     x = Inr True \<and> status_of i w' = Some ''done'' \<and>
     removed w' = removed w @ [analysis_work_dir (cfg_storage_dir cfg) i, recording_source_path (cfg_storage_dir cfg) i])"
  using assms
proof (cases rule: handle_analysis_cases)
  case (early e)
  then show ?thesis by simp
next
  case (started r c w0)
  let ?out = "analysis_run cfg stages stopping (row_to_analysis_record r) c i w0"
  have "analysis_exists i w0" using started by (simp add: analysis_exists_def analysis_row_of_def)
  then have "removed (snd ?out) = removed w \<and> analysis_exists i (snd ?out)"
    using keepsD [OF keeps_run_other, of i w0 "rest i w0" "removed w"] started by simp
  then show ?thesis
    using settle_run_cases [OF started(8)] started(4,5) row_of_id [OF started(1)] by auto
qed

lemma handle_analysis_complete:
  assumes "handle_analysis cfg stages i stopping w = (Inr True, w')" and "status_of i w' = Some ''done''"
    and "analysis_row_of i w = Some r"
    and "\<forall>s \<in> set (flatten stages). names_own_result s"
  shows "stage_name ` set (flatten (stages_for_mode stages (Some (row_mode r)))) \<subseteq> dom (analysis_saved i w')"
  using assms(1)
proof (cases rule: handle_analysis_cases)
  case (started r' c w0)
  let ?a = "row_to_analysis_record r"
  let ?out = "analysis_run cfg stages stopping ?a c i w0"
  have r: "r' = r" using started(1) assms(3) by simp
  have e0: "analysis_exists i w0" using started by (simp add: analysis_exists_def analysis_row_of_def)
  have own: "\<forall>s \<in> runnable stages (ar_stages ?a) (Some (context_mode c)). names_own_result s"
    using assms(4) by (simp add: runnable_def)
  let ?todo = "flatten (remaining_entries (stages_for_mode stages (Some (context_mode c))) (ar_stages ?a))"
  obtain k qs where p: "map stage qs = map stage_name (take k ?todo)" "analysis_exists i (snd ?out)"
      "analysis_saved i (snd ?out) = fold (\<lambda>r m. m(stage r \<mapsto> r)) qs (analysis_saved i w0)"
      "fst ?out = Inr COMPLETED \<longrightarrow> length ?todo \<le> k"
    using analysis_run_progress [OF own e0, of cfg stopping] by blast
  have cases: "(status_of i w' = Some ''failed'') \<or>
      fst ?out = Inr COMPLETED \<and> dom (analysis_saved i w') = dom (analysis_saved i (snd ?out))"
    using settle_run_cases [OF started(8) [unfolded r] p(2)] by auto
  have dom_fold: "dom (fold (\<lambda>r m. m(stage r \<mapsto> r)) qs m) = dom m \<union> stage ` set qs" for m :: "string \<rightharpoonup> stage_result"
    by (induction qs arbitrary: m) auto
  have "stage ` set qs = set (map stage qs)" by simp
  also have "\<dots> = stage_name ` set ?todo" using p(1,4) cases assms(2) by (simp add: image_set del: set_map)
  finally have dom: "dom (analysis_saved i w') = dom (analysis_saved i w0) \<union> stage_name ` set ?todo"
    using cases assms(2) p(3) dom_fold by simp
  have "dom (analysis_saved i w0) = fst ` set (ar_stages ?a)"
    using started(3) assms(3)
    by (simp add: analysis_saved_def analysis_row_of_def row_to_analysis_record_def dom_map_of_conv_image_fst)
  then show ?thesis using dom started(6) r by (auto simp: flatten_remaining)
qed simp

text \<open>A small database with one queued analysis of a prepared song, and a worker nothing fails in.\<close>

definition no_faults :: faults where
  "no_faults = \<lparr>db_fault = (\<lambda>_. False), redis_fault = (\<lambda>_. False)\<rparr>"

definition demo_row :: "string \<Rightarrow> string \<Rightarrow> nat \<Rightarrow> analysis_row" where
  "demo_row i st n =
     \<lparr>row_id = i, row_user_id = ''u1'', row_song_id = ''s1'', row_status = st, row_stages_json = None,
      row_mode = Clean, row_allow_transposition = False, row_locale = En, row_current_stage = None,
      row_current_stage_index = None, row_total_stages = None, row_queue_position = None, row_queue_seq = n,
      row_error_code = None, row_aspect_scores = [], row_pitch_curve_json = None, row_user_pitch = None,
      row_scoring = None, row_model_versions = []\<rparr>"

definition demo_song :: song_row where
  "demo_song =
     \<lparr>song_row_id = ''s1'', song_content_hash = [], song_duration_sec = 3, song_prep_status = ''ready'',
      song_prep_stage = None, song_prep_error_code = None, song_vocal_stem_path = Some ''/stems/s1.wav'',
      song_reference_pitch = Some ([], \<lparr>meta_hop_seconds = 1, meta_length = 0, meta_engine = ''float32le''\<rparr>),
      song_lyrics_json = None, song_lyrics_available = False, song_prep_stages_json = None\<rparr>"

definition demo_db :: worker_state where
  "demo_db =
     \<lparr>environ = Map.empty, spawned = [], slept = [], analyses = [demo_row ''a1'' ''queued'' 1],
      songs = [demo_song], snapshots = [], transactions = 0, redis_calls = 0, published = [], run_stream = [],
      removed = []\<rparr>"

definition demo_cfg :: handler_config where
  "demo_cfg = \<lparr>cfg_faults = no_faults, cfg_fate = (\<lambda>_. Finishes), cfg_storage_dir = ''/audio'',
     cfg_f4 = (\<lambda>x. x), cfg_model_versions = []\<rparr>"

lemma demo_handled:
  "fst (handle_analysis demo_cfg [Single (demo_stage ''preprocess'')] ''a1'' (\<lambda>_. False) demo_db) = Inr True"
  "status_of ''a1'' (snd (handle_analysis demo_cfg [Single (demo_stage ''preprocess'')] ''a1'' (\<lambda>_. False) demo_db)) = Some ''done''"
  by code_simp+

section \<open>Properties\<close>



text \<open>
  C27: Handling one analysis never changes another analysis, any song, another analysis's point in
  the progress chart, or the stream, however it ends.
\<close>

theorem handle_analysis_isolated:
  "rest i (snd (handle_analysis cfg stages i stopping w)) = rest i w"
proof -
  have "keeps (\<lambda>v. rest i v = rest i w) (handle_analysis cfg stages i stopping)"
    by (rule keeps_handle_analysis) (simp_all add: rest_def other_rows_def filter_update)
  then show ?thesis by (rule keepsD) simp
qed

text \<open>
  C28: When an analysis is recorded as done, every stage of its mode has a result in its record.
\<close>

theorem done_has_every_stage:
  assumes "handle_analysis cfg stages i stopping w = (Inr True, w')" and "status_of i w' = Some ''done''"
    and "analysis_row_of i w = Some r"
    and "\<forall>s \<in> set (flatten stages). names_own_result s"
  shows "stage_name ` set (flatten (stages_for_mode stages (Some (row_mode r)))) \<subseteq> dom (analysis_saved i w')"
  using assms by (rule handle_analysis_complete)


theorem done_has_every_stage_witness:
  "''preprocess'' \<in> dom (analysis_saved ''a1''
     (snd (handle_analysis demo_cfg [Single (demo_stage ''preprocess'')] ''a1'' (\<lambda>_. False) demo_db)))"
proof -
  let ?out = "handle_analysis demo_cfg [Single (demo_stage ''preprocess'')] ''a1'' (\<lambda>_. False) demo_db"
  have "?out = (Inr True, snd ?out)" using demo_handled(1) by (cases ?out) simp
  moreover have "analysis_row_of ''a1'' demo_db = Some (demo_row ''a1'' ''queued'' 1)"
    by (simp add: analysis_row_of_def demo_db_def demo_row_def)
  moreover have "\<forall>s \<in> set (flatten [Single (demo_stage ''preprocess'' :: analysis_context pipeline_stage)]). names_own_result s"
    by (simp add: names_own_result_def demo_stage_def)
  ultimately show ?thesis
    using done_has_every_stage [OF _ demo_handled(2)]
    by (fastforce simp: stages_for_mode_def demo_stage_def)
qed

end
