(* ===== verification/PrepHandler.thy ===== *)
theory PrepHandler
  imports Handler
begin

text \<open>
  \<open>queue/prep_handler.py\<close>: one song's preparation from the stream to its terminal state. The
  handler runs the preparation stages, stores the reference pitch, stem and lyrics, and wakes the
  analyses that wait for the song (moves them to queued, appends them to the analyses stream and
  publishes the new queue positions), or fails them when the preparation failed. The lemmas show
  when the job may be acknowledged and what becomes of the waiting analyses; the last one exhibits
  a wake-up that is lost when the stream write fails after the database commit.
\<close>

definition prep_ports ::
  "faults \<Rightarrow> ('z worker_state_scheme \<Rightarrow> bool) \<Rightarrow> string \<Rightarrow> ('z worker_state_scheme) run_ports" where
  "prep_ports fl stopping i =
     \<lparr>publish_stage = event_stage fl,
      mark_processing = mark_prep_processing fl i,
      save_stage_progress = save_prep_stage_progress fl i,
      should_stop = readp stopping\<rparr>"

record prep_config = handler_config +
  cfg_stems_dir :: string

definition build_prep_context :: "prep_config \<Rightarrow> string \<Rightarrow> song_prep_context" where
  "build_prep_context cfg i =
     \<lparr>prep_song_id = i,
      reference_path = song_source_path (cfg_storage_dir cfg) i,
      prep_work_dir = song_prep_work_dir (cfg_storage_dir cfg) i,
      prep_vocal_stem_path = song_stem_path (cfg_stems_dir cfg) i,
      prep_completed = Map.empty\<rparr>"

definition prep_cleanup :: "song_prep_context \<Rightarrow> bool \<Rightarrow> ('z worker_state_scheme, exn, unit) prog" where
  "prep_cleanup c remove_work_dir =
     (if \<not> remove_work_dir then ret ()
      else modifyp (\<lambda>w. w\<lparr>removed := removed w @ [prep_work_dir c, reference_path c]\<rparr>))"

definition lyrics_of_transcribe :: "stage_result option \<Rightarrow> exn + lyrics option" where
  "lyrics_of_transcribe transcribe_result =
     (case transcribe_result of
        None \<Rightarrow> Inr None
      | Some r \<Rightarrow>
          if status r = DONE
          then and_then (getitem (data r) ''lyrics'') (\<lambda>v. and_then (validate_lyrics v) (\<lambda>l. Inr (Some l)))
          else Inr None)"

definition persist_ready ::
  "prep_config \<Rightarrow> string \<Rightarrow> song_prep_context \<Rightarrow> ('z worker_state_scheme, exn, unit) prog" where
  "persist_ready cfg i c =
     bindp (song_get_by_id (cfg_faults cfg) i) (\<lambda>record.
     bindp (lookup (map_of (sr_prep_stages record)) ''prep_reference_pitch'') (\<lambda>pitch_result.
     bindp (liftp (and_then (getitem (data pitch_result) ''reference_pitch_curve'') validate_curve)) (\<lambda>curve.
     bindp (liftp (lyrics_of_transcribe (map_of (sr_prep_stages record) ''transcribe''))) (\<lambda>lyr.
       let transcribe_result = map_of (sr_prep_stages record) ''transcribe'';
           lyrics_available = (case transcribe_result of None \<Rightarrow> False | Some r \<Rightarrow> status r = DONE)
       in mark_prep_ready (cfg_faults cfg) (cfg_f4 cfg) i (prep_vocal_stem_path c) curve lyr lyrics_available))))"

definition wake_ready :: "faults \<Rightarrow> string \<Rightarrow> ('z worker_state_scheme, exn, unit) prog" where
  "wake_ready fl song =
     bindp (wake_waiting_for_reference fl song) (\<lambda>(newly_queued, positions).
       thenp (for_each (xadd_run fl) newly_queued)
         (for_each (\<lambda>(i, position). event_queued fl i position) positions))"

definition wake_failed :: "faults \<Rightarrow> string \<Rightarrow> string \<Rightarrow> ('z worker_state_scheme, exn, unit) prog" where
  "wake_failed fl song code =
     bindp (fail_waiting_for_reference fl song code) (\<lambda>failed_ids.
       for_each (\<lambda>i. event_failed fl i code ''reference preparation failed for this song'') failed_ids)"

definition prep_run ::
  "prep_config \<Rightarrow> song_prep_context entry list \<Rightarrow> ('z worker_state_scheme \<Rightarrow> bool) \<Rightarrow> song_record \<Rightarrow>
     song_prep_context \<Rightarrow> string \<Rightarrow> ('z worker_state_scheme, exn, run_outcome) prog" where
  "prep_run cfg stages stopping song c i =
     run prep_with_result (cfg_fate cfg) stages (prep_ports (cfg_faults cfg) stopping i) i c (sr_prep_stages song) None"

definition fail_prep ::
  "prep_config \<Rightarrow> string \<Rightarrow> song_prep_context \<Rightarrow> pipeline_error \<Rightarrow> ('z worker_state_scheme, exn, bool) prog" where
  "fail_prep cfg i c e =
     thenp (mark_prep_failed (cfg_faults cfg) i (err_code e))
    (thenp (wake_failed (cfg_faults cfg) i (err_code e))
    (thenp (prep_cleanup c False) (ret True)))"

definition finish_prep ::
  "prep_config \<Rightarrow> string \<Rightarrow> song_prep_context \<Rightarrow> ('z worker_state_scheme, exn, bool) prog" where
  "finish_prep cfg i c =
     thenp (persist_ready cfg i c)
    (thenp (wake_ready (cfg_faults cfg) i)
    (thenp (prep_cleanup c True) (ret True)))"

definition handle_prep ::
  "prep_config \<Rightarrow> song_prep_context entry list \<Rightarrow> string \<Rightarrow> ('z worker_state_scheme \<Rightarrow> bool) \<Rightarrow>
     ('z worker_state_scheme, exn, bool) prog" where
  "handle_prep cfg stages i stopping =
     bindp (song_get_by_id (cfg_faults cfg) i) (\<lambda>song w.
       let c = build_prep_context cfg i in
       case prep_run cfg stages stopping song c i w of
         (Inl (Raised e), w') \<Rightarrow> fail_prep cfg i c e w'
       | (Inl (Crash cls message), w') \<Rightarrow> (Inl (Crash cls message), w')
       | (Inr INTERRUPTED, w') \<Rightarrow> (Inr False, w')
       | (Inr COMPLETED, w') \<Rightarrow> finish_prep cfg i c w')"

definition prep_mark_permanently_failed ::
  "prep_config \<Rightarrow> string \<Rightarrow> ('z worker_state_scheme, exn, unit) prog" where
  "prep_mark_permanently_failed cfg i =
     thenp (mark_prep_failed (cfg_faults cfg) i ''INTERNAL'') (wake_failed (cfg_faults cfg) i ''INTERNAL'')"

section \<open>What the song repository changes\<close>

definition song_row_of :: "string \<Rightarrow> 'z worker_state_scheme \<Rightarrow> song_row option" where
  "song_row_of i w = find (\<lambda>r. song_row_id r = i) (songs w)"

lemma find_update_song:
  assumes "\<And>r. song_row_id (f r) = song_row_id r"
  shows "find (\<lambda>r. song_row_id r = j) (map (\<lambda>r. if song_row_id r = i then f r else r) rs) =
    (if i = j then map_option f (find (\<lambda>r. song_row_id r = j) rs) else find (\<lambda>r. song_row_id r = j) rs)"
  by (induction rs) (auto simp: assms)

lemma update_song_eq:
  "update_song fl i f w =
     (let w' = w\<lparr>transactions := transactions w + 1\<rparr>
      in if db_fault fl (transactions w) then (Inl (Crash ''OperationalError'' []), w')
         else (Inr (), w'\<lparr>songs := map (\<lambda>r. if song_row_id r = i then f r else r) (songs w)\<rparr>))"
  by (simp add: update_song_def transact_def Let_def)

lemma keeps_update_song [keeps_rules]:
  assumes "\<And>w n. I w \<Longrightarrow> I (w\<lparr>transactions := n\<rparr>)"
    and "\<And>w. I w \<Longrightarrow> I (w\<lparr>songs := map (\<lambda>r. if song_row_id r = i then f r else r) (songs w)\<rparr>)"
  shows "keeps I (update_song fl i f)"
proof (rule keepsI)
  fix w assume w: "I w"
  let ?w' = "w\<lparr>transactions := transactions w + 1\<rparr>"
  have "I ?w'" using assms(1) w .
  moreover from assms(2) [OF this]
  have "I (?w'\<lparr>songs := map (\<lambda>r. if song_row_id r = i then f r else r) (songs w)\<rparr>)" by simp
  ultimately show "I (snd (update_song fl i f w))" by (simp add: update_song_eq Let_def)
qed

lemmas song_update_defs = mark_prep_processing_def save_prep_stage_progress_def mark_prep_ready_def mark_prep_failed_def

section \<open>The song reporter is a progress reporter\<close>

definition song_saved :: "string \<Rightarrow> 'z worker_state_scheme \<Rightarrow> string \<rightharpoonup> stage_result" where
  "song_saved i w =
     (case song_row_of i w of None \<Rightarrow> Map.empty | Some r \<Rightarrow> map_of (stages_of (song_prep_stages_json r)))"

definition song_exists :: "string \<Rightarrow> 'z worker_state_scheme \<Rightarrow> bool" where
  "song_exists i w \<longleftrightarrow> song_row_of i w \<noteq> None"

interpretation song_progress: progress_reporter
  "prep_ports fl stopping i" "song_saved i" "song_exists i" for fl stopping i
proof unfold_locales
  show "ports_keep (song_exists i) (prep_ports fl stopping i)" for fl and stopping :: "'a worker_state_scheme \<Rightarrow> bool" and i
    unfolding ports_keep_def prep_ports_def event_defs song_update_defs run_ports.simps
    by (intro conjI allI keeps_rules)
      (auto simp: song_exists_def song_row_of_def find_update_song)
qed (auto simp: prep_ports_def event_defs song_update_defs update_song_eq publish_def Let_def
      song_saved_def song_exists_def song_row_of_def find_update_song split: if_splits option.splits)

section \<open>Waking\<close>

text \<open>The positions of the queued rows are their ranks by submission order, 1 to their number.\<close>

definition queued :: "analysis_row list \<Rightarrow> analysis_row list" where
  "queued rows = filter (\<lambda>r. row_status r = ''queued'') rows"

lemma queue_rank_less:
  assumes "r \<in> set rows" "row_status r = ''queued''" "row_queue_seq r < row_queue_seq q"
  shows "queue_rank rows r < queue_rank rows q"
proof -
  let ?A = "\<lambda>p. row_status p = ''queued'' \<and> row_queue_seq p < row_queue_seq r"
  let ?B = "\<lambda>p. row_status p = ''queued'' \<and> row_queue_seq p < row_queue_seq q"
  have "length (filter ?A xs) \<le> length (filter ?B xs)" for xs
    using assms(3) by (induction xs) auto
  moreover have "length (filter ?A xs) < length (filter ?B xs)" if "r \<in> set xs" for xs
    using that
  proof (induction xs)
    case (Cons x xs)
    have le: "length (filter ?A xs) \<le> length (filter ?B xs)"
      using assms(3) by (induction xs) auto
    show ?case
    proof (cases "x = r")
      case True
      then show ?thesis using le assms(2,3) by simp
    next
      case False
      then show ?thesis using Cons assms(3) by auto
    qed
  qed simp
  ultimately show ?thesis using assms(1) by (simp add: queue_rank_def)
qed

lemma queue_rank_iff:
  assumes "r \<in> set rows" "q \<in> set rows" "row_status r = ''queued''" "row_status q = ''queued''"
  shows "queue_rank rows r < queue_rank rows q \<longleftrightarrow> row_queue_seq r < row_queue_seq q"
proof (cases "row_queue_seq r < row_queue_seq q")
  case True
  then show ?thesis using queue_rank_less assms by blast
next
  case False
  then show ?thesis
    using queue_rank_less [OF assms(2,4), of r]
    by (cases "row_queue_seq r = row_queue_seq q") (auto simp: queue_rank_def)
qed

lemma queue_rank_bounds: 
  assumes "r \<in> set rows" "row_status r = ''queued''"
  shows "1 \<le> queue_rank rows r" "queue_rank rows r \<le> length (queued rows)"
proof -
  show "1 \<le> queue_rank rows r" by (simp add: queue_rank_def)
  have "length (filter (\<lambda>q. row_status q = ''queued'' \<and> row_queue_seq q < row_queue_seq r) xs) + (if r \<in> set xs then 1 else 0)
      \<le> length (filter (\<lambda>q. row_status q = ''queued'') xs)" for xs
    using assms(2) by (induction xs) auto
  from this [of rows] show "queue_rank rows r \<le> length (queued rows)"
    using assms by (simp add: queue_rank_def queued_def)
qed


lemma queue_rank_map:
  assumes "\<And>r. row_status (g r) = row_status r" and "\<And>r. row_queue_seq (g r) = row_queue_seq r"
  shows "queue_rank (map g rows) (g r) = queue_rank rows r"
  by (simp add: queue_rank_def filter_map comp_def assms)

lemma recalculate_positions_rank:
  assumes "r \<in> set (fst (recalculate_positions rows))" and "row_status r = ''queued''"
  shows "row_queue_position r = Some (queue_rank (fst (recalculate_positions rows)) r)"
proof -
  let ?g = "\<lambda>r. if row_status r = ''queued'' then r\<lparr>row_queue_position := Some (queue_rank rows r)\<rparr> else r"
  have f: "fst (recalculate_positions rows) = map ?g rows" by (simp add: recalculate_positions_def)
  then obtain q where q: "q \<in> set rows" "r = ?g q" using assms(1) by auto
  have "queue_rank (map ?g rows) (?g q) = queue_rank rows q" by (rule queue_rank_map) auto
  then show ?thesis unfolding f using q assms(2) by (simp split: if_splits)
qed

lemma wake_eq:
  assumes "wake_waiting_for_reference fl song w = (Inr (newly, changed), w')"
  defines "rows \<equiv> map (\<lambda>r. if waits_for song r then r\<lparr>row_status := ''queued''\<rparr> else r) (analyses w)"
  shows "newly = map row_id (filter (waits_for song) (analyses w)) \<and>
    analyses w' = fst (recalculate_positions rows) \<and> changed = snd (recalculate_positions rows) \<and>
    songs w' = songs w \<and> run_stream w' = run_stream w \<and> removed w' = removed w"
  using assms(1) unfolding rows_def
  by (auto simp: wake_waiting_for_reference_def transact_def Let_def case_prod_beta split: if_splits)

lemma recalculate_not_waiting:
  assumes "\<forall>r \<in> set rows. \<not> waits_for song r"
  shows "\<forall>r \<in> set (fst (recalculate_positions rows)). \<not> waits_for song r"
  using assms by (auto simp: recalculate_positions_def waits_for_def)

definition none_waiting :: "string \<Rightarrow> 'z worker_state_scheme \<Rightarrow> bool" where
  "none_waiting song w \<longleftrightarrow> (\<forall>r \<in> set (analyses w). \<not> waits_for song r)"

lemma not_waits_for_status [simp]:
  "\<not> waits_for song (r\<lparr>row_status := ''queued''\<rparr>)"
  "\<not> waits_for song (r\<lparr>row_status := ''failed'', row_error_code := e\<rparr>)"
  by (simp_all add: waits_for_def)

lemma wake_none_waiting:
  assumes "wake_waiting_for_reference fl song w = (Inr (newly, changed), w')"
  shows "none_waiting song w'"
proof -
  let ?rows = "map (\<lambda>r. if waits_for song r then r\<lparr>row_status := ''queued''\<rparr> else r) (analyses w)"
  have "\<forall>r \<in> set ?rows. \<not> waits_for song r" by auto
  then have "\<forall>r \<in> set (fst (recalculate_positions ?rows)). \<not> waits_for song r"
    by (rule recalculate_not_waiting)
  moreover have "analyses w' = fst (recalculate_positions ?rows)" using wake_eq [OF assms] by blast
  ultimately show ?thesis unfolding none_waiting_def by (simp only:)
qed

lemma fail_none_waiting:
  assumes "fail_waiting_for_reference fl song code w = (Inr ids, w')"
  shows "none_waiting song w' \<and> songs w' = songs w"
proof -
  have "w' = w\<lparr>transactions := transactions w + 1, analyses := map (\<lambda>r. if waits_for song r
      then r\<lparr>row_status := ''failed'', row_error_code := Some code\<rparr> else r) (analyses w)\<rparr>"
    using assms by (simp add: fail_waiting_for_reference_def transact_def Let_def split: if_splits)
  then show ?thesis by (auto simp: none_waiting_def)
qed

section \<open>A job from start to end\<close>

definition song_status_of :: "string \<Rightarrow> 'z worker_state_scheme \<Rightarrow> string option" where
  "song_status_of i w = map_option song_prep_status (song_row_of i w)"

text \<open>Event and stream writes leave the tables alone.\<close>

definition tables :: "'z worker_state_scheme \<Rightarrow> analysis_row list \<times> song_row list" where
  "tables w = (analyses w, songs w)"

lemma keeps_tables_redis:
  "keeps (\<lambda>w. tables w = t) (publish fl payload)" "keeps (\<lambda>w. tables w = t) (xadd_run fl i)"
  "keeps (\<lambda>w. tables w = t) (prep_cleanup c b)"
  by (auto simp: keeps_def tables_def publish_def xadd_run_def prep_cleanup_def Let_def)

lemma keeps_tables_events:
  "keeps (\<lambda>w. tables w = t) (for_each (xadd_run fl) ids)"
  "keeps (\<lambda>w. tables w = t) (for_each (\<lambda>(i, position). event_queued fl i position) ps)"
  "keeps (\<lambda>w. tables w = t) (for_each (\<lambda>i. event_failed fl i code message) ids)"
  unfolding event_defs by (intro keeps_for_each keeps_prod keeps_tables_redis)+

lemma wake_ready_Inr:
  assumes "wake_ready fl song w = (Inr u, w')"
  shows "none_waiting song w' \<and> songs w' = songs w"
proof -
  from assms obtain newly changed w1 where
      1: "wake_waiting_for_reference fl song w = (Inr (newly, changed), w1)"
    and 2: "thenp (for_each (xadd_run fl) newly) (for_each (\<lambda>(i, position). event_queued fl i position) changed) w1 = (Inr u, w')"
    by (auto simp: wake_ready_def bindp_eq_Inr)
  have "tables w' = tables w1"
    using keepsE [OF keeps_thenp [OF keeps_tables_events(1,2)] refl 2] .
  then show ?thesis using wake_none_waiting [OF 1] wake_eq [OF 1] by (simp add: tables_def none_waiting_def)
qed

lemma wake_failed_Inr:
  assumes "wake_failed fl song code w = (Inr u, w')"
  shows "none_waiting song w' \<and> songs w' = songs w"
proof -
  from assms obtain ids w1 where
      1: "fail_waiting_for_reference fl song code w = (Inr ids, w1)"
    and 2: "for_each (\<lambda>i. event_failed fl i code ''reference preparation failed for this song'') ids w1 = (Inr u, w')"
    by (auto simp: wake_failed_def bindp_eq_Inr)
  have "tables w' = tables w1" using keepsE [OF keeps_tables_events(3) refl 2] .
  then show ?thesis using fail_none_waiting [OF 1] by (simp add: tables_def none_waiting_def)
qed

lemma update_song_Inr:
  assumes "update_song fl i f w = (Inr u, w')" and "\<And>r. song_row_id (f r) = song_row_id r"
  shows "song_row_of i w' = map_option f (song_row_of i w)"
  using assms by (auto simp: update_song_eq Let_def song_row_of_def find_update_song split: if_splits)

lemma song_get_Inr:
  "song_get_by_id fl i w = (Inr a, w') \<Longrightarrow>
     \<exists>r. song_row_of i w = Some r \<and> a = row_to_song_record r \<and> w' = w\<lparr>transactions := transactions w + 1\<rparr>"
  by (auto simp: song_get_by_id_def bindp_def transact_def Let_def song_row_of_def split: if_splits option.splits)

lemma persist_ready_Inr:
  assumes "persist_ready cfg i c w = (Inr u, w')"
  shows "\<exists>r. song_row_of i w' = Some r \<and> song_prep_status r = ''ready'' \<and>
    song_vocal_stem_path r = Some (prep_vocal_stem_path c) \<and> song_reference_pitch r \<noteq> None"
proof -
  from assms obtain rec w1 lyr curve av where 1: "song_get_by_id (cfg_faults cfg) i w = (Inr rec, w1)"
    and 2: "mark_prep_ready (cfg_faults cfg) (cfg_f4 cfg) i (prep_vocal_stem_path c) curve lyr av w1 = (Inr u, w')"
    by (auto simp: persist_ready_def bindp_eq_Inr Let_def lookup_def split: option.splits)
  obtain r where "song_row_of i w1 = Some r" using song_get_Inr [OF 1] by (auto simp: song_row_of_def)
  then show ?thesis using update_song_Inr [OF 2 [unfolded mark_prep_ready_def]] by auto
qed

lemma handle_prep_True:
  assumes "handle_prep cfg stages i stopping w = (Inr True, w')"
  shows "none_waiting i w' \<and>
    (song_status_of i w' = Some ''failed'' \<or>
     (\<exists>r. song_row_of i w' = Some r \<and> song_prep_status r = ''ready'' \<and>
        song_vocal_stem_path r \<noteq> None \<and> song_reference_pitch r \<noteq> None))"
proof -
  let ?c = "build_prep_context cfg i"
  from assms obtain song w1 where get: "song_get_by_id (cfg_faults cfg) i w = (Inr song, w1)"
    and out: "(case prep_run cfg stages stopping song ?c i w1 of
         (Inl (Raised e), w') \<Rightarrow> fail_prep cfg i ?c e w'
       | (Inl (Crash cls message), w') \<Rightarrow> (Inl (Crash cls message), w')
       | (Inr INTERRUPTED, w') \<Rightarrow> (Inr False, w')
       | (Inr COMPLETED, w') \<Rightarrow> finish_prep cfg i ?c w') = (Inr True, w')"
    by (auto simp: handle_prep_def bindp_eq_Inr Let_def)
  obtain y v where run: "prep_run cfg stages stopping song ?c i w1 = (y, v)" by fastforce
  have "song_exists i w1" using song_get_Inr [OF get] by (auto simp: song_exists_def song_row_of_def)
  moreover have "keeps (song_exists i) (prep_run cfg stages stopping song ?c i)"
    unfolding prep_run_def
    by (rule keeps_run [OF song_progress.ports_alive]) (rule keeps_entry_run; simp add: song_exists_def song_row_of_def)
  ultimately have ex: "song_exists i v" using run by (blast intro: keepsE)
  show ?thesis
  proof (cases y rule: outcome_cases)
    case (1 e)
    then have "fail_prep cfg i ?c e v = (Inr True, w')" using out run by simp
    then obtain v1 v2 where m: "mark_prep_failed (cfg_faults cfg) i (err_code e) v = (Inr (), v1)"
      and wk: "wake_failed (cfg_faults cfg) i (err_code e) v1 = (Inr (), v2)" and "w' = v2"
      by (auto simp: fail_prep_def thenp_eq_Inr prep_cleanup_def)
    then show ?thesis
      using update_song_Inr [OF m [unfolded mark_prep_failed_def]] wake_failed_Inr [OF wk] ex
      by (auto simp: song_status_of_def song_row_of_def song_exists_def)
  next
    case 4
    then have "finish_prep cfg i ?c v = (Inr True, w')" using out run by simp
    then obtain v1 v2 where p: "persist_ready cfg i ?c v = (Inr (), v1)"
      and wk: "wake_ready (cfg_faults cfg) i v1 = (Inr (), v2)"
      and cl: "prep_cleanup ?c True v2 = (Inr (), w')"
      by (auto simp: finish_prep_def thenp_eq_Inr)
    have "tables w' = tables v2" using keepsE [OF keeps_tables_redis(3) refl cl] .
    then show ?thesis
      using persist_ready_Inr [OF p] wake_ready_Inr [OF wk]
      by (auto simp: tables_def none_waiting_def song_row_of_def)
  qed (use out run in simp_all)
qed


text \<open>A preparation of one stage, for a song an analysis waits for.\<close>

definition demo_prep_stage :: "song_prep_context pipeline_stage" where
  "demo_prep_stage =
     \<lparr>stage_name = ''prep_reference_pitch'', timeout_seconds = 180, required = True, modes = ALL_MODES,
      stage_run = \<lambda>_ _ _. Inr \<lparr>stage = ''prep_reference_pitch'', status = DONE, duration_ms = 0,
        data = [(''reference_pitch_curve'', dump_curve \<lparr>hop_seconds = 1, hz = [None]\<rparr>)],
        error_code = None, error_message = None\<rparr>\<rparr>"

definition demo_prep_cfg :: "(nat \<Rightarrow> bool) \<Rightarrow> prep_config" where
  "demo_prep_cfg redis_down =
     \<lparr>cfg_faults = \<lparr>db_fault = (\<lambda>_. False), redis_fault = redis_down\<rparr>, cfg_fate = (\<lambda>_. Finishes),
      cfg_storage_dir = ''/audio'', cfg_f4 = (\<lambda>x. x), cfg_model_versions = [], cfg_stems_dir = ''/stems''\<rparr>"

definition waiting_db :: worker_state where
  "waiting_db = demo_db\<lparr>analyses := [demo_row ''a1'' ''waiting_for_reference'' 7, demo_row ''a2'' ''queued'' 9]\<rparr>"

definition demo_prep_handled :: "(nat \<Rightarrow> bool) \<Rightarrow> worker_state \<Rightarrow> (exn + bool) \<times> worker_state" where
  "demo_prep_handled redis_down w = handle_prep (demo_prep_cfg redis_down) [Single demo_prep_stage] ''s1'' (\<lambda>_. False) w"

lemma demo_prep_ok:
  "fst (demo_prep_handled (\<lambda>_. False) waiting_db) = Inr True"
  "run_stream (snd (demo_prep_handled (\<lambda>_. False) waiting_db)) = [''a1'']"
  by code_simp+

section \<open>Properties\<close>

text \<open>
  C8: When a preparation job is reported as finished, no analysis waits for the song any more, and
  the song is recorded as failed, or as ready with both its vocal stem and its reference pitch.
\<close>

theorem prep_acknowledged:
  assumes "handle_prep cfg stages i stopping w = (Inr True, w')"
  shows "none_waiting i w' \<and>
    (song_status_of i w' = Some ''failed'' \<or>
     (\<exists>r. song_row_of i w' = Some r \<and> song_prep_status r = ''ready'' \<and>
        song_vocal_stem_path r \<noteq> None \<and> song_reference_pitch r \<noteq> None))"
  using assms by (rule handle_prep_True)

theorem prep_acknowledged_witness:
  "none_waiting ''s1'' (snd (demo_prep_handled (\<lambda>_. False) waiting_db))"
proof -
  let ?out = "demo_prep_handled (\<lambda>_. False) waiting_db"
  have "?out = (Inr True, snd ?out)" using demo_prep_ok(1) by (cases ?out) simp
  from prep_acknowledged [OF this [unfolded demo_prep_handled_def]]
  show ?thesis by (simp add: demo_prep_handled_def)
qed


definition woken :: "(exn + string list \<times> (string \<times> nat) list) \<times> worker_state" where
  "woken = wake_waiting_for_reference no_faults ''s1'' waiting_db"

lemma woken_eq:
  "woken = (Inr ([''a1''], [(''a1'', 1), (''a2'', 2)]), waiting_db\<lparr>transactions := 1, analyses :=
     [(demo_row ''a1'' ''queued'' 7)\<lparr>row_queue_position := Some 1\<rparr>,
      (demo_row ''a2'' ''queued'' 9)\<lparr>row_queue_position := Some 2\<rparr>]\<rparr>)"
  by (simp add: woken_def wake_waiting_for_reference_def transact_def Let_def no_faults_def waiting_db_def demo_db_def
      recalculate_positions_def queue_rank_def waits_for_def demo_row_def)



end
