(* ===== verification/Consumer.thy ===== *)
theory Consumer
  imports PrepHandler
begin

text \<open>
  \<open>queue/consumer.py\<close>: the consumer of one Redis stream. The Redis client is a parameter, a
  record of the calls the code makes; a reply error is a \<open>ResponseError\<close> with Redis's message. The
  job handler is a parameter too, and the locale \<open>job_handler\<close> is its contract: a job it reports
  as finished, or gives up on, is recorded in a terminal state. Both job handlers satisfy it.
\<close>

section \<open>The client\<close>

type_synonym fields = "(string \<times> string) list"
type_synonym stream_entry = "string \<times> fields"
type_synonym read_reply = "(string \<times> stream_entry list) list"

record pending_entry =
  message_id :: string
  times_delivered :: nat

record 'w redis_client =
  xgroup_create :: "('w, exn, unit) prog"
  xreadgroup :: "nat \<Rightarrow> nat \<Rightarrow> ('w, exn, read_reply) prog"
  xpending_own :: "nat \<Rightarrow> ('w, exn, pending_entry list) prog"
  xpending_idle :: "nat \<Rightarrow> nat \<Rightarrow> ('w, exn, pending_entry list) prog"
  xrange :: "string \<Rightarrow> ('w, exn, stream_entry list) prog"
  xclaim :: "nat \<Rightarrow> string \<Rightarrow> ('w, exn, stream_entry list) prog"
  xack :: "string \<Rightarrow> ('w, exn, unit) prog"
  xdel :: "string \<Rightarrow> ('w, exn, unit) prog"

record 'w job_handler =
  handle :: "string \<Rightarrow> ('w \<Rightarrow> bool) \<Rightarrow> ('w, exn, bool) prog"
  mark_permanently_failed :: "string \<Rightarrow> ('w, exn, unit) prog"

record 'w consumer =
  client :: "'w redis_client"
  handler :: "'w job_handler"
  reclaim_min_idle_seconds :: nat
  max_claim_attempts :: nat

definition BLOCK_MS :: nat where "BLOCK_MS = 5000"

definition RECLAIM_BATCH_SIZE :: nat where "RECLAIM_BATCH_SIZE = 100"

definition PENDING_CLAIM_MIN_IDLE :: nat where "PENDING_CLAIM_MIN_IDLE = 20 * 60"

definition SONGS_PREP_PENDING_CLAIM_MIN_IDLE :: nat where "SONGS_PREP_PENDING_CLAIM_MIN_IDLE = 20 * 60"

definition MAX_CLAIM_ATTEMPTS :: nat where "MAX_CLAIM_ATTEMPTS = 3"

text \<open>\<open>sub in s\<close>.\<close>

fun contains :: "string \<Rightarrow> string \<Rightarrow> bool" where
  "contains s [] = (s = [])"
| "contains s (c # cs) = (take (length s) (c # cs) = s \<or> contains s cs)"

section \<open>The operations\<close>

text \<open>\<open>except redis.ResponseError as exc: if mark not in str(exc): raise\<close>, else the recovery.\<close>

definition on_response_error ::
  "string \<Rightarrow> ('w, exn, 'a) prog \<Rightarrow> ('w, exn, 'a) prog \<Rightarrow> ('w, exn, 'a) prog" where
  "on_response_error mark recovery m =
     handlep m (\<lambda>e. case e of
         Crash cls message \<Rightarrow>
           if cls = ''ResponseError'' \<and> contains mark message then recovery else throw e
       | Raised p \<Rightarrow> throw e)"

definition ensure_group :: "'w consumer \<Rightarrow> ('w, exn, unit) prog" where
  "ensure_group c = on_response_error ''BUSYGROUP'' (ret ()) (xgroup_create (client c))"

definition read_next :: "'w consumer \<Rightarrow> nat option \<Rightarrow> ('w, exn, read_reply) prog" where
  "read_next c block_ms =
     on_response_error ''NOGROUP'' (thenp (ensure_group c) (ret []))
       (xreadgroup (client c) 1 (case block_ms of None \<Rightarrow> BLOCK_MS | Some b \<Rightarrow> b))"

definition ack_and_remove :: "'w consumer \<Rightarrow> string \<Rightarrow> ('w, exn, unit) prog" where
  "ack_and_remove c entry_id = thenp (xack (client c) entry_id) (xdel (client c) entry_id)"

text \<open>\<open>fields.get("job_id")\<close>, with a missing and an empty id alike.\<close>

definition job_id_of :: "fields \<Rightarrow> string option" where
  "job_id_of fs = (case map_of fs ''job_id'' of Some j \<Rightarrow> if j = [] then None else Some j | None \<Rightarrow> None)"

definition process_entry :: "'w consumer \<Rightarrow> string \<Rightarrow> fields \<Rightarrow> ('w \<Rightarrow> bool) \<Rightarrow> ('w, exn, unit) prog" where
  "process_entry c entry_id fs stopping =
     (case job_id_of fs of
        None \<Rightarrow> ack_and_remove c entry_id
      | Some job_id \<Rightarrow> (\<lambda>w.
          (case handle (handler c) job_id stopping w of
             (Inl e, w') \<Rightarrow> (Inr (), w')
           | (Inr terminal, w') \<Rightarrow> if terminal then ack_and_remove c entry_id w' else (Inr (), w'))))"

definition claim_new_entries :: "'w consumer \<Rightarrow> ('w, exn, unit) prog" where
  "claim_new_entries c = bindp (xreadgroup (client c) RECLAIM_BATCH_SIZE 1) (\<lambda>_. ret ())"

definition pending_entries :: "'w consumer \<Rightarrow> ('w, exn, pending_entry list) prog" where
  "pending_entries c = xpending_own (client c) RECLAIM_BATCH_SIZE"

definition fields_for :: "'w consumer \<Rightarrow> string \<Rightarrow> ('w, exn, fields option) prog" where
  "fields_for c entry_id =
     bindp (xrange (client c) entry_id) (\<lambda>messages.
       ret (case messages of [] \<Rightarrow> None | m # _ \<Rightarrow> Some (snd m)))"

definition give_up :: "'w consumer \<Rightarrow> string \<Rightarrow> ('w, exn, unit) prog" where
  "give_up c entry_id =
     bindp (fields_for c entry_id) (\<lambda>fs.
       thenp (case fs of
                None \<Rightarrow> ret ()
              | Some f \<Rightarrow>
                  (case job_id_of f of
                     None \<Rightarrow> ret ()
                   | Some job_id \<Rightarrow> handlep (mark_permanently_failed (handler c) job_id) (\<lambda>_. ret ())))
         (ack_and_remove c entry_id))"

definition reclaim_entry :: "'w consumer \<Rightarrow> pending_entry \<Rightarrow> ('w, exn, unit) prog" where
  "reclaim_entry c entry =
     (if times_delivered entry > max_claim_attempts c then give_up c (message_id entry)
      else bindp (xclaim (client c) (reclaim_min_idle_seconds c * 1000) (message_id entry)) (\<lambda>claimed.
        for_each (\<lambda>(claimed_id, fs). process_entry c claimed_id fs (\<lambda>_. False)) claimed))"

definition reclaim_stuck_jobs :: "'w consumer \<Rightarrow> ('w, exn, unit) prog" where
  "reclaim_stuck_jobs c =
     bindp (xpending_idle (client c) (reclaim_min_idle_seconds c * 1000) RECLAIM_BATCH_SIZE) (\<lambda>pending.
       for_each (reclaim_entry c) pending)"

section \<open>The contract of a job handler\<close>

text \<open>
  A finished job is recorded in a terminal state; so is one the handler gave up on, if its
  record exists at all.
\<close>

locale job_handler =
  fixes h :: "'w job_handler" and recorded :: "string \<Rightarrow> 'w \<Rightarrow> bool"
  assumes finished_recorded: "handle h j stopping w = (Inr True, w') \<Longrightarrow> recorded j w'"
    and given_up_recorded: "mark_permanently_failed h j w = (Inr (), w') \<Longrightarrow> recorded j w'"
begin

text \<open>
  An entry with a job is acknowledged only in a state that records the job; otherwise the entry
  is not touched after the handler returns, and nothing is raised.
\<close>

lemma process_acks_recorded:
  assumes "handler c = h" and "job_id_of fs = Some j"
  shows "\<exists>w1. w1 = snd (handle h j stopping w) \<and>
    (process_entry c entry_id fs stopping w = (Inr (), w1) \<and> fst (handle h j stopping w) \<noteq> Inr True \<or>
     process_entry c entry_id fs stopping w = ack_and_remove c entry_id w1 \<and> recorded j w1)"
proof -
  obtain x w1 where m: "handle h j stopping w = (x, w1)" by fastforce
  show ?thesis
  proof (cases x)
    case (Inl e)
    then show ?thesis using m assms by (simp add: process_entry_def)
  next
    case (Inr b)
    then show ?thesis using m assms finished_recorded [of j stopping w w1]
      by (cases b) (simp_all add: process_entry_def)
  qed
qed

text \<open>Giving up always ends in the acknowledgement, whatever the handler does.\<close>

lemma give_up_acks:
  assumes "handler c = h" and "fields_for c entry_id w = (Inr (Some fs), w1)" and "job_id_of fs = Some j"
  shows "\<exists>w2. w2 = snd (mark_permanently_failed h j w1) \<and>
    give_up c entry_id w = ack_and_remove c entry_id w2 \<and>
    ((\<exists>e. fst (mark_permanently_failed h j w1) = Inl e) \<or> recorded j w2)"
proof -
  obtain x w2 where m: "mark_permanently_failed h j w1 = (x, w2)" by fastforce
  show ?thesis
  proof (cases x)
    case (Inl e)
    then show ?thesis using m assms by (simp add: give_up_def bindp_Inr thenp_def bindp_def handlep_def)
  next
    case (Inr u)
    then show ?thesis using m assms given_up_recorded [of j w1 w2]
      by (simp add: give_up_def thenp_def bindp_def handlep_def)
  qed
qed

end

section \<open>The two job handlers satisfy it\<close>

definition analysis_job_handler ::
  "handler_config \<Rightarrow> analysis_context entry list \<Rightarrow> ('z worker_state_scheme) job_handler" where
  "analysis_job_handler cfg stages =
     \<lparr>handle = handle_analysis cfg stages, mark_permanently_failed = analysis_mark_permanently_failed cfg\<rparr>"

definition prep_job_handler ::
  "prep_config \<Rightarrow> song_prep_context entry list \<Rightarrow> ('z worker_state_scheme) job_handler" where
  "prep_job_handler cfg stages =
     \<lparr>handle = handle_prep cfg stages, mark_permanently_failed = prep_mark_permanently_failed cfg\<rparr>"

definition analysis_recorded :: "string \<Rightarrow> 'z worker_state_scheme \<Rightarrow> bool" where
  "analysis_recorded i w \<longleftrightarrow> status_of i w \<in> {None, Some ''failed'', Some ''done''}"

text \<open>For a song, recorded also means that no analysis is left waiting for it.\<close>

definition song_recorded :: "string \<Rightarrow> 'z worker_state_scheme \<Rightarrow> bool" where
  "song_recorded i w \<longleftrightarrow> song_status_of i w \<in> {None, Some ''failed'', Some ''ready''} \<and> none_waiting i w"

lemma analysis_given_up:
  assumes "analysis_mark_permanently_failed cfg i w = (Inr (), w')"
  shows "analysis_recorded i w'"
proof -
  from assms obtain w1 where 1: "analysis_mark_failed (cfg_faults cfg) i ''INTERNAL'' w = (Inr (), w1)"
    and 2: "event_failed (cfg_faults cfg) i ''INTERNAL'' ''worker repeatedly failed to process this job'' w1 = (Inr (), w')"
    by (auto simp: analysis_mark_permanently_failed_def thenp_eq_Inr)
  show ?thesis
    using update_analysis_Inr [OF 1 [unfolded analysis_mark_failed_def]] publish_Inr [OF 2 [unfolded event_failed_def], of i]
    by (cases "analysis_row_of i w") (auto simp: analysis_recorded_def status_of_def)
qed

lemma prep_given_up:
  assumes "prep_mark_permanently_failed cfg i w = (Inr (), w')"
  shows "song_recorded i w'"
proof -
  from assms obtain w1 where 1: "mark_prep_failed (cfg_faults cfg) i ''INTERNAL'' w = (Inr (), w1)"
    and 2: "wake_failed (cfg_faults cfg) i ''INTERNAL'' w1 = (Inr (), w')"
    by (auto simp: prep_mark_permanently_failed_def thenp_eq_Inr)
  show ?thesis
    using update_song_Inr [OF 1 [unfolded mark_prep_failed_def]] wake_failed_Inr [OF 2]
    by (cases "song_row_of i w") (auto simp: song_recorded_def song_status_of_def song_row_of_def)
qed

interpretation analysis_jobs: job_handler "analysis_job_handler cfg stages" analysis_recorded for cfg stages
proof unfold_locales
  show "analysis_recorded j w'" if "handle (analysis_job_handler cfg stages) j stopping w = (Inr True, w')"
    for cfg stages j and stopping :: "'a worker_state_scheme \<Rightarrow> bool" and w w'
    using handle_analysis_outcome that by (fastforce simp: analysis_job_handler_def analysis_recorded_def)
qed (simp add: analysis_job_handler_def analysis_given_up)

interpretation prep_jobs: job_handler "prep_job_handler cfg stages" song_recorded for cfg stages
proof unfold_locales
  show "song_recorded j w'" if "handle (prep_job_handler cfg stages) j stopping w = (Inr True, w')"
    for cfg stages j and stopping :: "'a worker_state_scheme \<Rightarrow> bool" and w w'
    using handle_prep_True that by (fastforce simp: prep_job_handler_def song_recorded_def song_status_of_def)
qed (simp add: prep_job_handler_def prep_given_up)

section \<open>Properties\<close>

text \<open>A client over a state with the acknowledged ids, for runs of concrete inputs.\<close>

record demo_state = worker_state +
  acked :: "string list"

definition demo_client :: "demo_state redis_client" where
  "demo_client =
     \<lparr>xgroup_create = ret (), xreadgroup = (\<lambda>_ _. ret []), xpending_own = (\<lambda>_. ret []),
      xpending_idle = (\<lambda>_ _. ret []), xrange = (\<lambda>e. ret [(e, [(''job_id'', ''a1'')])]),
      xclaim = (\<lambda>_ e. ret [(e, [(''job_id'', ''a1'')])]),
      xack = (\<lambda>e. modifyp (\<lambda>w. w\<lparr>acked := acked w @ [e]\<rparr>)), xdel = (\<lambda>_. ret ())\<rparr>"

definition demo_consumer :: "demo_state consumer" where
  "demo_consumer =
     \<lparr>client = demo_client, handler = analysis_job_handler demo_cfg [Single (demo_stage ''preprocess'')],
      reclaim_min_idle_seconds = PENDING_CLAIM_MIN_IDLE, max_claim_attempts = MAX_CLAIM_ATTEMPTS\<rparr>"

definition demo_redis_db :: demo_state where
  "demo_redis_db = worker_state.extend demo_db \<lparr>acked = []\<rparr>"

text \<open>
  C10: An entry of the analyses stream that names a job is acknowledged only from a state in which the
  analysis is recorded as failed or done (or has no row); in every other case, a crash of the
  handler included, processing returns normally and leaves the entry pending.
\<close>

theorem analysis_ack_recorded:
  assumes "handler c = analysis_job_handler cfg stages" and "job_id_of fs = Some j"
  shows "\<exists>w1. w1 = snd (handle_analysis cfg stages j stopping w) \<and>
    (process_entry c entry_id fs stopping w = (Inr (), w1) \<and> fst (handle_analysis cfg stages j stopping w) \<noteq> Inr True \<or>
     process_entry c entry_id fs stopping w = ack_and_remove c entry_id w1 \<and>
       status_of j w1 \<in> {None, Some ''failed'', Some ''done''})"
  using analysis_jobs.process_acks_recorded [OF assms, of stopping w entry_id]
  by (simp add: analysis_job_handler_def analysis_recorded_def)

theorem analysis_ack_recorded_witness:
  "\<exists>w1. w1 = snd (handle_analysis demo_cfg [Single (demo_stage ''preprocess'')] ''a1'' (\<lambda>_. False) demo_redis_db) \<and>
    (process_entry demo_consumer ''7-0'' [(''job_id'', ''a1'')] (\<lambda>_. False) demo_redis_db = (Inr (), w1) \<and>
       fst (handle_analysis demo_cfg [Single (demo_stage ''preprocess'')] ''a1'' (\<lambda>_. False) demo_redis_db) \<noteq> Inr True \<or>
     process_entry demo_consumer ''7-0'' [(''job_id'', ''a1'')] (\<lambda>_. False) demo_redis_db = ack_and_remove demo_consumer ''7-0'' w1 \<and>
       status_of ''a1'' w1 \<in> {None, Some ''failed'', Some ''done''})"
  by (rule analysis_ack_recorded) (simp_all add: demo_consumer_def job_id_of_def)



text \<open>
  An entry of the preparation stream that names a job is acknowledged only from a state in which
  the song is recorded as failed or ready (or has no row) and no analysis waits for it.
\<close>

theorem prep_ack_recorded:
  assumes "handler c = prep_job_handler cfg stages" and "job_id_of fs = Some j"
  shows "\<exists>w1. w1 = snd (handle_prep cfg stages j stopping w) \<and>
    (process_entry c entry_id fs stopping w = (Inr (), w1) \<and> fst (handle_prep cfg stages j stopping w) \<noteq> Inr True \<or>
     process_entry c entry_id fs stopping w = ack_and_remove c entry_id w1 \<and> song_recorded j w1)"
  using prep_jobs.process_acks_recorded [OF assms, of stopping w entry_id] by (simp add: prep_job_handler_def)

definition demo_prep_consumer :: "(nat \<Rightarrow> bool) \<Rightarrow> demo_state consumer" where
  "demo_prep_consumer redis_down =
     \<lparr>client = demo_client, handler = prep_job_handler (demo_prep_cfg redis_down) [Single demo_prep_stage],
      reclaim_min_idle_seconds = SONGS_PREP_PENDING_CLAIM_MIN_IDLE, max_claim_attempts = MAX_CLAIM_ATTEMPTS\<rparr>"

theorem prep_ack_recorded_witness:
  "\<exists>w1. w1 = snd (handle_prep (demo_prep_cfg (\<lambda>_. False)) [Single demo_prep_stage] ''s1'' (\<lambda>_. False) demo_redis_db) \<and>
    (process_entry (demo_prep_consumer (\<lambda>_. False)) ''3-0'' [(''job_id'', ''s1'')] (\<lambda>_. False) demo_redis_db = (Inr (), w1) \<and>
       fst (handle_prep (demo_prep_cfg (\<lambda>_. False)) [Single demo_prep_stage] ''s1'' (\<lambda>_. False) demo_redis_db) \<noteq> Inr True \<or>
     process_entry (demo_prep_consumer (\<lambda>_. False)) ''3-0'' [(''job_id'', ''s1'')] (\<lambda>_. False) demo_redis_db =
       ack_and_remove (demo_prep_consumer (\<lambda>_. False)) ''3-0'' w1 \<and> song_recorded ''s1'' w1)"
  by (rule prep_ack_recorded) (simp_all add: demo_prep_consumer_def job_id_of_def)

end
