(* ===== verification/Scheduler.thy ===== *)
theory Scheduler
  imports Consumer
begin

text \<open>
  \<open>queue/scheduler.py\<close>: the main loop over the two streams, one job at a time. The scheduler is
  parameterised by the two consumers and by the lookup of the song an analysis has waited for
  longest; its stop flag is a predicate of the state (a signal may set it between any two calls).
  The loop has no bound, so it is a partial function whose value is the state it returns with. The
  lemmas show the priorities of a tick, and that a preparation job that keeps crashing blocks the
  others behind it.
\<close>

definition IDLE_BLOCK_MS :: nat where "IDLE_BLOCK_MS = 2000"

record 'w scheduler =
  analyses_stream :: "'w consumer"
  songs_prep_stream :: "'w consumer"
  waiting_song :: "('w, exn, string option) prog"
  stopping :: "'w \<Rightarrow> bool"

text \<open>The loop over the delivered messages stops early when a stop was requested.\<close>

fun process_messages :: "'w scheduler \<Rightarrow> 'w consumer \<Rightarrow> stream_entry list \<Rightarrow> ('w, exn, unit) prog" where
  "process_messages s c [] w = (Inr (), w)"
| "process_messages s c ((entry_id, fs) # ms) w =
     (if stopping s w then (Inr (), w)
      else thenp (process_entry c entry_id fs (stopping s)) (process_messages s c ms) w)"

definition process_first :: "'w scheduler \<Rightarrow> 'w consumer \<Rightarrow> read_reply \<Rightarrow> ('w, exn, unit) prog" where
  "process_first s c entries =
     (case entries of
        [] \<Rightarrow> throw (Crash ''IndexError'' [])
      | (stream_name, messages) # _ \<Rightarrow> process_messages s c messages)"

text \<open>The scan of the pending entries for the job of one song.\<close>

fun process_match :: "'w scheduler \<Rightarrow> string \<Rightarrow> pending_entry list \<Rightarrow> ('w, exn, bool) prog" where
  "process_match s song [] = ret False"
| "process_match s song (entry # es) =
     bindp (fields_for (songs_prep_stream s) (message_id entry)) (\<lambda>found.
       case found of
         Some fs \<Rightarrow>
           if map_of fs ''job_id'' = Some song
           then bindp (process_entry (songs_prep_stream s) (message_id entry) fs (stopping s)) (\<lambda>_. ret True)
           else process_match s song es
       | None \<Rightarrow> process_match s song es)"

definition process_priority_prep :: "'w scheduler \<Rightarrow> string \<Rightarrow> ('w, exn, bool) prog" where
  "process_priority_prep s song =
     bindp (claim_new_entries (songs_prep_stream s)) (\<lambda>_.
     bindp (pending_entries (songs_prep_stream s)) (\<lambda>pending. process_match s song pending))"

definition process_next_prep :: "'w scheduler \<Rightarrow> ('w, exn, bool) prog" where
  "process_next_prep s =
     bindp (claim_new_entries (songs_prep_stream s)) (\<lambda>_.
     bindp (pending_entries (songs_prep_stream s)) (\<lambda>pending.
       case pending of
         [] \<Rightarrow> ret False
       | entry # _ \<Rightarrow>
           bindp (fields_for (songs_prep_stream s) (message_id entry)) (\<lambda>found.
             case found of
               None \<Rightarrow> ret False
             | Some fs \<Rightarrow>
                 bindp (process_entry (songs_prep_stream s) (message_id entry) fs (stopping s)) (\<lambda>_. ret True))))"

definition tick_prep :: "'w scheduler \<Rightarrow> ('w, exn, bool) prog" where
  "tick_prep s =
     bindp (waiting_song s) (\<lambda>priority.
       case priority of
         None \<Rightarrow> process_next_prep s
       | Some song \<Rightarrow>
           bindp (process_priority_prep s song) (\<lambda>found. if found then ret True else process_next_prep s))"

definition tick :: "'w scheduler \<Rightarrow> ('w, exn, bool) prog" where
  "tick s w =
     (if stopping s w then (Inr False, w)
      else bindp (read_next (analyses_stream s) (Some 1)) (\<lambda>entries.
        if entries \<noteq> [] then bindp (process_first s (analyses_stream s) entries) (\<lambda>_. ret True)
        else tick_prep s) w)"

text \<open>One turn of the loop of \<open>run_forever\<close>.\<close>

definition loop_body :: "'w scheduler \<Rightarrow> ('w, exn, unit) prog" where
  "loop_body s =
     bindp (tick s) (\<lambda>busy.
       if busy then ret ()
       else bindp (read_next (analyses_stream s) (Some IDLE_BLOCK_MS)) (\<lambda>entries w.
         if entries \<noteq> [] \<and> \<not> stopping s w then process_first s (analyses_stream s) entries w
         else (Inr (), w)))"

partial_function (option) main_loop :: "'w scheduler \<Rightarrow> 'w \<Rightarrow> ((exn + unit) \<times> 'w) option" where
  "main_loop s w =
     (if stopping s w then Some (Inr (), w)
      else case loop_body s w of
             (Inl e, w') \<Rightarrow> Some (Inl e, w')
           | (Inr u, w') \<Rightarrow> main_loop s w')"

definition startup :: "'w scheduler \<Rightarrow> ('w, exn, unit) prog" where
  "startup s =
     thenp (ensure_group (analyses_stream s))
    (thenp (ensure_group (songs_prep_stream s))
    (thenp (reclaim_stuck_jobs (analyses_stream s))
       (reclaim_stuck_jobs (songs_prep_stream s))))"

definition run_forever :: "'w scheduler \<Rightarrow> 'w \<Rightarrow> ((exn + unit) \<times> 'w) option" where
  "run_forever s w =
     (case startup s w of (Inl e, w') \<Rightarrow> Some (Inl e, w') | (Inr u, w') \<Rightarrow> main_loop s w')"

section \<open>What a tick chooses\<close>

text \<open>
  The rules of the module's docstring: the entry of the awaited song if its message is on the
  stream, else the oldest entry. An entry is given with its message, \<open>None\<close> when it was trimmed.
\<close>

fun entry_naming :: "string \<Rightarrow> (pending_entry \<times> fields option) list \<Rightarrow> (string \<times> fields) option" where
  "entry_naming song [] = None"
| "entry_naming song ((e, None) # es) = entry_naming song es"
| "entry_naming song ((e, Some fs) # es) =
     (if map_of fs ''job_id'' = Some song then Some (message_id e, fs) else entry_naming song es)"

fun oldest_entry :: "(pending_entry \<times> fields option) list \<Rightarrow> (string \<times> fields) option" where
  "oldest_entry ((e, Some fs) # es) = Some (message_id e, fs)"
| "oldest_entry _ = None"

definition chosen :: "string option \<Rightarrow> (pending_entry \<times> fields option) list \<Rightarrow> (string \<times> fields) option" where
  "chosen awaited es =
     (case Option.bind awaited (\<lambda>song. entry_naming song es) of
        Some m \<Rightarrow> Some m
      | None \<Rightarrow> oldest_entry es)"

text \<open>A state whose preparation stream is all claimed: the calls find it so and change nothing.\<close>

definition stream_shows :: "'w consumer \<Rightarrow> (pending_entry \<times> fields option) list \<Rightarrow> 'w \<Rightarrow> bool" where
  "stream_shows c es w \<longleftrightarrow>
     claim_new_entries c w = (Inr (), w) \<and> pending_entries c w = (Inr (map fst es), w) \<and>
     (\<forall>(e, fs) \<in> set es. fields_for c (message_id e) w = (Inr fs, w))"

lemma process_match_chosen:
  assumes "\<forall>(e, fs) \<in> set es. fields_for (songs_prep_stream s) (message_id e) w = (Inr fs, w)"
  shows "process_match s song (map fst es) w =
    (case entry_naming song es of
       Some (i, fs) \<Rightarrow> bindp (process_entry (songs_prep_stream s) i fs (stopping s)) (\<lambda>_. ret True) w
     | None \<Rightarrow> (Inr False, w))"
  using assms by (induction song es rule: entry_naming.induct) (auto simp: bindp_Inr)

lemma process_next_prep_shows:
  assumes "stream_shows (songs_prep_stream s) es w"
  shows "process_next_prep s w =
    (case oldest_entry es of
       Some (i, fs) \<Rightarrow> bindp (process_entry (songs_prep_stream s) i fs (stopping s)) (\<lambda>_. ret True) w
     | None \<Rightarrow> (Inr False, w))"
  using assms
  by (cases es rule: oldest_entry.cases) (auto simp: process_next_prep_def stream_shows_def bindp_Inr)

lemma process_entry_returns:
  assumes "job_id_of fs = Some j" and "handle (handler c) j stop_now w = (Inl x, w')"
  shows "process_entry c i fs stop_now w = (Inr (), w')"
  using assms by (simp add: process_entry_def)

lemma tick_prep_case:
  assumes "\<not> stopping s w" and "read_next (analyses_stream s) (Some 1) w = (Inr [], w)"
  shows "tick s w = tick_prep s w"
  using assms by (simp add: tick_def bindp_Inr)

lemma priority_found:
  assumes "process_priority_prep s song w = bindp m (\<lambda>_. ret True) w"
  shows "bindp (process_priority_prep s song) (\<lambda>found. if found then ret True else k) w = bindp m (\<lambda>_. ret True) w"
  using assms by (simp add: bindp_def split: prod.splits sum.splits)

section \<open>The turns of the main loop\<close>

text \<open>The state after \<open>n\<close> turns, each begun with the stop flag clear and ended without an exception.\<close>

primrec turns :: "'w scheduler \<Rightarrow> nat \<Rightarrow> 'w \<Rightarrow> 'w option" where
  "turns s 0 w = Some w"
| "turns s (Suc n) w =
     (if stopping s w then None
      else case loop_body s w of (Inl e, w') \<Rightarrow> None | (Inr u, w') \<Rightarrow> turns s n w')"

lemma main_loop_returned:
  assumes "main_loop s w = Some y"
  shows "fst y = Inr () \<longrightarrow> (\<exists>n. turns s n w = Some (snd y) \<and> stopping s (snd y))"
proof (rule main_loop.raw_induct [OF _ assms])
  fix loop :: "'a scheduler \<Rightarrow> 'a \<Rightarrow> ((exn + unit) \<times> 'a) option" and s w y
  assume IH: "\<And>s w y. loop s w = Some y \<Longrightarrow>
      fst y = Inr () \<longrightarrow> (\<exists>n. turns s n w = Some (snd y) \<and> stopping s (snd y))"
    and run: "(if stopping s w then Some (Inr (), w)
      else case loop_body s w of (Inl e, w') \<Rightarrow> Some (Inl e, w') | (Inr u, w') \<Rightarrow> loop s w') = Some y"
  show "fst y = Inr () \<longrightarrow> (\<exists>n. turns s n w = Some (snd y) \<and> stopping s (snd y))"
  proof (cases "stopping s w")
    case True
    then show ?thesis using run by (auto intro: exI [of _ 0])
  next
    case False
    show ?thesis
    proof
      assume ok: "fst y = Inr ()"
      with run False obtain w1 where b: "loop_body s w = (Inr (), w1)" and l: "loop s w1 = Some y"
        by (cases "loop_body s w"; cases "fst (loop_body s w)") auto
      from IH [OF l] ok obtain n where "turns s n w1 = Some (snd y)" and "stopping s (snd y)" by blast
      then have "turns s (Suc n) w = Some (snd y) \<and> stopping s (snd y)" using False b by simp
      then show "\<exists>n. turns s n w = Some (snd y) \<and> stopping s (snd y)" by blast
    qed
  qed
qed

lemma turns_main_loop:
  assumes "turns s n w = Some w'" and "stopping s w'"
  shows "main_loop s w = Some (Inr (), w')"
  using assms
proof (induction n arbitrary: w)
  case 0
  then show ?case by (simp add: main_loop.simps)
next
  case (Suc n)
  then have go: "\<not> stopping s w" by (auto split: if_splits)
  with Suc.prems obtain u w1 where b: "loop_body s w = (Inr u, w1)" and t: "turns s n w1 = Some w'"
    by (auto split: prod.splits sum.splits)
  show ?case using Suc.IH [OF t Suc.prems(2)] go b by (subst main_loop.simps) simp
qed

text \<open>\<open>n\<close> ticks, one after the other.\<close>

primrec ticks :: "'w scheduler \<Rightarrow> nat \<Rightarrow> ('w, exn, bool list) prog" where
  "ticks s 0 = ret []"
| "ticks s (Suc n) = bindp (tick s) (\<lambda>b. bindp (ticks s n) (\<lambda>bs. ret (b # bs)))"

section \<open>Properties\<close>

text \<open>
  A scheduler over a list of the handled jobs, for runs of concrete inputs: two entries wait on the
  preparation stream, the first names a song whose handler crashes, and nobody waits for a song but
  as given.
\<close>

definition demo_prep_client :: "string list redis_client" where
  "demo_prep_client =
     \<lparr>xgroup_create = ret (), xreadgroup = (\<lambda>_ _. ret []),
      xpending_own = (\<lambda>_. ret [\<lparr>message_id = ''1-0'', times_delivered = 1\<rparr>, \<lparr>message_id = ''2-0'', times_delivered = 1\<rparr>]),
      xpending_idle = (\<lambda>_ _. ret []),
      xrange = (\<lambda>e. ret [(e, [(''job_id'', if e = ''1-0'' then ''s1'' else ''s2'')])]),
      xclaim = (\<lambda>_ e. ret []), xack = (\<lambda>e. ret ()), xdel = (\<lambda>_. ret ())\<rparr>"

definition demo_prep_stream :: "string list consumer" where
  "demo_prep_stream =
     \<lparr>client = demo_prep_client,
      handler = \<lparr>handle = (\<lambda>j _. thenp (modifyp (\<lambda>hs. hs @ [j]))
          (if j = ''s1'' then throw (Crash ''ValueError'' ''unknown language'') else ret True)),
        mark_permanently_failed = (\<lambda>_. ret ())\<rparr>,
      reclaim_min_idle_seconds = SONGS_PREP_PENDING_CLAIM_MIN_IDLE, max_claim_attempts = MAX_CLAIM_ATTEMPTS\<rparr>"

definition demo_scheduler :: "string option \<Rightarrow> string list scheduler" where
  "demo_scheduler awaited =
     \<lparr>analyses_stream = demo_prep_stream, songs_prep_stream = demo_prep_stream,
      waiting_song = ret awaited, stopping = (\<lambda>hs. length hs \<ge> 3)\<rparr>"

definition demo_pending :: "(pending_entry \<times> fields option) list" where
  "demo_pending =
     [(\<lparr>message_id = ''1-0'', times_delivered = 1\<rparr>, Some [(''job_id'', ''s1'')]),
      (\<lparr>message_id = ''2-0'', times_delivered = 1\<rparr>, Some [(''job_id'', ''s2'')])]"

lemma demo_reads:
  "stream_shows demo_prep_stream demo_pending w"
  "read_next demo_prep_stream b w = (Inr [], w)"
  by (simp_all add: stream_shows_def demo_pending_def claim_new_entries_def pending_entries_def fields_for_def
      demo_prep_stream_def demo_prep_client_def bindp_def read_next_def on_response_error_def handlep_def)

text \<open>
  C11: With no analysis to run and the preparation stream showing the given entries, a tick processes
  exactly the chosen one: the first entry that names the song an analysis has waited for longest, else
  the oldest entry; it reports False, with nothing changed, when there is none to process.
\<close>

theorem tick_runs_chosen:
  assumes "\<not> stopping s w" and "read_next (analyses_stream s) (Some 1) w = (Inr [], w)"
    and "waiting_song s w = (Inr awaited, w)" and "stream_shows (songs_prep_stream s) es w"
  shows "tick s w =
    (case chosen awaited es of
       None \<Rightarrow> (Inr False, w)
     | Some (i, fs) \<Rightarrow> bindp (process_entry (songs_prep_stream s) i fs (stopping s)) (\<lambda>_. ret True) w)"
proof (cases awaited)
  case None
  with assms show ?thesis by (simp add: tick_prep_case tick_prep_def bindp_Inr process_next_prep_shows chosen_def)
next
  case (Some song)
  have m: "process_priority_prep s song w = process_match s song (map fst es) w"
    using assms(4) by (simp add: process_priority_prep_def stream_shows_def bindp_Inr)
  show ?thesis
  proof (cases "entry_naming song es")
    case None
    with assms Some m process_match_chosen [of es s w song] show ?thesis
      by (simp add: tick_prep_case tick_prep_def bindp_Inr process_next_prep_shows chosen_def stream_shows_def)
  next
    case (Some p)
    with assms \<open>awaited = _\<close> m process_match_chosen [of es s w song] show ?thesis
      by (cases p) (simp add: tick_prep_case tick_prep_def chosen_def stream_shows_def bindp_Inr
          priority_found)
  qed
qed

theorem tick_runs_chosen_witness:
  "tick (demo_scheduler (Some ''s2'')) [] = (Inr True, [''s2''])"
  using tick_runs_chosen [where s = "demo_scheduler (Some ''s2'')" and w = "[]" and awaited = "Some ''s2''" and es = demo_pending] demo_reads
  by (simp add: demo_scheduler_def chosen_def demo_pending_def demo_prep_stream_def demo_prep_client_def
      process_entry_def job_id_of_def bindp_def thenp_def ack_and_remove_def)


text \<open>
  C34: A preparation job whose handling keeps raising blocks the others: as long as it is the oldest
  entry and nobody waits for a song, every tick handles that same job again and reports progress.
\<close>

theorem prep_head_blocks:
  assumes "\<And>w. Q w \<Longrightarrow> \<not> stopping s w \<and> read_next (analyses_stream s) (Some 1) w = (Inr [], w) \<and>
      waiting_song s w = (Inr None, w) \<and> stream_shows (songs_prep_stream s) ((e, Some fs) # es) w"
    and "\<And>w. Q w \<Longrightarrow> \<exists>x w'. handle (handler (songs_prep_stream s)) j (stopping s) w = (Inl x, w') \<and> Q w'"
    and "job_id_of fs = Some j" and "Q w"
  shows "ticks s n w =
    (Inr (replicate n True), ((\<lambda>w. snd (handle (handler (songs_prep_stream s)) j (stopping s) w)) ^^ n) w)"
  using \<open>Q w\<close>
proof (induction n arbitrary: w)
  case (Suc n)
  obtain x w1 where h: "handle (handler (songs_prep_stream s)) j (stopping s) w = (Inl x, w1)" and q: "Q w1"
    using assms(2) [OF Suc.prems] by blast
  have "tick s w = (Inr True, w1)"
    using assms(1) [OF Suc.prems] process_entry_returns [OF assms(3) h, of "message_id e"]
    by (simp add: tick_prep_case tick_prep_def bindp_Inr process_next_prep_shows [where es = "(e, Some fs) # es"])
  then show ?case using Suc.IH [OF q] h by (simp add: bindp_Inr funpow_Suc_right del: funpow.simps(2))
qed simp

theorem prep_head_blocks_witness:
  "ticks (demo_scheduler None\<lparr>stopping := \<lambda>_. False\<rparr>) 5 [] = (Inr (replicate 5 True), replicate 5 ''s1'')"
proof -
  let ?s = "demo_scheduler None\<lparr>stopping := \<lambda>_. False\<rparr>"
  let ?f = "\<lambda>w. snd (handle (handler (songs_prep_stream ?s)) ''s1'' (stopping ?s) w)"
  have "ticks ?s 5 [] = (Inr (replicate 5 True), (?f ^^ 5) [])"
    by (rule prep_head_blocks [where Q = "\<lambda>_. True" and e = "\<lparr>message_id = ''1-0'', times_delivered = 1\<rparr>"
            and fs = "[(''job_id'', ''s1'')]" and es = "tl demo_pending"])
       (use demo_reads in \<open>simp_all add: demo_scheduler_def demo_pending_def job_id_of_def demo_prep_stream_def
          thenp_def bindp_def\<close>)
  also have "(?f ^^ 5) [] = replicate 5 ''s1''"
    by (simp add: numeral_eq_Suc demo_scheduler_def demo_prep_stream_def thenp_def bindp_def)
  finally show ?thesis .
qed

end
