(* ===== verification/Vad.thy ===== *)
theory Vad
  imports Models
begin

text \<open>
  \<open>dsp/vad.py\<close> and \<open>dsp/pitch_detection.py\<close>: the loudness gate that tells the pitch detector
  which frames to skip, the spans it leaves, and the gated detection. The level of a frame is
  compared in decibels of the recording's peak; a frame of zero amplitude has level minus infinity,
  which is below every threshold. The pitch detector is a parameter. The lemmas characterise the
  spans as the maximal runs of the mask and the gate by the silent windows it keeps shut.
\<close>

section \<open>Constants\<close>

definition BREATH_SILENCE_RELATIVE_DB :: real where
  "BREATH_SILENCE_RELATIVE_DB = - 35"

definition VAD_MIN_SILENT_RUN_SECONDS :: real where
  "VAD_MIN_SILENT_RUN_SECONDS = 3 / 10"

section \<open>The spans of a flags\<close>

text \<open>The loop of \<open>voiced_spans\<close> from index \<open>i\<close>, with the start of the run it is in.\<close>

fun span_loop :: "nat \<Rightarrow> nat option \<Rightarrow> bool list \<Rightarrow> (nat \<times> nat) list" where
  "span_loop i run_start [] = (case run_start of None \<Rightarrow> [] | Some s \<Rightarrow> [(s, i)])"
| "span_loop i run_start (voiced # flags) =
     (case run_start of
        None \<Rightarrow> span_loop (i + 1) (if voiced then Some i else None) flags
      | Some s \<Rightarrow>
          if voiced then span_loop (i + 1) (Some s) flags
          else (s, i) # span_loop (i + 1) None flags)"

definition voiced_spans :: "bool list \<Rightarrow> (nat \<times> nat) list" where
  "voiced_spans flags = span_loop 0 None flags"

section \<open>The gate\<close>

text \<open>\<open>20 * log10(x / peak) >= BREATH_SILENCE_RELATIVE_DB\<close>, false for \<open>x = 0\<close>.\<close>

definition loud :: "real \<Rightarrow> real \<Rightarrow> bool" where
  "loud peak x \<longleftrightarrow> 0 < x \<and> BREATH_SILENCE_RELATIVE_DB \<le> 20 * log 10 (x / peak)"

text \<open>\<open>flags[a:b] = True\<close>.\<close>

definition set_true :: "nat \<Rightarrow> nat \<Rightarrow> bool list \<Rightarrow> bool list" where
  "set_true a b flags = map (\<lambda>(i, v). v \<or> (a \<le> i \<and> i < b)) (enumerate 0 flags)"

text \<open>The loop of \<open>voiced_mask\<close> with the check after it: short silent runs are folded back.\<close>

fun gate_loop :: "nat \<Rightarrow> nat \<Rightarrow> nat option \<Rightarrow> bool list \<Rightarrow> bool list \<Rightarrow> bool list" where
  "gate_loop k i run_start [] flags =
     (case run_start of None \<Rightarrow> flags | Some s \<Rightarrow> if i - s < k then set_true s i flags else flags)"
| "gate_loop k i run_start (l # ls) flags =
     (case run_start of
        None \<Rightarrow> gate_loop k (i + 1) (if l then None else Some i) ls flags
      | Some s \<Rightarrow>
          if l then gate_loop k (i + 1) None ls (if i - s < k then set_true s i flags else flags)
          else gate_loop k (i + 1) (Some s) ls flags)"

definition min_silent_run :: "real \<Rightarrow> nat" where
  "min_silent_run hop = nat (max 1 (py_round (VAD_MIN_SILENT_RUN_SECONDS / hop)))"

definition voiced_mask :: "real list \<Rightarrow> real \<Rightarrow> bool list" where
  "voiced_mask rms hop =
     (if rms = [] then []
      else (let peak = Max (set rms)
            in if peak \<le> 0 then replicate (length rms) False
               else (let loud_enough = map (loud peak) rms
                     in gate_loop (min_silent_run hop) 0 None loud_enough loud_enough)))"

section \<open>Gated detection\<close>

text \<open>\<open>PitchDetector.detect(chunk, sample_rate_hz, hop_seconds)\<close>.\<close>

type_synonym detect = "real list \<Rightarrow> nat \<Rightarrow> real \<Rightarrow> exn + real option list"

text \<open>\<open>for i, value in enumerate(detected[:span_len]): result[start + i] = value\<close>.\<close>

definition write_at :: "nat \<Rightarrow> 'a list \<Rightarrow> 'a list \<Rightarrow> 'a list" where
  "write_at start values result = fold (\<lambda>(i, v) r. r[start + i := v]) (enumerate 0 values) result"

fun detect_spans ::
  "detect \<Rightarrow> real list \<Rightarrow> nat \<Rightarrow> real \<Rightarrow> (nat \<times> nat) list \<Rightarrow> real option list \<Rightarrow> exn + real option list" where
  "detect_spans detect samples rate hop [] result = Inr result"
| "detect_spans detect samples rate hop ((start, stop) # spans) result =
     (let hop_length = nat (max 1 (py_round (of_nat rate * hop)));
          chunk = slice (start * hop_length) (stop * hop_length) samples
      in if chunk = [] then detect_spans detect samples rate hop spans result
         else case detect chunk rate hop of
           Inl e \<Rightarrow> Inl e
         | Inr detected \<Rightarrow>
             detect_spans detect samples rate hop spans
               (write_at start (take (stop - start) detected) result))"

definition detect_gated ::
  "detect \<Rightarrow> real list \<Rightarrow> nat \<Rightarrow> real \<Rightarrow> real list \<Rightarrow> exn + real option list" where
  "detect_gated detect samples rate hop rms =
     (let flags = voiced_mask rms hop
      in detect_spans detect samples rate hop (voiced_spans flags) (replicate (length flags) None))"

section \<open>The spans are the maximal runs\<close>

definition is_run :: "bool list \<Rightarrow> nat \<Rightarrow> nat \<Rightarrow> bool" where
  "is_run bs s e \<longleftrightarrow>
     s < e \<and> e \<le> length bs \<and> (\<forall>i. s \<le> i \<longrightarrow> i < e \<longrightarrow> bs ! i) \<and>
     (s = 0 \<or> \<not> bs ! (s - 1)) \<and> (e = length bs \<or> \<not> bs ! e)"

text \<open>The run the first \<open>i\<close> elements end in.\<close>

definition open_run :: "bool list \<Rightarrow> nat \<Rightarrow> nat option \<Rightarrow> bool" where
  "open_run bs i run_start \<longleftrightarrow>
     (case run_start of
        None \<Rightarrow> i = 0 \<or> \<not> bs ! (i - 1)
      | Some s \<Rightarrow> s < i \<and> (\<forall>j. s \<le> j \<longrightarrow> j < i \<longrightarrow> bs ! j) \<and> (s = 0 \<or> \<not> bs ! (s - 1)))"

lemma run_start_unique:
  assumes "s < e" "s' < e" "\<And>i. s \<le> i \<Longrightarrow> i < e \<Longrightarrow> bs ! i" "\<And>i. s' \<le> i \<Longrightarrow> i < e \<Longrightarrow> bs ! i"
    and "s = 0 \<or> \<not> bs ! (s - 1)" "s' = 0 \<or> \<not> bs ! (s' - 1)"
  shows "s = s'"
proof (rule linorder_cases)
  assume "s < s'"
  then have "bs ! (s' - 1)" using assms(3) [of "s' - 1"] assms(2) by simp
  with assms(6) \<open>s < s'\<close> show ?thesis by simp
next
  assume "s' < s"
  then have "bs ! (s - 1)" using assms(4) [of "s - 1"] assms(1) by simp
  with assms(5) \<open>s' < s\<close> show ?thesis by simp
qed

lemma open_run_step:
  assumes "open_run bs i r" and "i < length bs"
  shows "open_run bs (Suc i) (if bs ! i then (case r of None \<Rightarrow> Some i | Some s \<Rightarrow> Some s) else None)"
  using assms by (auto simp: open_run_def less_Suc_eq split: option.splits)

lemma run_ends_iff:
  assumes "open_run bs i (Some s)" and "i \<le> length bs"
  shows "is_run bs s' i \<longleftrightarrow> s' = s \<and> (i = length bs \<or> \<not> bs ! i)"
proof
  assume r: "is_run bs s' i"
  have "s' = s"
    by (rule run_start_unique [where e = i and bs = bs]) (use assms(1) r in \<open>auto simp: open_run_def is_run_def\<close>)
  with r show "s' = s \<and> (i = length bs \<or> \<not> bs ! i)" by (simp add: is_run_def)
next
  assume "s' = s \<and> (i = length bs \<or> \<not> bs ! i)"
  then show "is_run bs s' i" using assms by (simp add: is_run_def open_run_def)
qed

lemma runs_ending_at:
  assumes "open_run bs i r" and "i \<le> length bs"
  shows "{(s, e). is_run bs s e \<and> e = i} =
    (case r of Some s \<Rightarrow> if i = length bs \<or> \<not> bs ! i then {(s, i)} else {} | None \<Rightarrow> {})"
proof (cases r)
  case None
  then have "\<not> is_run bs s i" for s using assms by (auto simp: open_run_def is_run_def)
  with None show ?thesis by auto
next
  case (Some s)
  then show ?thesis using run_ends_iff [of bs i s] assms by auto
qed

lemma span_loop_Cons:
  "set (span_loop i r (b # bs)) =
    (case r of Some s \<Rightarrow> if b then {} else {(s, i)} | None \<Rightarrow> {}) \<union>
    set (span_loop (Suc i) (if b then (case r of None \<Rightarrow> Some i | Some s \<Rightarrow> Some s) else None) bs)"
  by (cases r; cases b) simp_all

lemma span_loop_unfold:
  assumes "i < length bs"
  shows "set (span_loop i r (drop i bs)) =
    (case r of Some s \<Rightarrow> if bs ! i then {} else {(s, i)} | None \<Rightarrow> {}) \<union>
    set (span_loop (Suc i) (if bs ! i then (case r of None \<Rightarrow> Some i | Some s \<Rightarrow> Some s) else None) (drop (Suc i) bs))"
  using span_loop_Cons [of i r "bs ! i" "drop (Suc i) bs"] by (simp only: Cons_nth_drop_Suc [OF assms])

lemma set_span_loop:
  "open_run bs i r \<Longrightarrow> i \<le> length bs \<Longrightarrow>
     set (span_loop i r (drop i bs)) = {(s, e). is_run bs s e \<and> i \<le> e}"
proof (induction "length bs - i" arbitrary: i r)
  case 0
  then have i: "i = length bs" by simp
  have "{(s, e). is_run bs s e \<and> i \<le> e} = {(s, e). is_run bs s e \<and> e = i}"
    using i by (auto simp: is_run_def)
  then show ?case using runs_ending_at [OF 0(2,3)] i by (simp split: option.splits)
next
  case (Suc n)
  then have i: "i < length bs" by simp
  have n: "n = length bs - Suc i" using Suc(2) by simp
  note IH = Suc(1) [OF n open_run_step [OF Suc(3) i] Suc_leI [OF i]]
  have "{(s, e). is_run bs s e \<and> i \<le> e} =
      {(s, e). is_run bs s e \<and> e = i} \<union> {(s, e). is_run bs s e \<and> Suc i \<le> e}"
    by auto
  also have "{(s, e). is_run bs s e \<and> e = i} =
      (case r of Some s \<Rightarrow> if bs ! i then {} else {(s, i)} | None \<Rightarrow> {})"
    using runs_ending_at [OF Suc(3,4)] i by (simp split: option.splits)
  finally show ?case unfolding span_loop_unfold [OF i] IH by simp
qed

lemma set_voiced_spans: "set (voiced_spans bs) = {(s, e). is_run bs s e}"
  using set_span_loop [of bs 0 None] by (simp add: voiced_spans_def open_run_def)

lemma span_loop_bounds:
  "(s, e) \<in> set (span_loop i r bs) \<Longrightarrow> (case r of None \<Rightarrow> i | Some a \<Rightarrow> min i a) \<le> s \<and> i \<le> e"
proof (induction bs arbitrary: i r)
  case (Cons b bs)
  then show ?case
    by (cases r; cases b) (fastforce dest!: Cons.IH)+
qed (auto split: option.splits)

lemma span_loop_sorted:
  "sorted_wrt (\<lambda>p q. snd p < fst q) (span_loop i r bs)"
proof (induction bs arbitrary: i r)
  case (Cons b bs)
  then show ?case by (cases r; cases b) (auto dest!: span_loop_bounds)
qed (auto split: option.splits)

lemma run_start_exists:
  assumes "bs ! i"
  shows "\<exists>s \<le> i. (\<forall>j. s \<le> j \<longrightarrow> j \<le> i \<longrightarrow> bs ! j) \<and> (s = 0 \<or> \<not> bs ! (s - 1))"
  using assms
proof (induction i)
  case (Suc i)
  show ?case
  proof (cases "bs ! i")
    case True
    then obtain s where "s \<le> i" "\<forall>j. s \<le> j \<longrightarrow> j \<le> i \<longrightarrow> bs ! j" "s = 0 \<or> \<not> bs ! (s - 1)" using Suc by blast
    then show ?thesis using Suc.prems by (intro exI [of _ s]) (auto simp: le_Suc_eq)
  next
    case False
    then show ?thesis using Suc.prems by (intro exI [of _ "Suc i"]) auto
  qed
qed auto

lemma run_end_exists:
  assumes "i < length bs" and "bs ! i"
  shows "\<exists>e. i < e \<and> e \<le> length bs \<and> (\<forall>j. i \<le> j \<longrightarrow> j < e \<longrightarrow> bs ! j) \<and> (e = length bs \<or> \<not> bs ! e)"
  using assms
proof (induction "length bs - i" arbitrary: i)
  case (Suc n)
  show ?case
  proof (cases "Suc i < length bs \<and> bs ! Suc i")
    case True
    then obtain e where e: "Suc i < e" "e \<le> length bs" "\<forall>j. Suc i \<le> j \<longrightarrow> j < e \<longrightarrow> bs ! j" "e = length bs \<or> \<not> bs ! e"
      using Suc(1) [of "Suc i"] Suc(2) by (metis Suc_inject Suc_diff_Suc Suc_lessD)
    have "bs ! j" if "i \<le> j" "j < e" for j using that e(3) Suc.prems(2) by (cases "i = j") auto
    then show ?thesis using e by (intro exI [of _ e]) auto
  next
    case False
    then show ?thesis using Suc.prems by (intro exI [of _ "Suc i"]) (auto simp: less_Suc_eq)
  qed
qed simp

lemma run_exists:
  assumes "i < length bs" and "bs ! i"
  obtains s e where "is_run bs s e" "s \<le> i" "i < e"
proof -
  obtain s where s: "s \<le> i" "\<forall>j. s \<le> j \<longrightarrow> j \<le> i \<longrightarrow> bs ! j" "s = 0 \<or> \<not> bs ! (s - 1)"
    using run_start_exists [of bs i] assms(2) by blast
  obtain e where e: "i < e" "e \<le> length bs" "\<forall>j. i \<le> j \<longrightarrow> j < e \<longrightarrow> bs ! j" "e = length bs \<or> \<not> bs ! e"
    using run_end_exists [OF assms] by blast
  have "bs ! j" if "s \<le> j" "j < e" for j using that s(2) e(3) by (cases "j \<le> i") auto
  then have "is_run bs s e" unfolding is_run_def using s e by auto
  then show ?thesis using that s(1) e(1) by blast
qed

section \<open>The gate and the silent windows\<close>

lemma length_set_true [simp]: "length (set_true a b fl) = length fl"
  by (simp add: set_true_def)

lemma nth_set_true [simp]: "j < length fl \<Longrightarrow> set_true a b fl ! j \<longleftrightarrow> fl ! j \<or> (a \<le> j \<and> j < b)"
  by (simp add: set_true_def nth_enumerate_eq)

lemma length_gate_loop [simp]: "length (gate_loop k i r ls fl) = length fl"
  by (induction k i r ls fl rule: gate_loop.induct) (auto split: option.splits)

lemma nth_gate_loop:
  "j < length fl \<Longrightarrow> gate_loop k i r ls fl ! j \<longleftrightarrow>
     fl ! j \<or> (\<exists>(s, e) \<in> set (span_loop i r (map Not ls)). e - s < k \<and> s \<le> j \<and> j < e)"
proof (induction ls arbitrary: i r fl)
  case (Cons l ls)
  then show ?case by (cases r; cases l) auto
qed (auto split: option.splits)

lemma min_silent_run_pos: "0 < min_silent_run hop"
  by (simp add: min_silent_run_def)

lemma length_voiced_mask [simp]: "length (voiced_mask rms hop) = length rms"
  by (simp add: voiced_mask_def Let_def)

lemma silent_window_run:
  assumes "a \<le> i" "i < b" "b \<le> length bs" "\<And>j. a \<le> j \<Longrightarrow> j < b \<Longrightarrow> bs ! j"
    and "is_run bs s e" "s \<le> i" "i < e"
  shows "s \<le> a \<and> b \<le> e"
proof -
  have "s = 0 \<or> \<not> bs ! (s - 1)" "e = length bs \<or> \<not> bs ! e" using assms(5) by (simp_all add: is_run_def)
  then show ?thesis using assms(4) [of "s - 1"] assms(4) [of e] assms(1-3,6,7) by fastforce
qed

text \<open>A frame is gated exactly when it lies in a silent window of at least \<open>k\<close> frames.\<close>

lemma gate_loop_windows:
  assumes "i < length ls"
  shows "gate_loop k 0 None ls ls ! i \<longleftrightarrow>
    \<not> (\<exists>a b. a \<le> i \<and> i < b \<and> b \<le> length ls \<and> k \<le> b - a \<and> (\<forall>j. a \<le> j \<longrightarrow> j < b \<longrightarrow> \<not> ls ! j))"
proof -
  let ?bs = "map Not ls"
  have g: "gate_loop k 0 None ls ls ! i \<longleftrightarrow>
      ls ! i \<or> (\<exists>s e. is_run ?bs s e \<and> e - s < k \<and> s \<le> i \<and> i < e)"
    using nth_gate_loop [OF assms, of k 0 None ls] set_voiced_spans [of ?bs] by (auto simp: voiced_spans_def)
  show ?thesis
  proof (cases "ls ! i")
    case True
    then show ?thesis using g by auto
  next
    case False
    then obtain s e where r: "is_run ?bs s e" "s \<le> i" "i < e" using run_exists [of i ?bs] assms by auto
    have len: "e \<le> length ls" and sil: "\<And>j. s \<le> j \<Longrightarrow> j < e \<Longrightarrow> \<not> ls ! j"
      using r(1) by (auto simp: is_run_def)
    have u: "s' \<le> s \<and> e \<le> e'" if "is_run ?bs s' e'" "s' \<le> i" "i < e'" for s' e'
      using silent_window_run [of s i e ?bs s' e'] r that len sil by auto
    have w: "s \<le> a \<and> b \<le> e" if "a \<le> i" "i < b" "b \<le> length ls" "\<forall>j. a \<le> j \<longrightarrow> j < b \<longrightarrow> \<not> ls ! j" for a b
      using silent_window_run [of a i b ?bs s e] r that by auto
    have "gate_loop k 0 None ls ls ! i \<longleftrightarrow> e - s < k"
      using g False r u by (metis diff_le_mono2 diff_le_mono le_less_trans le_trans)
    also have "\<dots> \<longleftrightarrow> \<not> (\<exists>a b. a \<le> i \<and> i < b \<and> b \<le> length ls \<and> k \<le> b - a \<and> (\<forall>j. a \<le> j \<longrightarrow> j < b \<longrightarrow> \<not> ls ! j))"
    proof
      assume "e - s < k"
      then show "\<not> (\<exists>a b. a \<le> i \<and> i < b \<and> b \<le> length ls \<and> k \<le> b - a \<and> (\<forall>j. a \<le> j \<longrightarrow> j < b \<longrightarrow> \<not> ls ! j))"
        using w by (metis diff_le_mono2 diff_le_mono le_less_trans le_trans not_le)
    next
      assume "\<not> (\<exists>a b. a \<le> i \<and> i < b \<and> b \<le> length ls \<and> k \<le> b - a \<and> (\<forall>j. a \<le> j \<longrightarrow> j < b \<longrightarrow> \<not> ls ! j))"
      then show "e - s < k" using r(2,3) len sil not_le by blast
    qed
    finally show ?thesis .
  qed
qed

section \<open>What gated detection returns\<close>

lemma length_write_at [simp]: "length (write_at start vs result) = length result"
proof -
  have "length (fold (\<lambda>(i, v) r. r[start + i := v]) ps result) = length result" for ps :: "(nat \<times> 'a) list"
    by (induction ps arbitrary: result) auto
  then show ?thesis by (simp add: write_at_def)
qed

lemma nth_write_at:
  "start + length vs \<le> length result \<Longrightarrow>
     write_at start vs result ! j = (if start \<le> j \<and> j < start + length vs then vs ! (j - start) else result ! j)"
proof -
  have "start + n + length vs \<le> length result \<Longrightarrow>
      fold (\<lambda>(i, v) r. r[start + i := v]) (enumerate n vs) result ! j =
      (if start + n \<le> j \<and> j < start + n + length vs then vs ! (j - start - n) else result ! j)" for n
  proof (induction vs arbitrary: n result)
    case (Cons v vs)
    show ?case
      using Cons.IH [of "Suc n" "result[start + n := v]"] Cons.prems
      by (auto simp: nth_list_update nth_Cons' Suc_diff_Suc)
  qed auto
  from this [of 0] show "start + length vs \<le> length result \<Longrightarrow> ?thesis" by (simp add: write_at_def)
qed

text \<open>What the detector contributes to frame \<open>i\<close> of the span from \<open>s\<close> to \<open>e\<close>.\<close>

definition span_chunk :: "real list \<Rightarrow> nat \<Rightarrow> real \<Rightarrow> nat \<Rightarrow> nat \<Rightarrow> real list" where
  "span_chunk samples rate hop s e =
     (let hop_length = nat (max 1 (py_round (of_nat rate * hop)))
      in slice (s * hop_length) (e * hop_length) samples)"

definition span_frame :: "detect \<Rightarrow> real list \<Rightarrow> nat \<Rightarrow> real \<Rightarrow> nat \<Rightarrow> nat \<Rightarrow> nat \<Rightarrow> real option" where
  "span_frame detect samples rate hop s e i =
     (if span_chunk samples rate hop s e = [] then None
      else case detect (span_chunk samples rate hop s e) rate hop of
        Inl _ \<Rightarrow> None
      | Inr detected \<Rightarrow> if i - s < length detected then detected ! (i - s) else None)"

definition spans_written ::
  "detect \<Rightarrow> real list \<Rightarrow> nat \<Rightarrow> real \<Rightarrow> (nat \<times> nat) list \<Rightarrow> real option list \<Rightarrow> real option list \<Rightarrow> bool" where
  "spans_written detect samples rate hop spans result out \<longleftrightarrow>
     length out = length result \<and>
     (\<forall>s e i. (s, e) \<in> set spans \<longrightarrow> s \<le> i \<longrightarrow> i < e \<longrightarrow> out ! i = span_frame detect samples rate hop s e i) \<and>
     (\<forall>i. (\<forall>(s, e) \<in> set spans. \<not> (s \<le> i \<and> i < e)) \<longrightarrow> out ! i = result ! i)"

text \<open>Spans within the result and apart, with nothing written yet.\<close>

definition spans_ready :: "(nat \<times> nat) list \<Rightarrow> real option list \<Rightarrow> bool" where
  "spans_ready spans result \<longleftrightarrow>
     sorted_wrt (\<lambda>p q. snd p < fst q) spans \<and>
     (\<forall>(s, e) \<in> set spans. s < e \<and> e \<le> length result \<and> (\<forall>i. s \<le> i \<longrightarrow> i < e \<longrightarrow> result ! i = None))"

lemma nth_write_span:
  assumes "s < e" and "e \<le> length result"
  shows "write_at s (take (e - s) d) result ! i =
    (if s \<le> i \<and> i < e \<and> i - s < length d then d ! (i - s) else result ! i)"
proof -
  have "s + length (take (e - s) d) \<le> length result" using assms by simp
  from nth_write_at [OF this, of i] show ?thesis using assms by (auto simp: min_def split: if_splits)
qed

lemma spans_ready_write:
  assumes "spans_ready ((s, e) # spans) result"
  shows "spans_ready spans (write_at s (take (e - s) d) result)"
proof -
  have "s < e" "e \<le> length result" and "\<forall>(s', e') \<in> set spans. e < s'"
    using assms by (auto simp: spans_ready_def)
  then show ?thesis using assms by (fastforce simp: spans_ready_def nth_write_span)
qed

lemma spans_ready_skip: "spans_ready (p # spans) result \<Longrightarrow> spans_ready spans result"
  by (auto simp: spans_ready_def)

lemma spans_written_Cons:
  assumes "spans_written detect samples rate hop spans result1 out" and "spans_ready ((s, e) # spans) result"
    and "length result1 = length result"
    and "\<And>i. s \<le> i \<Longrightarrow> i < e \<Longrightarrow> result1 ! i = span_frame detect samples rate hop s e i"
    and "\<And>i. \<not> (s \<le> i \<and> i < e) \<Longrightarrow> result1 ! i = result ! i"
  shows "spans_written detect samples rate hop ((s, e) # spans) result out"
proof -
  have later: "e < s'" if "(s', e') \<in> set spans" for s' e' using assms(2) that by (fastforce simp: spans_ready_def)
  have here: "out ! i = result1 ! i" if "s \<le> i" "i < e" for i
  proof -
    have "\<forall>(s', e') \<in> set spans. \<not> (s' \<le> i \<and> i < e')" using later that by fastforce
    then show ?thesis using assms(1) by (simp add: spans_written_def)
  qed
  then show ?thesis using assms(1,3,4,5) by (auto simp: spans_written_def)
qed

lemma detect_spans_frames:
  assumes "detect_spans detect samples rate hop spans result = Inr out" and "spans_ready spans result"
  shows "spans_written detect samples rate hop spans result out"
  using assms
proof (induction spans arbitrary: result)
  case (Cons p spans)
  obtain s e where p: "p = (s, e)" by fastforce
  note ready = Cons.prems(2) [unfolded p]
  have bound: "s < e" "e \<le> length result" "\<And>i. s \<le> i \<Longrightarrow> i < e \<Longrightarrow> result ! i = None"
    using ready by (auto simp: spans_ready_def)
  show ?case
  proof (cases "span_chunk samples rate hop s e = []")
    case True
    then have run: "detect_spans detect samples rate hop spans result = Inr out"
      using Cons.prems(1) p by (simp add: span_chunk_def Let_def)
    show ?thesis unfolding p
      by (rule spans_written_Cons [OF Cons.IH [OF run spans_ready_skip [OF ready]] ready])
         (use True bound in \<open>auto simp: span_frame_def\<close>)
  next
    case False
    then obtain d where d: "detect (span_chunk samples rate hop s e) rate hop = Inr d"
      and run: "detect_spans detect samples rate hop spans (write_at s (take (e - s) d) result) = Inr out"
      using Cons.prems(1) p by (auto simp: span_chunk_def Let_def split: sum.splits)
    let ?r = "write_at s (take (e - s) d) result"
    note r = nth_write_span [OF bound(1,2), of d]
    show ?thesis unfolding p
    proof (rule spans_written_Cons [OF Cons.IH [OF run spans_ready_write [OF ready]] ready])
      show "?r ! i = span_frame detect samples rate hop s e i" if "s \<le> i" "i < e" for i
        using r False d that bound(3) by (auto simp: span_frame_def)
      show "?r ! i = result ! i" if "\<not> (s \<le> i \<and> i < e)" for i
        using r that by auto
    qed simp
  qed
qed (simp add: spans_written_def)

section \<open>Properties\<close>

text \<open>
  The spans of a mask are exactly its maximal runs of voiced frames, in order, with at least one
  unvoiced frame between two of them.
\<close>

theorem voiced_spans_are_runs:
  "set (voiced_spans fl) = {(s, e). is_run fl s e} \<and>
   sorted_wrt (\<lambda>p q. snd p < fst q) (voiced_spans fl)"
  using set_voiced_spans span_loop_sorted by (simp add: voiced_spans_def)

text \<open>
  C37: In a recording that is not silent throughout, the detector skips a frame exactly when it lies in
  a window of at least the minimal number of frames that are all quieter than the threshold.
\<close>

theorem voiced_mask_windows:
  assumes "i < length rms" and "0 < Max (set rms)"
  shows "voiced_mask rms hop ! i \<longleftrightarrow>
    \<not> (\<exists>a b. a \<le> i \<and> i < b \<and> b \<le> length rms \<and> min_silent_run hop \<le> b - a \<and>
         (\<forall>j. a \<le> j \<longrightarrow> j < b \<longrightarrow> \<not> loud (Max (set rms)) (rms ! j)))"
proof -
  have m: "voiced_mask rms hop = gate_loop (min_silent_run hop) 0 None
      (map (loud (Max (set rms))) rms) (map (loud (Max (set rms))) rms)"
  proof -
    have "rms \<noteq> []" using assms(1) by auto
    then show ?thesis unfolding voiced_mask_def Let_def using assms(2) by (simp only: if_False not_le [symmetric])
  qed
  show ?thesis unfolding m using gate_loop_windows [of i "map (loud (Max (set rms))) rms"] assms(1)
    by (simp cong: conj_cong imp_cong)
qed

lemma loud_peak: "0 < x \<Longrightarrow> loud x x"
  by (simp add: loud_def BREATH_SILENCE_RELATIVE_DB_def)

theorem voiced_mask_windows_witness:
  "voiced_mask [1, 0, 1] (1 / 10) ! 1"
proof -
  have k: "min_silent_run (1 / 10) = 3" by (simp add: min_silent_run_def VAD_MIN_SILENT_RUN_SECONDS_def)
  have "\<not> (\<exists>a b. a \<le> 1 \<and> 1 < b \<and> b \<le> length [1, 0, 1] \<and> min_silent_run (1 / 10) \<le> b - a \<and>
      (\<forall>j. a \<le> j \<longrightarrow> j < b \<longrightarrow> \<not> loud (Max (set [1, 0, 1])) ([1, 0, 1::real] ! j)))" (is "\<not> ?W")
  proof
    assume ?W
    then obtain a b where ab: "b \<le> Suc (Suc (Suc 0))" "3 \<le> b - a"
        and s: "\<forall>j. a \<le> j \<longrightarrow> j < b \<longrightarrow> \<not> loud 1 ([1, 0, 1::real] ! j)"
      unfolding k by auto
    from ab have "a = 0" "b = 3" by linarith+
    with s have "\<not> loud 1 1" by (metis le0 nth_Cons_0 zero_less_numeral)
    then show False using loud_peak [of 1] by simp
  qed
  then show ?thesis using voiced_mask_windows [of 1 "[1, 0, 1]" "1 / 10"] by simp
qed

text \<open>
  Gated detection returns one value per loudness frame: None for a skipped frame, and for a frame
  of a voiced span the value the detector returned for its place in that span, or None where the
  detector returned fewer values or the span has no samples.
\<close>

theorem detect_gated_frames:
  assumes "detect_gated detect samples rate hop rms = Inr out"
  shows "length out = length rms \<and>
    (\<forall>i < length rms. \<not> voiced_mask rms hop ! i \<longrightarrow> out ! i = None) \<and>
    (\<forall>s e i. is_run (voiced_mask rms hop) s e \<longrightarrow> s \<le> i \<longrightarrow> i < e \<longrightarrow>
       out ! i = span_frame detect samples rate hop s e i)"
proof -
  let ?m = "voiced_mask rms hop"
  have spans: "set (voiced_spans ?m) = {(s, e). is_run ?m s e}" by (rule set_voiced_spans)
  have "spans_ready (voiced_spans ?m) (replicate (length ?m) None)"
    using span_loop_sorted [of 0 None ?m] spans by (auto simp: spans_ready_def is_run_def voiced_spans_def)
  then have 1: "spans_written detect samples rate hop (voiced_spans ?m) (replicate (length ?m) None) out"
    using assms detect_spans_frames by (simp add: detect_gated_def Let_def)
  moreover have "out ! i = None" if "i < length rms" "\<not> ?m ! i" for i
  proof -
    have "\<forall>(s, e) \<in> set (voiced_spans ?m). \<not> (s \<le> i \<and> i < e)" using that by (auto simp: spans is_run_def)
    then show ?thesis using 1 that by (simp add: spans_written_def)
  qed
  ultimately show ?thesis using spans 1 by (simp add: spans_written_def)
qed

theorem detect_gated_frames_witness:
  "\<exists>out. detect_gated (\<lambda>chunk rate hop. Inr [Some 7]) [5, 6] 1 1 [0, 1] = Inr out \<and>
     length out = 2 \<and> out ! 0 = None"
proof -
  have run: "detect_gated (\<lambda>chunk rate hop. Inr [Some 7]) [5, 6] 1 1 [0, 1] = Inr [None, Some 7]"
    using loud_peak [of 1]
    by (simp add: detect_gated_def voiced_mask_def voiced_spans_def min_silent_run_def slice_def write_at_def
        VAD_MIN_SILENT_RUN_SECONDS_def loud_def BREATH_SILENCE_RELATIVE_DB_def py_round_def)
  from detect_gated_frames [OF run] have "length [None, Some (7::real)] = 2" by simp
  with run show ?thesis by auto
qed

end
