(* ===== verification/Pitch.thy ===== *)
theory Pitch
  imports Dtw
begin

text \<open>
  \<open>dsp/pitch_embedding.py\<close>, \<open>dsp/pitch_scoring.py\<close> and \<open>pipeline/stages/pitch.py\<close>: the
  embedding of a pitch curve on the unit circle that alignment runs on, the comparison of the
  recording's curve with the reference through the time map, and the stage that scores it. The
  lemmas show what the embedding identifies, that scores stay within 0 and 100, and how the lists
  of the piano roll fit together.
\<close>

section \<open>Constants\<close>

definition PITCH_FMIN_HZ :: real where
  "PITCH_FMIN_HZ = 65"

definition PITCH_HOP_SECONDS :: real where
  "PITCH_HOP_SECONDS = 1 / 100"

definition PITCH_SCORE_CENTS_FOR_ZERO :: real where
  "PITCH_SCORE_CENTS_FOR_ZERO = 100"

definition PIANO_ROLL_OFF_PITCH_CENTS :: real where
  "PIANO_ROLL_OFF_PITCH_CENTS = 50"

section \<open>The embedding\<close>

text \<open>One row of \<open>embed_pitch_curve\<close>; \<open>x % 1.0\<close> is the fractional part, also below zero.\<close>

definition embed_frame :: "real option \<Rightarrow> frame" where
  "embed_frame value =
     (case value of
        None \<Rightarrow> [0, 0]
      | Some v \<Rightarrow>
          if v \<le> 0 then [0, 0]
          else let theta = 2 * pi * frac (log 2 (v / PITCH_FMIN_HZ)) in [cos theta, sin theta])"

definition embed_pitch_curve :: "real option list \<Rightarrow> frame list" where
  "embed_pitch_curve f0 = map embed_frame f0"

section \<open>Comparing two curves\<close>

definition voiced_fraction :: "real option list \<Rightarrow> real" where
  "voiced_fraction f0 = (if f0 = [] then 0 else of_nat (length (filter (\<lambda>v. v \<noteq> None) f0)) / of_nat (length f0))"

text \<open>\<open>1200 * math.log2(user_hz / reference_hz)\<close>, which is defined for a positive quotient only.\<close>

definition cents_deviation :: "real \<Rightarrow> real \<Rightarrow> exn + real" where
  "cents_deviation user_hz reference_hz =
     (if reference_hz = 0 then Inl (Crash ''ZeroDivisionError'' ''float division by zero'')
      else if user_hz / reference_hz \<le> 0 then Inl (Crash ''ValueError'' ''math domain error'')
      else Inr (1200 * log 2 (user_hz / reference_hz)))"

definition score_from_mean_abs_cents :: "real \<Rightarrow> real" where
  "score_from_mean_abs_cents mean_abs_cents =
     py_round_to 1 (100 * (1 - min 1 (mean_abs_cents / PITCH_SCORE_CENTS_FOR_ZERO)))"

text \<open>The reference value at the time of user frame \<open>i\<close>, None outside the reference.\<close>

definition reference_at :: "interp \<Rightarrow> time_map \<Rightarrow> real \<Rightarrow> real option list \<Rightarrow> nat \<Rightarrow> real option" where
  "reference_at np_interp tm hop reference_hz i =
     (let reference_index = py_round (user_to_reference np_interp tm (of_nat i * hop) / hop)
      in if 0 \<le> reference_index \<and> reference_index < int (length reference_hz)
         then reference_hz ! nat reference_index else None)"

definition deviation :: "real option \<Rightarrow> real option \<Rightarrow> exn + real option" where
  "deviation user_value reference_value =
     (case (user_value, reference_value) of
        (Some u, Some r) \<Rightarrow> and_then (cents_deviation u r) (\<lambda>c. Inr (Some c))
      | _ \<Rightarrow> Inr None)"

text \<open>The loop of \<open>align_and_compare\<close> from user frame \<open>i\<close>.\<close>

fun compare_from ::
  "interp \<Rightarrow> time_map \<Rightarrow> real \<Rightarrow> real option list \<Rightarrow> nat \<Rightarrow> real option list \<Rightarrow>
     exn + (real option list \<times> real option list)" where
  "compare_from np_interp tm hop reference_hz i [] = Inr ([], [])"
| "compare_from np_interp tm hop reference_hz i (user_value # user_hz) =
     (let reference_value = reference_at np_interp tm hop reference_hz i
      in and_then (deviation user_value reference_value) (\<lambda>d.
         and_then (compare_from np_interp tm hop reference_hz (Suc i) user_hz) (\<lambda>(rs, ds).
           Inr (reference_value # rs, d # ds))))"

definition align_and_compare ::
  "interp \<Rightarrow> real option list \<Rightarrow> real option list \<Rightarrow> time_map \<Rightarrow> real \<Rightarrow>
     exn + (real option list \<times> real option list)" where
  "align_and_compare np_interp user_hz reference_hz tm hop = compare_from np_interp tm hop reference_hz 0 user_hz"

section \<open>The stage\<close>

definition present :: "'a option list \<Rightarrow> 'a list" where
  "present xs = [x. Some x \<leftarrow> xs]"

definition mean_abs :: "real list \<Rightarrow> real" where
  "mean_abs cs = (if cs = [] then 0 else mean (map abs cs))"

definition off_pitch :: "real option \<Rightarrow> bool" where
  "off_pitch d = (case d of None \<Rightarrow> False | Some c \<Rightarrow> \<bar>c\<bar> > PIANO_ROLL_OFF_PITCH_CENTS)"

definition pitch_data :: "real option list \<Rightarrow> real option list \<Rightarrow> real option list \<Rightarrow> pydict" where
  "pitch_data user_hz aligned_reference_hz deviations_cents =
     (let mean_abs_cents = mean_abs (present deviations_cents);
          score = (if present deviations_cents \<noteq> [] then score_from_mean_abs_cents mean_abs_cents else 0);
          piano_roll = \<lparr>pr_hop_seconds = PITCH_HOP_SECONDS, pr_user_hz = user_hz,
            pr_reference_hz = aligned_reference_hz, pr_deviation_cents = deviations_cents,
            pr_off_pitch = map off_pitch deviations_cents\<rparr>
      in [(''score'', PFloat score),
          (''mean_abs_cents'', PFloat mean_abs_cents),
          (''compared_frames'', PInt (int (length (present deviations_cents)))),
          (''voiced_fraction'', PFloat (voiced_fraction user_hz)),
          (''user_pitch_curve'', dump_curve \<lparr>hop_seconds = PITCH_HOP_SECONDS, hz = user_hz\<rparr>),
          (''piano_roll'', dump_piano_roll piano_roll)])"

definition user_hz_of :: "pydict \<Rightarrow> exn + real option list" where
  "user_hz_of d =
     and_then (read_as py_dict d ''user_pitch_curve'') (\<lambda>curve. read_as py_opt_floats curve ''hz'')"

definition pitch_run :: "interp \<Rightarrow> int \<Rightarrow> analysis_context \<Rightarrow> exn + stage_result" where
  "pitch_run np_interp ms c =
     and_then (stage_data c ''align'') (\<lambda>align_result.
     and_then (user_hz_of align_result) (\<lambda>user_hz.
     and_then (from_align_stage_data align_result) (\<lambda>tm.
     and_then (align_and_compare np_interp user_hz (hz (reference_pitch c)) tm PITCH_HOP_SECONDS)
       (\<lambda>(aligned_reference_hz, deviations_cents).
     Inr (stage_done ''pitch'' ms (pitch_data user_hz aligned_reference_hz deviations_cents))))))"

section \<open>Lemmas on the embedding\<close>

lemma frame_dist_2 [simp]: "frame_dist [a, b] [c, d] = sqrt ((a - c)\<^sup>2 + (b - d)\<^sup>2)"
  by (simp add: frame_dist_def power2_eq_square)

lemma embed_frame_cases: "embed_frame x = [0, 0] \<or> (\<exists>t. embed_frame x = [cos t, sin t])"
  by (cases x) (auto simp: embed_frame_def Let_def)

lemma chord_le_2: "sqrt ((cos s - cos t)\<^sup>2 + (sin s - sin t)\<^sup>2) \<le> 2"
proof -
  have "(cos s - cos t)\<^sup>2 + (sin s - sin t)\<^sup>2 =
      (cos s)\<^sup>2 + (sin s)\<^sup>2 + ((cos t)\<^sup>2 + (sin t)\<^sup>2) - 2 * (cos s * cos t + sin s * sin t)"
    by (simp add: power2_eq_square algebra_simps)
  also have "\<dots> = 2 - 2 * cos (s - t)" by (simp add: cos_diff)
  also have "\<dots> \<le> 2\<^sup>2" using cos_ge_minus_one [of "s - t"] by (simp del: cos_ge_minus_one)
  finally have "sqrt ((cos s - cos t)\<^sup>2 + (sin s - sin t)\<^sup>2) \<le> sqrt (2\<^sup>2)" by (rule real_sqrt_le_mono)
  then show ?thesis by simp
qed

lemma embed_dist_le_2: "frame_dist (embed_frame x) (embed_frame y) \<le> 2"
  using embed_frame_cases [of x] embed_frame_cases [of y] chord_le_2 by auto

lemma embed_unvoiced_dist: "0 < v \<Longrightarrow> frame_dist (embed_frame None) (embed_frame (Some v)) = 1"
  by (simp add: embed_frame_def Let_def)

lemma embed_octave:
  assumes "0 < v"
  shows "embed_frame (Some (2 powr of_int k * v)) = embed_frame (Some v)"
proof -
  have "log 2 (2 powr of_int k * v / PITCH_FMIN_HZ) = of_int k + log 2 (v / PITCH_FMIN_HZ)"
    using assms by (simp add: PITCH_FMIN_HZ_def log_mult log_divide)
  moreover have "\<not> 2 powr of_int k * v \<le> 0" using assms by (simp add: not_le)
  ultimately show ?thesis using assms by (simp add: embed_frame_def frac_def)
qed

section \<open>Lemmas on the comparison\<close>

lemma score_percent: "0 \<le> x \<Longrightarrow> 0 \<le> score_from_mean_abs_cents x \<and> score_from_mean_abs_cents x \<le> 100"
  unfolding score_from_mean_abs_cents_def
  by (rule py_round_to_percent) (simp_all add: PITCH_SCORE_CENTS_FOR_ZERO_def)

lemma score_antimono: "x \<le> y \<Longrightarrow> score_from_mean_abs_cents y \<le> score_from_mean_abs_cents x"
  unfolding score_from_mean_abs_cents_def PITCH_SCORE_CENTS_FOR_ZERO_def
  by (rule py_round_to_mono) simp

lemma mean_abs_nonneg: "0 \<le> mean_abs cs"
  by (auto simp: mean_abs_def mean_def intro!: divide_nonneg_nonneg sum_list_nonneg)

lemma reference_at_in:
  "reference_at np_interp tm hop reference_hz i = Some r \<Longrightarrow> Some r \<in> set reference_hz"
  unfolding reference_at_def Let_def by (metis nat_less_iff nth_mem option.distinct(1))

lemma deviation_total:
  assumes "\<And>u. x = Some u \<Longrightarrow> 0 < u" and "\<And>r. y = Some r \<Longrightarrow> 0 < r"
  shows "\<exists>d. deviation x y = Inr d"
  using assms by (cases x; cases y) (auto simp: deviation_def cents_deviation_def zero_less_divide_iff not_le)

lemma compare_from_lists:
  "compare_from np_interp tm hop reference_hz i user_hz = Inr (rs, ds) \<Longrightarrow>
     length rs = length user_hz \<and> length ds = length user_hz \<and>
     (\<forall>k < length user_hz. rs ! k = reference_at np_interp tm hop reference_hz (i + k) \<and>
        deviation (user_hz ! k) (rs ! k) = Inr (ds ! k))"
proof (induction user_hz arbitrary: i rs ds)
  case (Cons u user_hz)
  then obtain d rs' ds' where d: "deviation u (reference_at np_interp tm hop reference_hz i) = Inr d"
    and r: "compare_from np_interp tm hop reference_hz (Suc i) user_hz = Inr (rs', ds')"
    and eq: "rs = reference_at np_interp tm hop reference_hz i # rs'" "ds = d # ds'"
    by (auto simp: Let_def and_then_eq_Inr)
  show ?case
  proof (intro conjI allI impI)
    fix k
    assume k: "k < length (u # user_hz)"
    show "rs ! k = reference_at np_interp tm hop reference_hz (i + k)"
      and "deviation ((u # user_hz) ! k) (rs ! k) = Inr (ds ! k)"
      using Cons.IH [OF r] d eq k by (cases k; simp)+
  qed (use Cons.IH [OF r] eq in simp_all)
qed simp

lemma compare_from_total:
  assumes "\<And>u. Some u \<in> set user_hz \<Longrightarrow> 0 < u" and "\<And>r. Some r \<in> set reference_hz \<Longrightarrow> 0 < r"
  shows "\<exists>p. compare_from np_interp tm hop reference_hz i user_hz = Inr p"
  using assms(1)
proof (induction user_hz arbitrary: i)
  case (Cons u user_hz)
  obtain d where "deviation u (reference_at np_interp tm hop reference_hz i) = Inr d"
    using deviation_total Cons.prems assms(2) reference_at_in by (metis list.set_intros(1))
  moreover obtain p where "compare_from np_interp tm hop reference_hz (Suc i) user_hz = Inr p"
    using Cons.IH [of "Suc i"] Cons.prems by auto
  ultimately show ?case by (cases p) (auto simp: Let_def)
qed simp

lemmas pr_simps = piano_roll_data.select_convs

section \<open>Properties\<close>

text \<open>
  The embedding forgets the octave and nothing else that alignment sees: two pitches a whole number
  of octaves apart are the same point, an unvoiced frame is at distance 1 from every voiced one, and
  no two frames are further than 2 apart.
\<close>

theorem embedding_distances:
  assumes "0 < v"
  shows "frame_dist (embed_frame (Some (2 powr of_int k * v))) (embed_frame y) =
      frame_dist (embed_frame (Some v)) (embed_frame y) \<and>
    frame_dist (embed_frame None) (embed_frame (Some v)) = 1 \<and>
    frame_dist (embed_frame (Some v)) (embed_frame y) \<le> 2"
  using embed_octave [OF assms] embed_unvoiced_dist [OF assms] embed_dist_le_2 by simp

theorem embedding_distances_witness:
  "frame_dist (embed_frame (Some (2 powr of_int (- 1) * 440))) (embed_frame None) =
    frame_dist (embed_frame (Some 440)) (embed_frame None)"
  using embedding_distances [of 440 "- 1" None] by simp

text \<open>
  When the pitch stage returns, its score is within 0 and 100, and the piano roll it stores reads
  back with lists of one entry per recording frame: the recording's own pitch, the reference pitch at
  the time the alignment gives, their deviation, and the mark of a deviation beyond the threshold.
\<close>

theorem pitch_stage_result:
  assumes "pitch_run np_interp ms c = Inr r"
  shows "\<exists>d tm score p. stage_data c ''align'' = Inr d \<and> from_align_stage_data d = Inr tm \<and>
    map_of (data r) ''score'' = Some (PFloat score) \<and> 0 \<le> score \<and> score \<le> 100 \<and>
    validate_piano_roll (the (map_of (data r) ''piano_roll'')) = Inr p \<and>
    user_hz_of d = Inr (pr_user_hz p) \<and>
    length (pr_reference_hz p) = length (pr_user_hz p) \<and> length (pr_deviation_cents p) = length (pr_user_hz p) \<and>
    pr_off_pitch p = map off_pitch (pr_deviation_cents p) \<and>
    (\<forall>k < length (pr_user_hz p).
       pr_reference_hz p ! k = reference_at np_interp tm PITCH_HOP_SECONDS (hz (reference_pitch c)) k \<and>
       deviation (pr_user_hz p ! k) (pr_reference_hz p ! k) = Inr (pr_deviation_cents p ! k))"
proof -
  from assms obtain d user_hz tm rs ds where d: "stage_data c ''align'' = Inr d" "user_hz_of d = Inr user_hz"
    "from_align_stage_data d = Inr tm"
    and cmp: "compare_from np_interp tm PITCH_HOP_SECONDS (hz (reference_pitch c)) 0 user_hz = Inr (rs, ds)"
    and r: "r = stage_done ''pitch'' ms (pitch_data user_hz rs ds)"
    by (auto simp: pitch_run_def and_then_eq_Inr align_and_compare_def)
  let ?score = "if present ds \<noteq> [] then score_from_mean_abs_cents (mean_abs (present ds)) else 0"
  let ?p = "\<lparr>pr_hop_seconds = PITCH_HOP_SECONDS, pr_user_hz = user_hz, pr_reference_hz = rs,
      pr_deviation_cents = ds, pr_off_pitch = map off_pitch ds\<rparr>"
  have "map_of (data r) ''score'' = Some (PFloat ?score)" and "0 \<le> ?score \<and> ?score \<le> 100"
    and "the (map_of (data r) ''piano_roll'') = dump_piano_roll ?p"
    using score_percent [OF mean_abs_nonneg] by (simp_all add: r pitch_data_def Let_def)
  moreover have "validate_piano_roll (dump_piano_roll ?p) = Inr ?p" by simp
  moreover note compare_from_lists [OF cmp, simplified]
  ultimately show ?thesis
    by (intro exI [of _ d] exI [of _ tm] exI [of _ ?score] exI [of _ ?p] conjI d)
      (use d in \<open>simp_all only: pr_simps, blast+\<close>)
qed

text \<open>A context for runs of concrete inputs: a recorded alignment and a reference curve.\<close>

definition demo_align_data :: "real option list \<Rightarrow> nat list \<Rightarrow> nat list \<Rightarrow> real \<Rightarrow> pydict" where
  "demo_align_data user_hz ks js offset_seconds =
     [(''index1'', PList (map (\<lambda>i. PInt (int i)) ks)),
      (''index2'', PList (map (\<lambda>i. PInt (int i)) js)),
      (''hop_seconds'', PFloat PITCH_HOP_SECONDS),
      (''normalized_distance'', PFloat 0),
      (''coarse_normalized_distance'', PFloat 0),
      (''length_mismatch'', PBool False),
      (''reference_start_offset_seconds'', PFloat offset_seconds),
      (''user_pitch_curve'', dump_curve \<lparr>hop_seconds = PITCH_HOP_SECONDS, hz = user_hz\<rparr>)]"

definition demo_context :: "real option list \<Rightarrow> (string \<rightharpoonup> stage_result) \<Rightarrow> analysis_context" where
  "demo_context reference_hz done_stages =
     \<lparr>analysis_id = ''a1'', user_id = ''u1'', song_id = ''s1'', recording_path = ''/r'', work_dir = ''/w'',
      reference_vocal_stem_path = ''/v'', reference_pitch = \<lparr>hop_seconds = PITCH_HOP_SECONDS, hz = reference_hz\<rparr>,
      reference_lyrics = None, context_mode = Clean, allow_transposition = False, context_locale = En,
      completed = done_stages\<rparr>"

lemma demo_user_hz [simp]: "user_hz_of (demo_align_data user_hz ks js offset_seconds) = Inr user_hz"
  by (simp add: user_hz_of_def demo_align_data_def read_as_def dump_curve_def)

lemma demo_time_map [simp]:
  "from_align_stage_data (demo_align_data user_hz ks js offset_seconds) =
     Inr (from_warping_path ks js PITCH_HOP_SECONDS)"
  by (simp add: from_align_stage_data_def demo_align_data_def read_as_def from_warping_path_def comp_def
      del: py_floats.simps)

lemma demo_stage_data [simp]:
  "stage_data (demo_context reference_hz [n \<mapsto> r]) m = (if m = n then Inr (data r) else Inl (not_completed m))"
  by (simp add: stage_data_def analysis_result_def demo_context_def)

lemma demo_reference [simp]: "hz (reference_pitch (demo_context reference_hz done_stages)) = reference_hz"
  by (simp add: demo_context_def)

lemma log2_half: "log 2 (1 / 2) = - 1"
proof -
  have "1 / 2 = (2::real) powr - 1" by (simp add: powr_minus_divide)
  then show ?thesis by (simp only: log_powr_cancel)
qed

text \<open>The run of the stage on a one-frame recording whose alignment starts at reference frame \<open>k\<close>.\<close>

lemma demo_pitch_run:
  "pitch_run interp_step 0 (demo_context [Some 220, Some 110]
     [''align'' \<mapsto> stage_done ''align'' 0 (demo_align_data [Some 110] [0] [0] offset)]) =
   Inr (stage_done ''pitch'' 0 (pitch_data [Some 110] [Some 220] [Some (- 1200)]))"
  by (simp add: pitch_run_def align_and_compare_def from_warping_path_def reference_at_def Let_def user_to_reference_def
      deviation_def cents_deviation_def log2_half)

theorem pitch_stage_result_witness:
  "\<exists>r p. pitch_run interp_step 0 (demo_context [Some 220, Some 110]
       [''align'' \<mapsto> stage_done ''align'' 0 (demo_align_data [Some 110] [0] [0] 0)]) = Inr r \<and>
     validate_piano_roll (the (map_of (data r) ''piano_roll'')) = Inr p \<and>
     length (pr_reference_hz p) = length (pr_user_hz p)"
  using pitch_stage_result [OF demo_pitch_run [of 0]] demo_pitch_run [of 0] by blast

end
