(* ===== verification/Features.thy ===== *)
theory Features
  imports StageData Paths
begin

text \<open>
  \<open>dsp/features.py\<close>, \<open>pipeline/voice_source.py\<close> and the stage \<open>features.py\<close>: the cached
  representations of the two recordings, the choice of the audio file that stands for the user's
  voice, and the stage that computes the cache. Decoding and the librosa analyses are parameters, and
  so are reading and writing the cache file.
\<close>

record shared_features =
  mfcc :: "real list list"
  rms_envelope :: "real list"
  rms_fine :: "real list"
  onset_times :: "real list"

record loaded_features =
  user_side :: shared_features
  reference_side :: shared_features

definition FEATURES_HOP_SECONDS :: real where
  "FEATURES_HOP_SECONDS = 1 / 20"

definition FEATURES_MFCC_COEFFICIENTS :: nat where
  "FEATURES_MFCC_COEFFICIENTS = 13"

text \<open>Reading a mono file: its samples and sample rate.\<close>

type_synonym read_mono = "string \<Rightarrow> exn + (real list \<times> nat)"

text \<open>The librosa analyses of a signal.\<close>

record librosa =
  librosa_mfcc :: "real list \<Rightarrow> nat \<Rightarrow> nat \<Rightarrow> nat \<Rightarrow> exn + real list list"
  librosa_rms :: "real list \<Rightarrow> nat \<Rightarrow> exn + real list"
  librosa_onsets :: "real list \<Rightarrow> nat \<Rightarrow> exn + real list"

definition hop_length :: "nat \<Rightarrow> real \<Rightarrow> nat" where
  "hop_length sample_rate hop = nat (max 1 (py_round (of_nat sample_rate * hop)))"

definition rms_envelope_of :: "librosa \<Rightarrow> real list \<Rightarrow> nat \<Rightarrow> real \<Rightarrow> exn + real list" where
  "rms_envelope_of lib samples sample_rate hop = librosa_rms lib samples (hop_length sample_rate hop)"

definition compute_rms_envelope :: "read_mono \<Rightarrow> librosa \<Rightarrow> string \<Rightarrow> real \<Rightarrow> exn + real list" where
  "compute_rms_envelope read lib path hop =
     and_then (read path) (\<lambda>(samples, sample_rate). rms_envelope_of lib samples sample_rate hop)"

text \<open>\<open>rms_envelope\<close> of \<open>audio/envelope.py\<close>, which decodes the file itself.\<close>

definition envelope_of_file :: "read_mono \<Rightarrow> librosa \<Rightarrow> string \<Rightarrow> real \<Rightarrow> exn + real list" where
  "envelope_of_file read lib path hop =
     and_then (read path) (\<lambda>(samples, sample_rate).
       librosa_rms lib samples (nat (max 1 (py_round (of_nat sample_rate * hop)))))"

definition compute_mfcc :: "read_mono \<Rightarrow> librosa \<Rightarrow> string \<Rightarrow> real \<Rightarrow> nat \<Rightarrow> exn + real list list" where
  "compute_mfcc read lib path hop n_mfcc =
     and_then (read path) (\<lambda>(samples, sample_rate).
       librosa_mfcc lib samples sample_rate n_mfcc (hop_length sample_rate hop))"

definition compute_shared_features ::
  "real \<Rightarrow> read_mono \<Rightarrow> librosa \<Rightarrow> string \<Rightarrow> exn + shared_features" where
  "compute_shared_features pitch_hop read lib path =
     and_then (read path) (\<lambda>(samples, sample_rate).
     and_then (librosa_mfcc lib samples sample_rate FEATURES_MFCC_COEFFICIENTS
                 (hop_length sample_rate FEATURES_HOP_SECONDS)) (\<lambda>m.
     and_then (rms_envelope_of lib samples sample_rate FEATURES_HOP_SECONDS) (\<lambda>envelope.
     and_then (rms_envelope_of lib samples sample_rate pitch_hop) (\<lambda>fine.
     and_then (librosa_onsets lib samples sample_rate) (\<lambda>onsets.
       Inr \<lparr>mfcc = m, rms_envelope = envelope, rms_fine = fine, onset_times = onsets\<rparr>)))))"

text \<open>The separated stem if there is one, else the canonical recording.\<close>

definition voice_audio_path :: "analysis_context \<Rightarrow> exn + string" where
  "voice_audio_path c =
     (case completed c ''separate_recording'' of
        Some separated \<Rightarrow> read_as py_str (data separated) ''stem_path''
      | None \<Rightarrow> and_then (stage_data c ''preprocess'') (\<lambda>d. read_as py_str d ''recording_path''))"

text \<open>The cache files written so far, and a load from them.\<close>

type_synonym load_features = "string \<Rightarrow> exn + loaded_features"

definition cached_features :: "load_features \<Rightarrow> analysis_context \<Rightarrow> exn + loaded_features" where
  "cached_features load c =
     and_then (stage_data c ''features'') (\<lambda>d. and_then (read_as py_str d ''features_path'') load)"

type_synonym npz_files = "string \<rightharpoonup> loaded_features"

definition load_shared_features :: "npz_files \<Rightarrow> load_features" where
  "load_shared_features files path =
     (case files path of None \<Rightarrow> Inl (Crash ''FileNotFoundError'' path) | Some f \<Rightarrow> Inr f)"

definition save_shared_features ::
  "string \<Rightarrow> shared_features \<Rightarrow> shared_features \<Rightarrow> (npz_files, exn, unit) prog" where
  "save_shared_features path user reference =
     modifyp (\<lambda>files. files(path \<mapsto> \<lparr>user_side = user, reference_side = reference\<rparr>))"

definition features_run ::
  "real \<Rightarrow> read_mono \<Rightarrow> librosa \<Rightarrow> int \<Rightarrow> analysis_context \<Rightarrow> (npz_files, exn, stage_result) prog" where
  "features_run pitch_hop read lib ms c =
     bindp (liftp (and_then (voice_audio_path c) (compute_shared_features pitch_hop read lib))) (\<lambda>user_features.
     bindp (liftp (compute_shared_features pitch_hop read lib (reference_vocal_stem_path c))) (\<lambda>reference_features.
       let features_path = path_join (work_dir c) ''features.npz''
       in thenp (save_shared_features features_path user_features reference_features)
            (ret (stage_done ''features'' ms [(''features_path'', PStr features_path)]))))"

section \<open>Properties\<close>

text \<open>It is the envelope that the recording condition stage computes by way of \<open>dsp/features.py\<close>.\<close>

lemma envelope_of_file_eq: "envelope_of_file read lib path hop = compute_rms_envelope read lib path hop"
  by (simp add: envelope_of_file_def compute_rms_envelope_def rms_envelope_of_def hop_length_def)

text \<open>
  After the features stage, every later stage of the analysis loads exactly the features of the
  user's voice and of the reference stem: the voice is the separated stem when the recording was
  separated, and the canonical recording otherwise.
\<close>

theorem features_cached:
  assumes "features_run pitch_hop read lib ms c files = (Inr r, files')"
  shows "\<exists>voice user reference. voice_audio_path c = Inr voice \<and>
    compute_shared_features pitch_hop read lib voice = Inr user \<and>
    compute_shared_features pitch_hop read lib (reference_vocal_stem_path c) = Inr reference \<and>
    cached_features (load_shared_features files') (analysis_with_result c r) =
      Inr \<lparr>user_side = user, reference_side = reference\<rparr>"
  using assms
  by (auto simp: features_run_def bindp_eq_Inr thenp_eq_Inr Let_def and_then_eq_Inr save_shared_features_def
      cached_features_def stage_data_result read_as_def load_shared_features_def)

definition demo_librosa :: librosa where
  "demo_librosa =
     \<lparr>librosa_mfcc = (\<lambda>xs rate n hop. Inr [xs]), librosa_rms = (\<lambda>xs hop. Inr xs),
      librosa_onsets = (\<lambda>xs rate. Inr [])\<rparr>"

definition demo_features_context :: analysis_context where
  "demo_features_context =
     \<lparr>analysis_id = ''a1'', user_id = ''u1'', song_id = ''s1'', recording_path = ''/r'', work_dir = ''/w'',
      reference_vocal_stem_path = ''/v'', reference_pitch = \<lparr>hop_seconds = 1, hz = []\<rparr>,
      reference_lyrics = None, context_mode = Mixed, allow_transposition = False, context_locale = En,
      completed = [''separate_recording'' \<mapsto> stage_done ''separate_recording'' 0 [(''stem_path'', PStr ''/w/stem'')]]\<rparr>"

theorem features_cached_witness:
  "\<exists>r files user. features_run (1 / 100) (\<lambda>p. Inr (if p = ''/w/stem'' then [1] else [2], 100)) demo_librosa 0
      demo_features_context Map.empty = (Inr r, files) \<and>
    cached_features (load_shared_features files) (analysis_with_result demo_features_context r) = Inr user \<and>
    rms_fine (user_side user) = [1]"
proof -
  let ?read = "\<lambda>p. Inr (if p = ''/w/stem'' then [1] else [2], 100)"
  obtain r files where run: "features_run (1 / 100) ?read demo_librosa 0 demo_features_context Map.empty = (Inr r, files)"
    by (simp add: features_run_def bindp_def thenp_def demo_features_context_def demo_librosa_def voice_audio_path_def
        read_as_def compute_shared_features_def rms_envelope_of_def save_shared_features_def Let_def)
  from features_cached [OF run] run show ?thesis
    by (auto simp: demo_features_context_def demo_librosa_def voice_audio_path_def read_as_def
        compute_shared_features_def rms_envelope_of_def and_then_eq_Inr)
qed

end
