(* ===== verification/Align.thy ===== *)
theory Align
  imports Pitch Vad Features
begin

text \<open>
  \<open>pipeline/stages/align.py\<close>: the two-level alignment of the recording with the reference. A
  coarse banded pass over every fifth frame gives the centre of the fine pass; lengths that differ
  too much are cropped to the shorter; when the direct attempt fails, the best few start offsets
  into the reference are tried. Decoding, the feature cache, the pitch detector, \<open>np.interp\<close> and
  \<open>np.argsort\<close> are parameters. The lemmas show what a returned alignment satisfies and that every
  failure of the stage's own is one the runner does not retry.
\<close>

section \<open>Constants\<close>

definition ALIGN_WINDOW_SECONDS :: real where
  "ALIGN_WINDOW_SECONDS = 10"

definition ALIGN_REFINE_WINDOW_SECONDS :: real where
  "ALIGN_REFINE_WINDOW_SECONDS = 2 / 10"

definition ALIGN_PITCH_MAX_NORMALIZED_DISTANCE :: real where
  "ALIGN_PITCH_MAX_NORMALIZED_DISTANCE = 45 / 100"

definition ALIGN_MAX_START_OFFSET_SECONDS :: real where
  "ALIGN_MAX_START_OFFSET_SECONDS = 60"

definition ALIGN_START_OFFSET_CANDIDATE_COUNT :: nat where
  "ALIGN_START_OFFSET_CANDIDATE_COUNT = 3"

definition MIN_VOICED_FRACTION :: real where
  "MIN_VOICED_FRACTION = 5 / 100"

section \<open>One attempt\<close>

definition crop_to_overlap :: "frame list \<Rightarrow> frame list \<Rightarrow> nat \<Rightarrow> frame list \<times> frame list \<times> bool" where
  "crop_to_overlap user_embedding reference_embedding coarse_band =
     (let n = length user_embedding; m = length reference_embedding
      in if \<bar>int n - int m\<bar> \<le> int coarse_band then (user_embedding, reference_embedding, False)
         else if m > n then (user_embedding, take n reference_embedding, True)
         else (take m user_embedding, reference_embedding, True))"

record align_attempt =
  fine :: warping_path
  coarse :: warping_path
  length_mismatch :: bool

definition attempt_align ::
  "interp \<Rightarrow> real option list \<Rightarrow> real option list \<Rightarrow> nat \<Rightarrow> nat \<Rightarrow> nat \<Rightarrow> nat \<Rightarrow> exn + align_attempt" where
  "attempt_align np_interp user_hz reference_hz offset_frames coarse_stride coarse_band refine_band =
     (let offset_reference_hz = drop offset_frames reference_hz;
          user_coarse = embed_pitch_curve (strided coarse_stride user_hz);
          reference_coarse = embed_pitch_curve (strided coarse_stride offset_reference_hz);
          (cropped_user_coarse, cropped_reference_coarse, mismatch) =
            crop_to_overlap user_coarse reference_coarse coarse_band
      in and_then (banded_dtw cropped_user_coarse cropped_reference_coarse coarse_band None) (\<lambda>coarse_path.
         let keep_frames = min (length cropped_user_coarse) (length cropped_reference_coarse) * coarse_stride;
             user_fine = embed_pitch_curve user_hz;
             reference_fine = embed_pitch_curve offset_reference_hz;
             cropped_user_fine = (if mismatch then take keep_frames user_fine else user_fine);
             cropped_reference_fine = (if mismatch then take keep_frames reference_fine else reference_fine);
             refine_full_center = refine_center np_interp coarse_path (of_nat coarse_stride * PITCH_HOP_SECONDS)
               PITCH_HOP_SECONDS (length cropped_user_fine) (length cropped_reference_fine)
         in and_then (banded_dtw cropped_user_fine cropped_reference_fine refine_band (Some refine_full_center))
              (\<lambda>fine_path. Inr \<lparr>fine = fine_path, coarse = coarse_path, length_mismatch = mismatch\<rparr>)))"

section \<open>The search for a start offset\<close>

text \<open>\<open>except AlignmentFailed\<close>.\<close>

definition is_alignment_failed :: "exn \<Rightarrow> bool" where
  "is_alignment_failed e = (case e of Raised p \<Rightarrow> isinstance (err_class p) AlignmentFailed | Crash _ _ \<Rightarrow> False)"

definition within_ceiling :: "align_attempt \<Rightarrow> bool" where
  "within_ceiling a \<longleftrightarrow> normalized_distance (fine a) \<le> ALIGN_PITCH_MAX_NORMALIZED_DISTANCE"

text \<open>The loop over the candidates; \<open>attempt\<close> is the attempt at an offset.\<close>

fun try_candidates ::
  "(nat \<Rightarrow> exn + align_attempt) \<Rightarrow> cost list \<Rightarrow> exn \<Rightarrow> nat list \<Rightarrow> exn + (nat \<times> align_attempt)" where
  "try_candidates attempt scores original_exc [] = Inl original_exc"
| "try_candidates attempt scores original_exc (offset_frames # candidates) =
     (if offset_frames = 0 \<or> scores ! offset_frames = Infinity
      then try_candidates attempt scores original_exc candidates
      else case attempt offset_frames of
        Inl e \<Rightarrow> if is_alignment_failed e then try_candidates attempt scores original_exc candidates else Inl e
      | Inr a \<Rightarrow>
          if within_ceiling a then Inr (offset_frames, a)
          else try_candidates attempt scores original_exc candidates)"

definition find_reference_start_offset ::
  "interp \<Rightarrow> (cost list \<Rightarrow> nat list) \<Rightarrow> real option list \<Rightarrow> real option list \<Rightarrow> nat \<Rightarrow> nat \<Rightarrow> nat \<Rightarrow> exn \<Rightarrow>
     exn + (nat \<times> align_attempt)" where
  "find_reference_start_offset np_interp np_argsort user_hz reference_hz coarse_stride coarse_band refine_band
     original_exc =
     (let max_offset_frames = min (py_round (ALIGN_MAX_START_OFFSET_SECONDS / PITCH_HOP_SECONDS))
            (int (length reference_hz) - 1)
      in if max_offset_frames < 1 then Inl original_exc
         else
           (let scores = locate_start_offset_scores (embed_pitch_curve user_hz) (embed_pitch_curve reference_hz)
                  max_offset_frames;
                candidates = take ALIGN_START_OFFSET_CANDIDATE_COUNT (np_argsort scores)
            in try_candidates
                 (\<lambda>k. attempt_align np_interp user_hz reference_hz k coarse_stride coarse_band refine_band)
                 scores original_exc candidates))"

section \<open>The stage\<close>

definition coarse_stride_frames :: nat where
  "coarse_stride_frames = nat (max 1 (py_round (FEATURES_HOP_SECONDS / PITCH_HOP_SECONDS)))"

definition coarse_band_frames :: nat where
  "coarse_band_frames = nat (max 1 (py_round (ALIGN_WINDOW_SECONDS / FEATURES_HOP_SECONDS)))"

definition refine_band_frames :: nat where
  "refine_band_frames = nat (max 1 (py_round (ALIGN_REFINE_WINDOW_SECONDS / PITCH_HOP_SECONDS)))"

definition no_voice :: "real \<Rightarrow> exn" where
  "no_voice fraction = Raised (pipeline_error_init NoVoiceDetected
     (''only '' @ show_fixed 1 (100 * fraction) @ ''% of the recording is voiced, below the ''
      @ show_fixed 0 (100 * MIN_VOICED_FRACTION) @ ''% floor'') None)"

definition too_far :: "real \<Rightarrow> exn" where
  "too_far distance = alignment_failed
     (''DTW normalized distance '' @ show_fixed 2 distance @ '' exceeds the 0.45 ceiling -- ''
      @ ''recording and reference diverge too far in tempo/content to align reliably'')"

text \<open>The direct attempt at offset 0, and the search when it fails.\<close>

definition align_curves ::
  "interp \<Rightarrow> (cost list \<Rightarrow> nat list) \<Rightarrow> real option list \<Rightarrow> real option list \<Rightarrow> exn + (nat \<times> align_attempt)" where
  "align_curves np_interp np_argsort user_hz reference_hz =
     (let attempt = attempt_align np_interp user_hz reference_hz 0
            coarse_stride_frames coarse_band_frames refine_band_frames;
          direct = and_then attempt (\<lambda>a. if within_ceiling a then Inr (0, a) else Inl (too_far (normalized_distance (fine a))))
      in case direct of
           Inr r \<Rightarrow> Inr r
         | Inl e \<Rightarrow>
             if is_alignment_failed e
             then find_reference_start_offset np_interp np_argsort user_hz reference_hz
                    coarse_stride_frames coarse_band_frames refine_band_frames e
             else Inl e)"

definition align_data :: "real option list \<Rightarrow> nat \<Rightarrow> align_attempt \<Rightarrow> pydict" where
  "align_data user_hz offset_frames a =
     [(''index1'', PList (map (\<lambda>i. PInt (int i)) (index1 (fine a)))),
      (''index2'', PList (map (\<lambda>i. PInt (int i)) (index2 (fine a)))),
      (''hop_seconds'', PFloat PITCH_HOP_SECONDS),
      (''normalized_distance'', PFloat (normalized_distance (fine a))),
      (''coarse_normalized_distance'', PFloat (normalized_distance (coarse a))),
      (''length_mismatch'', PBool (length_mismatch a)),
      (''reference_start_offset_seconds'', PFloat (of_nat offset_frames * PITCH_HOP_SECONDS)),
      (''user_pitch_curve'', dump_curve \<lparr>hop_seconds = PITCH_HOP_SECONDS, hz = user_hz\<rparr>)]"

text \<open>The extraction of the recording's curve, with the release of the detector in any case.\<close>

definition extract_user_hz ::
  "read_mono \<Rightarrow> detect \<Rightarrow> ('w, exn, unit) prog \<Rightarrow> nat \<Rightarrow> real list \<Rightarrow> analysis_context \<Rightarrow>
     ('w, exn, real option list) prog" where
  "extract_user_hz read detect release sample_rate fine_rms c =
     finallyp
       (liftp (and_then (and_then (voice_audio_path c) read) (\<lambda>(user_samples, _).
          detect_gated detect user_samples sample_rate PITCH_HOP_SECONDS fine_rms)))
       release"

definition align_run ::
  "interp \<Rightarrow> (cost list \<Rightarrow> nat list) \<Rightarrow> read_mono \<Rightarrow> load_features \<Rightarrow> detect \<Rightarrow> ('w, exn, unit) prog \<Rightarrow> int \<Rightarrow>
     analysis_context \<Rightarrow> ('w, exn, stage_result) prog" where
  "align_run np_interp np_argsort read load detect release ms c =
     bindp (liftp (and_then (stage_data c ''preprocess'') (\<lambda>d. read_as py_int d ''sample_rate_hz''))) (\<lambda>sample_rate.
     bindp (liftp (cached_features load c)) (\<lambda>features.
     bindp (extract_user_hz read detect release (nat sample_rate) (rms_fine (user_side features)) c) (\<lambda>user_hz.
       if voiced_fraction user_hz < MIN_VOICED_FRACTION then throw (no_voice (voiced_fraction user_hz))
       else bindp (liftp (align_curves np_interp np_argsort user_hz (hz (reference_pitch c)))) (\<lambda>(offset_frames, a).
         ret (stage_done ''align'' ms (align_data user_hz offset_frames a))))))"

section \<open>What one attempt returns\<close>

text \<open>The shape of a warping path between sequences of \<open>n\<close> and \<open>m\<close> frames.\<close>

definition path_within :: "nat \<Rightarrow> nat \<Rightarrow> warping_path \<Rightarrow> bool" where
  "path_within n m p \<longleftrightarrow>
     index1 p \<noteq> [] \<and> length (index2 p) = length (index1 p) \<and> hd (index1 p) = 0 \<and> hd (index2 p) = 0 \<and>
     (\<forall>i \<in> set (index1 p). i < n) \<and> (\<forall>j \<in> set (index2 p). j < m)"

lemma path_within_mono: "path_within n m p \<Longrightarrow> n \<le> n' \<Longrightarrow> m \<le> m' \<Longrightarrow> path_within n' m' p"
  by (fastforce simp: path_within_def)

lemma length_embed [simp]: "length (embed_pitch_curve f0) = length f0"
  by (simp add: embed_pitch_curve_def)

lemma embed_dist_all:
  assumes "set a \<subseteq> range embed_frame" and "set b \<subseteq> range embed_frame" and "i < length a" and "j < length b"
  shows "frame_dist (a ! i) (b ! j) \<le> 2"
proof -
  obtain x y where "a ! i = embed_frame x" "b ! j = embed_frame y"
    using assms nth_mem by (metis (no_types, lifting) imageE subsetD)
  then show ?thesis by (simp add: embed_dist_le_2)
qed

lemma embed_range: "set (embed_pitch_curve f0) \<subseteq> range embed_frame"
  by (auto simp: embed_pitch_curve_def)

lemma embedded_pass:
  assumes "center_ok a center_arg" and "banded_dtw a b band center_arg = Inr p"
    and "set a \<subseteq> range embed_frame" and "set b \<subseteq> range embed_frame"
  shows "path_within (length a) (length b) p \<and> 0 \<le> normalized_distance p \<and> normalized_distance p \<le> 2"
  using dtw_path_shape [OF assms(1,2)] dtw_distance_bounds [OF assms(1,2) embed_dist_all [OF assms(3,4)]]
  by (simp add: path_within_def)

lemma crop_to_overlap_range:
  assumes "crop_to_overlap u r k = (u', r', mismatch)" and "set u \<subseteq> range embed_frame" and "set r \<subseteq> range embed_frame"
  shows "set u' \<subseteq> range embed_frame \<and> set r' \<subseteq> range embed_frame"
  using assms by (auto simp: crop_to_overlap_def Let_def split: if_splits dest: in_set_takeD)

lemma center_None [simp]: "center_ok a None"
  by (simp add: center_ok_def)

lemma attempt_align_facts:
  assumes "attempt_align np_interp user_hz reference_hz k stride band refine = Inr a"
  shows "path_within (length user_hz) (length reference_hz - k) (fine a) \<and>
    0 \<le> normalized_distance (fine a) \<and> normalized_distance (fine a) \<le> 2 \<and>
    0 \<le> normalized_distance (coarse a) \<and> normalized_distance (coarse a) \<le> 2"
proof -
  obtain u r mm where crop: "crop_to_overlap (embed_pitch_curve (strided stride user_hz))
      (embed_pitch_curve (strided stride (drop k reference_hz))) band = (u, r, mm)"
    by (metis prod_cases3)
  note range = crop_to_overlap_range [OF crop embed_range embed_range]
  define keep where "keep = min (length u) (length r) * stride"
  define uf where "uf = (if mm then take keep (embed_pitch_curve user_hz) else embed_pitch_curve user_hz)"
  define rf where "rf = (if mm then take keep (embed_pitch_curve (drop k reference_hz)) else embed_pitch_curve (drop k reference_hz))"
  from assms obtain p q where p: "banded_dtw u r band None = Inr p"
    and q: "banded_dtw uf rf refine (Some (refine_center np_interp p (of_nat stride * PITCH_HOP_SECONDS)
        PITCH_HOP_SECONDS (length uf) (length rf))) = Inr q"
    and a: "a = \<lparr>fine = q, coarse = p, length_mismatch = mm\<rparr>"
    unfolding attempt_align_def Let_def crop prod.case uf_def rf_def keep_def by (auto simp: and_then_eq_Inr)
  have "length uf \<le> length user_hz" "length rf \<le> length reference_hz - k"
    by (simp_all add: uf_def rf_def)
  moreover have "set uf \<subseteq> range embed_frame" "set rf \<subseteq> range embed_frame"
    using embed_range by (auto simp: uf_def rf_def dest: in_set_takeD)
  ultimately show ?thesis
    using embedded_pass [OF center_None p] embedded_pass [OF refine_center_ok [OF refl] q] range a path_within_mono
    by auto
qed

lemma attempt_align_errors:
  assumes "attempt_align np_interp user_hz reference_hz k stride band refine = Inl e"
  shows "\<exists>p. e = Raised p \<and> (err_class p = AlignmentTooLarge \<or> err_class p = AlignmentFailed)"
proof -
  obtain u r mm where crop: "crop_to_overlap (embed_pitch_curve (strided stride user_hz))
      (embed_pitch_curve (strided stride (drop k reference_hz))) band = (u, r, mm)"
    by (metis prod_cases3)
  show ?thesis
    using assms dtw_errors_logical [OF center_None] dtw_errors_logical [OF refine_center_ok [OF refl]]
    unfolding attempt_align_def Let_def crop prod.case by (auto simp: and_then_eq_Inl)
qed

section \<open>What the search returns\<close>

lemma try_candidates_Inr:
  "try_candidates attempt scores original_exc ks = Inr (k, a) \<Longrightarrow>
     k \<in> set ks \<and> k \<noteq> 0 \<and> attempt k = Inr a \<and> within_ceiling a"
  by (induction ks) (auto split: if_splits sum.splits)

lemma try_candidates_Inl:
  "try_candidates attempt scores original_exc ks = Inl e \<Longrightarrow>
     e = original_exc \<or> (\<exists>k \<in> set ks. attempt k = Inl e \<and> \<not> is_alignment_failed e)"
  by (induction ks) (auto split: if_splits sum.splits)

text \<open>What is documented of \<open>np.argsort\<close>: the indices of the array, in the order of its values.\<close>

definition argsort_ok :: "(cost list \<Rightarrow> nat list) \<Rightarrow> bool" where
  "argsort_ok np_argsort \<longleftrightarrow>
     (\<forall>xs. distinct (np_argsort xs) \<and> set (np_argsort xs) = {..<length xs} \<and>
       sorted_wrt (\<lambda>i j. xs ! i \<le> xs ! j) (np_argsort xs))"

definition argsort_stable :: "cost list \<Rightarrow> nat list" where
  "argsort_stable xs = sort_key (\<lambda>i. xs ! i) [0..<length xs]"

lemma argsort_stable_ok: "argsort_ok argsort_stable"
proof -
  have "sorted_wrt (\<lambda>i j. xs ! i \<le> xs ! j) (argsort_stable xs)" for xs
    using sorted_sort_key [of "\<lambda>i. xs ! i" "[0..<length xs]"] by (simp add: argsort_stable_def sorted_wrt_map)
  then show ?thesis by (simp add: argsort_ok_def argsort_stable_def atLeast0LessThan)
qed

text \<open>The offset is within the search range and inside the reference.\<close>

definition offset_allowed :: "real option list \<Rightarrow> nat \<Rightarrow> bool" where
  "offset_allowed reference_hz k \<longleftrightarrow>
     of_nat k * PITCH_HOP_SECONDS \<le> ALIGN_MAX_START_OFFSET_SECONDS \<and> (k = 0 \<or> k < length reference_hz)"

lemma find_offset_Inr:
  assumes "find_reference_start_offset np_interp np_argsort user_hz reference_hz stride band refine e = Inr (k, a)"
    and "argsort_ok np_argsort"
  shows "attempt_align np_interp user_hz reference_hz k stride band refine = Inr a \<and> within_ceiling a \<and>
    k \<noteq> 0 \<and> offset_allowed reference_hz k"
proof -
  define top where "top = min (py_round (ALIGN_MAX_START_OFFSET_SECONDS / PITCH_HOP_SECONDS)) (int (length reference_hz) - 1)"
  define scores where "scores = locate_start_offset_scores (embed_pitch_curve user_hz) (embed_pitch_curve reference_hz) top"
  have top: "\<not> top < 1" and found: "try_candidates (\<lambda>k. attempt_align np_interp user_hz reference_hz k stride band refine)
      scores e (take ALIGN_START_OFFSET_CANDIDATE_COUNT (np_argsort scores)) = Inr (k, a)"
    using assms(1) by (auto simp: find_reference_start_offset_def top_def scores_def Let_def split: if_splits)
  note c = try_candidates_Inr [OF found]
  then have "k \<in> set (np_argsort scores)" by (auto dest: in_set_takeD)
  then have "k < length scores" using assms(2) by (simp add: argsort_ok_def)
  then have k: "int k \<le> top" using top by (simp add: scores_def locate_start_offset_scores_def)
  have "py_round (ALIGN_MAX_START_OFFSET_SECONDS / PITCH_HOP_SECONDS) = 6000"
    by (simp add: ALIGN_MAX_START_OFFSET_SECONDS_def PITCH_HOP_SECONDS_def)
  with k have "k \<le> 6000" "k < length reference_hz" by (simp_all add: top_def)
  then show ?thesis using c
    by (simp add: offset_allowed_def PITCH_HOP_SECONDS_def ALIGN_MAX_START_OFFSET_SECONDS_def)
qed

lemma find_offset_Inl:
  assumes "find_reference_start_offset np_interp np_argsort user_hz reference_hz stride band refine e = Inl e'"
  shows "e' = e \<or> (\<exists>k. attempt_align np_interp user_hz reference_hz k stride band refine = Inl e')"
  using assms by (auto simp: find_reference_start_offset_def Let_def split: if_splits dest!: try_candidates_Inl)

abbreviation attempt_at :: "interp \<Rightarrow> real option list \<Rightarrow> real option list \<Rightarrow> nat \<Rightarrow> exn + align_attempt" where
  "attempt_at np_interp user_hz reference_hz k \<equiv>
     attempt_align np_interp user_hz reference_hz k coarse_stride_frames coarse_band_frames refine_band_frames"

lemma align_curves_Inr:
  assumes "align_curves np_interp np_argsort user_hz reference_hz = Inr (k, a)" and "argsort_ok np_argsort"
  shows "attempt_at np_interp user_hz reference_hz k = Inr a \<and> within_ceiling a \<and> offset_allowed reference_hz k \<and>
    (k = 0 \<longleftrightarrow> (\<exists>b. attempt_at np_interp user_hz reference_hz 0 = Inr b \<and> within_ceiling b))"
proof (cases "\<exists>b. attempt_at np_interp user_hz reference_hz 0 = Inr b \<and> within_ceiling b")
  case True
  then show ?thesis using assms(1)
    by (auto simp: align_curves_def Let_def offset_allowed_def ALIGN_MAX_START_OFFSET_SECONDS_def)
next
  case False
  then obtain e where "find_reference_start_offset np_interp np_argsort user_hz reference_hz
      coarse_stride_frames coarse_band_frames refine_band_frames e = Inr (k, a)"
    using assms(1) by (auto simp: align_curves_def Let_def and_then_def split: sum.splits if_splits)
  from find_offset_Inr [OF this assms(2)] False show ?thesis by blast
qed

lemma too_far_class: "\<exists>p. too_far x = Raised p \<and> err_class p = AlignmentFailed"
  by (simp add: too_far_def alignment_failed_def pipeline_error_init_def)

lemma align_curves_Inl:
  assumes "align_curves np_interp np_argsort user_hz reference_hz = Inl e"
  shows "\<exists>p. e = Raised p \<and> (err_class p = AlignmentTooLarge \<or> err_class p = AlignmentFailed)"
proof -
  have direct: "\<exists>p. e' = Raised p \<and> (err_class p = AlignmentTooLarge \<or> err_class p = AlignmentFailed)"
    if "and_then (attempt_at np_interp user_hz reference_hz 0)
      (\<lambda>a. if within_ceiling a then Inr (0::nat, a) else Inl (too_far (normalized_distance (fine a)))) = Inl e'" for e'
    using that attempt_align_errors too_far_class by (auto simp: and_then_eq_Inl split: if_splits) blast+
  from assms consider (d) "and_then (attempt_at np_interp user_hz reference_hz 0)
      (\<lambda>a. if within_ceiling a then Inr (0::nat, a) else Inl (too_far (normalized_distance (fine a)))) = Inl e"
    | (s) e' where "and_then (attempt_at np_interp user_hz reference_hz 0)
      (\<lambda>a. if within_ceiling a then Inr (0::nat, a) else Inl (too_far (normalized_distance (fine a)))) = Inl e'"
      "find_reference_start_offset np_interp np_argsort user_hz reference_hz
        coarse_stride_frames coarse_band_frames refine_band_frames e' = Inl e"
    by (auto simp: align_curves_def Let_def split: sum.splits if_splits)
  then show ?thesis
  proof cases
    case d
    then show ?thesis by (rule direct)
  next
    case s
    then show ?thesis using find_offset_Inl [OF s(2)] direct [OF s(1)] attempt_align_errors by blast
  qed
qed

section \<open>Alignments of very short recordings\<close>

lemma band_values [simp]:
  "coarse_stride_frames = 5" "coarse_band_frames = 200" "refine_band_frames = 20"
  by (simp_all add: coarse_stride_frames_def coarse_band_frames_def refine_band_frames_def FEATURES_HOP_SECONDS_def
      PITCH_HOP_SECONDS_def ALIGN_WINDOW_SECONDS_def ALIGN_REFINE_WINDOW_SECONDS_def)

lemma crop_close: "\<bar>int (length u) - int (length r)\<bar> \<le> int k \<Longrightarrow> crop_to_overlap u r k = (u, r, False)"
  by (simp add: crop_to_overlap_def)

lemma coarse_single:
  "banded_dtw [u] [v] 200 None = Inr \<lparr>index1 = [0], index2 = [0], normalized_distance = frame_dist u v\<rparr>"
  by (rule dtw_single) (simp_all add: center_used_def DTW_MAX_CELLS_def)

lemma fine_single:
  "banded_dtw [u] [v] 20 (Some (refine_center np_interp p ch fh (Suc 0) (Suc 0))) =
     Inr \<lparr>index1 = [0], index2 = [0], normalized_distance = frame_dist u v\<rparr>"
  using refine_center_end [of 1 np_interp p ch fh 1]
  by (intro dtw_single) (simp_all add: center_used_def DTW_MAX_CELLS_def refine_center_ok)

lemma attempt_single:
  assumes "drop k reference_hz = [y]"
  shows "\<exists>a. attempt_at np_interp [x] reference_hz k = Inr a \<and> index1 (fine a) = [0] \<and> index2 (fine a) = [0] \<and>
    normalized_distance (fine a) = frame_dist (embed_frame x) (embed_frame y)"
  unfolding attempt_align_def Let_def assms
  by (simp add: crop_close coarse_single fine_single embed_pitch_curve_def)

text \<open>One frame against two: the only path pairs it with both.\<close>

lemma warps_pair:
  assumes "warps [u] [v, v'] c band ps"
  shows "ps = [(0, 0), (0, 1)]"
proof -
  have z: "p = (0, 0) \<or> p = (0, 1)" if "p \<in> set ps" for p using assms that by (fastforce simp: warps_def)
  from assms obtain qs where ps: "ps = (0, 0) # qs" by (cases ps) (auto simp: warps_def)
  with assms obtain q rs where qs: "qs = q # rs" by (cases qs) (auto simp: warps_def)
  have "warp_step (0, 0) q" using assms ps qs by (simp add: warps_def)
  then have q: "q = (0, 1)" using z [of q] ps qs by (auto simp: warp_step_def)
  show ?thesis
  proof (cases rs)
    case (Cons r rs')
    then have "warp_step (0, 1) r" using assms ps qs q by (simp add: warps_def)
    then show ?thesis using z [of r] ps qs Cons by (auto simp: warp_step_def)
  qed (use ps qs q in simp)
qed

lemma attempt_pair:
  assumes "attempt_at np_interp [x] [y, y'] 0 = Inr a"
  shows "normalized_distance (fine a) =
    (frame_dist (embed_frame x) (embed_frame y) + frame_dist (embed_frame x) (embed_frame y')) / 2"
proof -
  from assms obtain p where q: "banded_dtw [embed_frame x] [embed_frame y, embed_frame y'] 20
      (Some (refine_center np_interp p (5 * PITCH_HOP_SECONDS) PITCH_HOP_SECONDS (length [embed_frame x])
        (length [embed_frame y, embed_frame y']))) = Inr (fine a)"
    unfolding attempt_align_def Let_def
    by (auto simp: crop_close embed_pitch_curve_def and_then_eq_Inr)
  obtain ps where "warps [embed_frame x] [embed_frame y, embed_frame y'] (center_used [embed_frame x]
      (Some (refine_center np_interp p (5 * PITCH_HOP_SECONDS) PITCH_HOP_SECONDS (length [embed_frame x])
        (length [embed_frame y, embed_frame y'])))) 20 ps"
    and d: "normalized_distance (fine a) = path_cost [embed_frame x] [embed_frame y, embed_frame y'] ps / of_nat (length ps)"
    using dtw_optimal_path [OF refine_center_ok [OF refl] q] by blast
  then have "ps = [(0, 0), (0, 1)]" using warps_pair by blast
  with d show ?thesis by (simp add: path_cost_def)
qed

lemma attempt_pair_returns: "\<exists>a. attempt_at np_interp [x] [y, y'] 0 = Inr a"
proof -
  let ?c = "\<lambda>p. refine_center np_interp p (5 * PITCH_HOP_SECONDS) PITCH_HOP_SECONDS (Suc 0) (Suc (Suc 0))"
  have "warps [u] [v, v'] (?c p) 20 [(0, 0), (0, 1)]" for u v v' p
    using refine_center_end [of 1 np_interp p "5 * PITCH_HOP_SECONDS" PITCH_HOP_SECONDS 2]
    by (simp add: warps_def warp_step_def numeral_2_eq_2)
  then have "\<exists>ps. warps [u] [v, v'] (?c p) 20 ps" for u v v' p by blast
  then have "\<exists>w. banded_dtw [u] [v, v'] 20 (Some (?c p)) = Inr w" for u v v' p
    using dtw_returns_iff [OF refine_center_ok [of "[u]" 1 np_interp p "5 * PITCH_HOP_SECONDS" PITCH_HOP_SECONDS 2], of "[v, v']" 20]
    by (auto simp: center_used_def DTW_MAX_CELLS_def numeral_2_eq_2)
  then obtain w where "banded_dtw [embed_frame x] [embed_frame y, embed_frame y'] 20
      (Some (?c \<lparr>index1 = [0], index2 = [0], normalized_distance = frame_dist (embed_frame x) (embed_frame y)\<rparr>)) = Inr w"
    by blast
  then show ?thesis
    by (simp add: attempt_align_def crop_close embed_pitch_curve_def coarse_single)
qed

text \<open>Two pitches half an octave apart are opposite points.\<close>

lemma embed_voiced:
  assumes "0 < v"
  shows "embed_frame (Some v) = [cos (2 * pi * log 2 (v / PITCH_FMIN_HZ)), sin (2 * pi * log 2 (v / PITCH_FMIN_HZ))]"
proof -
  let ?y = "log 2 (v / PITCH_FMIN_HZ)"
  have "2 * pi * frac ?y = 2 * pi * ?y - 2 * pi * of_int \<lfloor>?y\<rfloor>" by (simp add: frac_def algebra_simps)
  moreover have "cos (2 * pi * ?y - 2 * pi * of_int \<lfloor>?y\<rfloor>) = cos (2 * pi * ?y)"
    and "sin (2 * pi * ?y - 2 * pi * of_int \<lfloor>?y\<rfloor>) = sin (2 * pi * ?y)"
    by (simp_all add: cos_diff sin_diff mult.assoc [symmetric])
  ultimately show ?thesis using assms by (simp add: embed_frame_def Let_def not_le)
qed

lemma log2_sqrt2: "log 2 (sqrt 2) = 1 / 2"
proof -
  have "sqrt 2 = 2 powr (1 / 2)" by (simp add: powr_half_sqrt)
  then show ?thesis by (simp only: log_powr_cancel)
qed

lemma embed_half_octave:
  assumes "0 < v"
  shows "frame_dist (embed_frame (Some (sqrt 2 * v))) (embed_frame (Some v)) = 2"
proof -
  let ?t = "2 * pi * log 2 (v / PITCH_FMIN_HZ)"
  have "log 2 (sqrt 2 * v / PITCH_FMIN_HZ) = 1 / 2 + log 2 (v / PITCH_FMIN_HZ)"
    using assms by (simp only: times_divide_eq_right [symmetric], subst log_mult) (simp_all add: log2_sqrt2 PITCH_FMIN_HZ_def)
  then have "embed_frame (Some (sqrt 2 * v)) = [cos (?t + pi), sin (?t + pi)]"
    using embed_voiced [of "sqrt 2 * v"] assms by (simp add: algebra_simps)
  also have "\<dots> = [- cos ?t, - sin ?t]" by simp
  finally have "frame_dist (embed_frame (Some (sqrt 2 * v))) (embed_frame (Some v)) =
      sqrt ((2 * cos ?t)\<^sup>2 + (2 * sin ?t)\<^sup>2)"
    using assms by (simp add: embed_voiced power2_eq_square algebra_simps)
  also have "(2 * cos ?t)\<^sup>2 + (2 * sin ?t)\<^sup>2 = 4 * ((cos ?t)\<^sup>2 + (sin ?t)\<^sup>2)"
    by (simp only: power_mult_distrib distrib_left) simp
  finally show ?thesis by (simp only: sin_cos_squared_add2) simp
qed

section \<open>The whole stage on a one-frame recording\<close>

definition demo_features :: loaded_features where
  "demo_features =
     (let f = \<lparr>mfcc = [], rms_envelope = [1], rms_fine = [1], onset_times = []\<rparr>
      in \<lparr>user_side = f, reference_side = f\<rparr>)"

definition demo_stages :: "string \<rightharpoonup> stage_result" where
  "demo_stages =
     [''preprocess'' \<mapsto> stage_done ''preprocess'' 0
        [(''sample_rate_hz'', PInt 100), (''recording_path'', PStr ''/w/recording.wav'')],
      ''features'' \<mapsto> stage_done ''features'' 0 [(''features_path'', PStr ''/w/features.npz'')]]"

text \<open>The run with a detector that finds the pitch \<open>v\<close>, counting the releases.\<close>

definition demo_align_run :: "real \<Rightarrow> real option list \<Rightarrow> (nat, exn, stage_result) prog" where
  "demo_align_run v reference_hz =
     align_run interp_step argsort_stable (\<lambda>_. Inr ([1], 100)) (\<lambda>_. Inr demo_features)
       (\<lambda>chunk rate hop. Inr (map (\<lambda>_. Some v) chunk)) (modifyp Suc) 0 (demo_context reference_hz demo_stages)"

lemma demo_detected:
  "detect_gated (\<lambda>chunk rate hop. Inr (map (\<lambda>_. Some v) chunk)) [1] 100 PITCH_HOP_SECONDS [1] = Inr [Some v]"
  using loud_peak [of 1]
  by (simp add: detect_gated_def voiced_mask_def voiced_spans_def min_silent_run_def slice_def write_at_def
      VAD_MIN_SILENT_RUN_SECONDS_def PITCH_HOP_SECONDS_def)

lemma demo_align_run_eq:
  "demo_align_run v reference_hz n =
     bindp (liftp (align_curves interp_step argsort_stable [Some v] reference_hz)) (\<lambda>(offset_frames, a).
       ret (stage_done ''align'' 0 (align_data [Some v] offset_frames a))) (Suc n)"
  by (simp add: demo_align_run_def align_run_def bindp_def stage_data_def analysis_result_def demo_context_def
      demo_stages_def read_as_def cached_features_def extract_user_hz_def finallyp_def voice_audio_path_def
      demo_features_def demo_detected voiced_fraction_def MIN_VOICED_FRACTION_def Let_def)

lemma align_curves_direct:
  assumes "attempt_at np_interp user_hz reference_hz 0 = Inr a" and "within_ceiling a"
  shows "align_curves np_interp np_argsort user_hz reference_hz = Inr (0, a)"
  using assms by (simp add: align_curves_def)

lemma frame_dist_self [simp]: "frame_dist u u = 0"
proof -
  have "(\<Sum>(x, y) \<leftarrow> zip u u. (x - y) * (x - y)) = (0::real)" by (induction u) auto
  then show ?thesis by (simp add: frame_dist_def)
qed

lemma demo_align_direct: "\<exists>r. demo_align_run v [Some v] n = (Inr r, Suc n)"
proof -
  obtain a where "attempt_at interp_step [Some v] [Some v] 0 = Inr a" "normalized_distance (fine a) = 0"
    using attempt_single [of 0 "[Some v]" "Some v" interp_step "Some v"] by auto
  then show ?thesis
    using align_curves_direct [of interp_step "[Some v]" "[Some v]" a argsort_stable]
    by (simp add: demo_align_run_eq bindp_def within_ceiling_def ALIGN_PITCH_MAX_NORMALIZED_DISTANCE_def)
qed

text \<open>A reference that starts with one frame half an octave below the recording's only frame.\<close>

lemma demo_scores:
  assumes "0 < v"
  shows "locate_start_offset_scores (embed_pitch_curve [Some (sqrt 2 * v)])
    (embed_pitch_curve [Some v, Some (sqrt 2 * v)]) 1 = [Fin 2, Fin 0]"
  using embed_half_octave [OF assms]
  by (simp add: locate_start_offset_scores_def start_offset_score_def embed_pitch_curve_def numeral_2_eq_2)

lemma demo_offset_found:
  assumes "0 < v"
  shows "\<exists>a. align_curves interp_step argsort_stable [Some (sqrt 2 * v)] [Some v, Some (sqrt 2 * v)] = Inr (1, a) \<and>
    index1 (fine a) = [0] \<and> index2 (fine a) = [0] \<and> normalized_distance (fine a) = 0"
proof -
  let ?u = "[Some (sqrt 2 * v)]" and ?r = "[Some v, Some (sqrt 2 * v)]"
  obtain a where a: "attempt_at interp_step ?u ?r 1 = Inr a" "index1 (fine a) = [0]" "index2 (fine a) = [0]"
    "normalized_distance (fine a) = 0"
    using attempt_single [of 1 ?r "Some (sqrt 2 * v)" interp_step "Some (sqrt 2 * v)"] by auto
  have first: "argsort_stable [Fin 2, Fin 0] = [1, 0]"
    by (simp add: argsort_stable_def numeral_2_eq_2)
  have search: "find_reference_start_offset interp_step argsort_stable ?u ?r 5 200 20 e = Inr (1, a)" for e
    using a demo_scores [OF assms] first
    by (simp add: find_reference_start_offset_def ALIGN_MAX_START_OFFSET_SECONDS_def PITCH_HOP_SECONDS_def
        ALIGN_START_OFFSET_CANDIDATE_COUNT_def within_ceiling_def ALIGN_PITCH_MAX_NORMALIZED_DISTANCE_def)
  have "\<not> within_ceiling b" if "attempt_at interp_step ?u ?r 0 = Inr b" for b
    using attempt_pair [OF that] embed_half_octave [OF assms]
    by (simp add: within_ceiling_def ALIGN_PITCH_MAX_NORMALIZED_DISTANCE_def)
  moreover obtain b where "attempt_at interp_step ?u ?r 0 = Inr b" using attempt_pair_returns by blast
  ultimately have "align_curves interp_step argsort_stable ?u ?r = Inr (1, a)"
    using search by (simp add: align_curves_def is_alignment_failed_def too_far_def alignment_failed_def
        pipeline_error_init_def isinstance.simps)
  with a show ?thesis by blast
qed

section \<open>Reading the stored alignment back\<close>

lemma align_data_user_hz [simp]: "user_hz_of (align_data user_hz k a) = Inr user_hz"
  by (simp add: user_hz_of_def align_data_def read_as_def dump_curve_def)

lemma align_data_time_map [simp]:
  "from_align_stage_data (align_data user_hz k a) =
     Inr (from_warping_path (index1 (fine a)) (index2 (fine a)) PITCH_HOP_SECONDS)"
  by (simp add: from_align_stage_data_def align_data_def read_as_def from_warping_path_def comp_def
      del: py_floats.simps)

lemma same_reference: "reference_pitch (analysis_with_result c r) = reference_pitch c"
  by (simp add: analysis_with_result_def)

text \<open>What a successful run of the stage went through.\<close>

lemma align_run_Inr:
  assumes "align_run np_interp np_argsort read load detect release ms c w = (Inr r, w')"
  shows "\<exists>user_hz k a samples rate (features::loaded_features).
    detect_gated detect samples rate PITCH_HOP_SECONDS (rms_fine (user_side features)) = Inr user_hz \<and>
    MIN_VOICED_FRACTION \<le> voiced_fraction user_hz \<and>
    align_curves np_interp np_argsort user_hz (hz (reference_pitch c)) = Inr (k, a) \<and>
    r = stage_done ''align'' ms (align_data user_hz k a)"
proof -
  from assms obtain rate and features :: loaded_features and user_hz w1 w2 where
    ex: "extract_user_hz read detect release (nat rate) (rms_fine (user_side features)) c w1 = (Inr user_hz, w2)"
    and rest: "(if voiced_fraction user_hz < MIN_VOICED_FRACTION then throw (no_voice (voiced_fraction user_hz))
       else bindp (liftp (align_curves np_interp np_argsort user_hz (hz (reference_pitch c)))) (\<lambda>(offset_frames, a).
         ret (stage_done ''align'' ms (align_data user_hz offset_frames a)))) w2 = (Inr r, w')"
    by (auto simp: align_run_def bindp_eq_Inr)
  from ex obtain samples where "detect_gated detect samples (nat rate) PITCH_HOP_SECONDS (rms_fine (user_side features)) = Inr user_hz"
    by (auto simp: extract_user_hz_def finallyp_def and_then_eq_Inr split: prod.splits sum.splits)
  then show ?thesis using rest by (auto simp: bindp_eq_Inr not_less split: if_splits)
qed

text \<open>A detector returns positive frequencies; so does the gated detection built on it.\<close>

definition detects_positive :: "detect \<Rightarrow> bool" where
  "detects_positive detect \<longleftrightarrow>
     (\<forall>chunk rate hop out v. detect chunk rate hop = Inr out \<longrightarrow> Some v \<in> set out \<longrightarrow> 0 < v)"

lemma set_write_at: "set (write_at s vs result) \<subseteq> set vs \<union> set result"
proof -
  have "set (fold (\<lambda>(i, v) r. r[s + i := v]) (enumerate n vs) result) \<subseteq> set vs \<union> set result" for n
    by (induction vs arbitrary: n result) (fastforce dest!: set_update_subset_insert [THEN subsetD])+
  then show ?thesis by (simp add: write_at_def)
qed

lemma detects_positiveD:
  "detects_positive detect \<Longrightarrow> detect chunk rate hop = Inr out \<Longrightarrow> Some v \<in> set out \<Longrightarrow> 0 < v"
  unfolding detects_positive_def by blast

lemma detect_spans_positive:
  assumes "detects_positive detect" and "detect_spans detect samples rate hop spans result = Inr out"
    and "\<And>v. Some v \<in> set result \<Longrightarrow> 0 < v" and "Some v \<in> set out"
  shows "0 < v"
  using assms
proof (induction detect samples rate hop spans result rule: detect_spans.induct)
  case (2 detect samples rate hop start stop spans result)
  show ?case
  proof (cases "slice (start * nat (max 1 (py_round (of_nat rate * hop)))) (stop * nat (max 1 (py_round (of_nat rate * hop)))) samples = []")
    case True
    then show ?thesis using 2 by (simp add: Let_def)
  next
    case False
    then obtain d where d: "detect (slice (start * nat (max 1 (py_round (of_nat rate * hop))))
        (stop * nat (max 1 (py_round (of_nat rate * hop)))) samples) rate hop = Inr d"
      and run: "detect_spans detect samples rate hop spans (write_at start (take (stop - start) d) result) = Inr out"
      using 2(4) by (auto simp: Let_def split: sum.splits)
    have "0 < v" if "Some v \<in> set (write_at start (take (stop - start) d) result)" for v
    proof -
      have "Some v \<in> set d \<or> Some v \<in> set result"
        using set_write_at [THEN subsetD, OF that] by (auto dest: in_set_takeD)
      then show ?thesis using detects_positiveD [OF 2(3) d] 2(5) by blast
    qed
    then show ?thesis using 2(2) [OF refl refl False d 2(3) run] 2(6) by blast
  qed
qed simp

lemma detect_gated_positive:
  assumes "detects_positive detect" and "detect_gated detect samples rate hop rms = Inr out" and "Some v \<in> set out"
  shows "0 < v"
  by (rule detect_spans_positive [OF assms(1) assms(2) [unfolded detect_gated_def Let_def] _ assms(3)]) simp

section \<open>Properties\<close>

text \<open>
  C12: An alignment the stage returns is one within the distance ceiling, from at least a twentieth of
  voiced frames: its path starts with the first frames, stays inside the recording and inside the part
  of the reference after the start offset, and the offset is at most a minute and inside the reference.
  The offset is 0 exactly when the direct attempt is within the ceiling.
\<close>

theorem align_result:
  assumes "align_run np_interp np_argsort read load detect release ms c w = (Inr r, w')" and "argsort_ok np_argsort"
  shows "\<exists>user_hz k a. r = stage_done ''align'' ms (align_data user_hz k a) \<and>
    MIN_VOICED_FRACTION \<le> voiced_fraction user_hz \<and>
    attempt_at np_interp user_hz (hz (reference_pitch c)) k = Inr a \<and>
    0 \<le> normalized_distance (fine a) \<and> normalized_distance (fine a) \<le> ALIGN_PITCH_MAX_NORMALIZED_DISTANCE \<and>
    path_within (length user_hz) (length (hz (reference_pitch c)) - k) (fine a) \<and>
    offset_allowed (hz (reference_pitch c)) k \<and>
    (k = 0 \<longleftrightarrow> (\<exists>b. attempt_at np_interp user_hz (hz (reference_pitch c)) 0 = Inr b \<and> within_ceiling b))"
proof -
  obtain user_hz k a where "MIN_VOICED_FRACTION \<le> voiced_fraction user_hz"
    and k: "align_curves np_interp np_argsort user_hz (hz (reference_pitch c)) = Inr (k, a)"
    and "r = stage_done ''align'' ms (align_data user_hz k a)"
    using align_run_Inr [OF assms(1)] by blast
  moreover note c = align_curves_Inr [OF k assms(2)]
  moreover note attempt_align_facts [OF c [THEN conjunct1]]
  ultimately show ?thesis
    by (intro exI [of _ user_hz] exI [of _ k] exI [of _ a]) (simp add: within_ceiling_def)
qed

theorem align_result_witness:
  "\<exists>user_hz a. fst (demo_align_run 110 [Some 110] 0) = Inr (stage_done ''align'' 0 (align_data user_hz 0 a)) \<and>
    path_within (length user_hz) 1 (fine a)"
proof -
  obtain r where r: "demo_align_run 110 [Some 110] 0 = (Inr r, Suc 0)" using demo_align_direct by blast
  from align_result [OF r [unfolded demo_align_run_def] argsort_stable_ok]
  obtain user_hz k a where "r = stage_done ''align'' 0 (align_data user_hz k a)"
    and "path_within (length user_hz) (1 - k) (fine a)" and "offset_allowed [Some 110] k"
    by auto
  then show ?thesis using r by (auto simp: offset_allowed_def)
qed

text \<open>
  Once the recording's pitch is extracted, the stage fails only with errors of the audio itself (no
  voice, no alignment, an alignment too large), which the runner does not retry; and the detector is
  released exactly once before.
\<close>

theorem align_errors_not_retried:
  assumes "align_run np_interp np_argsort read load detect release ms c w = (Inl e, w')"
    and "and_then (stage_data c ''preprocess'') (\<lambda>d. read_as py_int d ''sample_rate_hz'') = Inr rate"
    and "cached_features load c = Inr features"
    and "extract_user_hz read detect release (nat rate) (rms_fine (user_side features)) c w = (Inr user_hz, w1)"
  shows "\<exists>p. e = Raised p \<and> is_logical p \<and>
      (err_class p = NoVoiceDetected \<or> err_class p = AlignmentTooLarge \<or> err_class p = AlignmentFailed) \<and>
    w' = w1 \<and> release w = (Inr (), w1)"
proof -
  have rel: "release w = (Inr (), w1)"
    using assms(4) by (auto simp: extract_user_hz_def finallyp_def split: prod.splits sum.splits)
  have rest: "(if voiced_fraction user_hz < MIN_VOICED_FRACTION then throw (no_voice (voiced_fraction user_hz))
       else bindp (liftp (align_curves np_interp np_argsort user_hz (hz (reference_pitch c)))) (\<lambda>(offset_frames, a).
         ret (stage_done ''align'' ms (align_data user_hz offset_frames a)))) w1 = (Inl e, w')"
    using assms by (simp add: align_run_def bindp_def)
  show ?thesis
  proof (cases "voiced_fraction user_hz < MIN_VOICED_FRACTION")
    case True
    then show ?thesis using rest rel
      by (auto simp: no_voice_def pipeline_error_init_def is_logical_def isinstance.simps)
  next
    case False
    then have "align_curves np_interp np_argsort user_hz (hz (reference_pitch c)) = Inl e" "w' = w1"
      using rest by (auto simp: bindp_def split: sum.splits prod.splits)
    from align_curves_Inl [OF this(1)] this(2) rel show ?thesis
      by (auto simp: is_logical_def isinstance.simps)
  qed
qed

theorem align_errors_not_retried_witness:
  "\<exists>p. fst (align_run interp_step argsort_stable (\<lambda>_. Inr ([1], 100)) (\<lambda>_. Inr demo_features)
      (\<lambda>chunk rate hop. Inr [None]) (modifyp Suc) 0 (demo_context [] demo_stages) (0::nat)) = Inl (Raised p) \<and>
    is_logical p"
proof -
  have d: "detect_gated (\<lambda>chunk rate hop. Inr [None]) [1] 100 PITCH_HOP_SECONDS [1] = Inr [None]"
    using loud_peak [of 1]
    by (simp add: detect_gated_def voiced_mask_def voiced_spans_def min_silent_run_def slice_def write_at_def
        VAD_MIN_SILENT_RUN_SECONDS_def PITCH_HOP_SECONDS_def)
  let ?run = "align_run interp_step argsort_stable (\<lambda>_. Inr ([1], 100)) (\<lambda>_. Inr demo_features)
      (\<lambda>chunk rate hop. Inr [None]) (modifyp Suc) 0 (demo_context [] demo_stages) (0::nat)"
  have r: "and_then (stage_data (demo_context [] demo_stages) ''preprocess'') (\<lambda>d. read_as py_int d ''sample_rate_hz'') = Inr 100"
    and f: "cached_features (\<lambda>_. Inr demo_features) (demo_context [] demo_stages) = Inr demo_features"
    and x: "extract_user_hz (\<lambda>_. Inr ([1], 100)) (\<lambda>chunk rate hop. Inr [None]) (modifyp Suc) (nat 100)
      (rms_fine (user_side demo_features)) (demo_context [] demo_stages) (0::nat) = (Inr [None], Suc 0)"
    using d by (simp_all add: stage_data_def analysis_result_def demo_context_def demo_stages_def read_as_def
        cached_features_def extract_user_hz_def finallyp_def voice_audio_path_def demo_features_def Let_def)
  obtain e where run: "?run = (Inl e, Suc 0)"
    using r f x by (simp add: align_run_def bindp_def voiced_fraction_def MIN_VOICED_FRACTION_def)
  from align_errors_not_retried [OF run r f x] run show ?thesis by auto
qed

text \<open>
  After a successful alignment the pitch stage cannot fail: with a detector that returns positive
  frequencies and a reference curve of positive frequencies, it returns a result from what the
  alignment stored.
\<close>

theorem align_then_pitch:
  assumes "align_run np_interp np_argsort read load detect release ms c w = (Inr r, w')"
    and "detects_positive detect" and "\<And>v. Some v \<in> set (hz (reference_pitch c)) \<Longrightarrow> 0 < v"
  shows "\<exists>r'. pitch_run np_interp' ms' (analysis_with_result c r) = Inr r'"
proof -
  obtain user_hz k a samples rate and features :: loaded_features where
    u: "detect_gated detect samples rate PITCH_HOP_SECONDS (rms_fine (user_side features)) = Inr user_hz"
    and r: "r = stage_done ''align'' ms (align_data user_hz k a)"
    using align_run_Inr [OF assms(1)] by blast
  obtain p where "compare_from np_interp' (from_warping_path (index1 (fine a)) (index2 (fine a)) PITCH_HOP_SECONDS)
      PITCH_HOP_SECONDS (hz (reference_pitch c)) 0 user_hz = Inr p"
    using compare_from_total [OF detect_gated_positive [OF assms(2) u] assms(3)] by blast
  then show ?thesis
    by (cases p) (simp add: pitch_run_def stage_data_result r align_and_compare_def same_reference)
qed

theorem align_then_pitch_witness:
  "\<exists>r r'. fst (demo_align_run 110 [Some 110] 0) = Inr r \<and>
    pitch_run interp_step 0 (analysis_with_result (demo_context [Some 110] demo_stages) r) = Inr r'"
proof -
  obtain r where r: "demo_align_run 110 [Some 110] 0 = (Inr r, Suc 0)" using demo_align_direct by blast
  have "detects_positive (\<lambda>chunk rate hop. Inr (map (\<lambda>_. Some 110) chunk))" by (auto simp: detects_positive_def)
  from align_then_pitch [OF r [unfolded demo_align_run_def] this, of interp_step 0] r show ?thesis by auto
qed


end
