(* ===== verification/Aspects.thy ===== *)
theory Aspects
  imports Vad Features Pitch
begin

text \<open>
  The aspect stages that compare cached features through the time map: \<open>rhythm.py\<close>,
  \<open>dynamics.py\<close>, \<open>timbre.py\<close> and \<open>breath.py\<close>. NumPy's interpolation, standard deviation and
  correlation coefficient are parameters. The lemmas show that every score is within 0 and 100, that
  a reference onset is compared with a nearest onset of the recording, and that the pauses are the
  maximal silent runs that are long enough.
\<close>

section \<open>Rhythm\<close>

definition RHYTHM_ONSET_TOLERANCE_MS :: real where
  "RHYTHM_ONSET_TOLERANCE_MS = 200"

definition score_from_mean_abs_offset_ms :: "real \<Rightarrow> real" where
  "score_from_mean_abs_offset_ms mean_abs_offset_ms =
     py_round_to 1 (100 * (1 - min 1 (mean_abs_offset_ms / RHYTHM_ONSET_TOLERANCE_MS)))"

text \<open>\<open>min(user_onsets, key=lambda c: abs(c - t), default=None)\<close>: the first of the nearest.\<close>

fun nearest :: "real \<Rightarrow> real list \<Rightarrow> real option" where
  "nearest t [] = None"
| "nearest t (x # xs) =
     (case nearest t xs of
        None \<Rightarrow> Some x
      | Some y \<Rightarrow> if \<bar>y - t\<bar> < \<bar>x - t\<bar> then Some y else Some x)"

definition onset_offsets_ms :: "interp \<Rightarrow> time_map \<Rightarrow> real list \<Rightarrow> real list \<Rightarrow> real list" where
  "onset_offsets_ms np_interp tm user_onsets reference_onsets =
     [\<bar>n - reference_to_user np_interp tm t\<bar> * 1000.
        t \<leftarrow> reference_onsets,
        n \<leftarrow> (case nearest (reference_to_user np_interp tm t) user_onsets of None \<Rightarrow> [] | Some n \<Rightarrow> [n])]"

definition rhythm_data :: "real list \<Rightarrow> nat \<Rightarrow> nat \<Rightarrow> pydict" where
  "rhythm_data offsets_ms reference_count user_count =
     (let mean_abs_offset_ms = (if offsets_ms \<noteq> [] then mean offsets_ms else 0)
      in [(''score'', PFloat (if offsets_ms \<noteq> [] then score_from_mean_abs_offset_ms mean_abs_offset_ms else 0)),
          (''mean_abs_offset_ms'', PFloat mean_abs_offset_ms),
          (''onsets_within_tolerance'',
             PInt (int (length (filter (\<lambda>x. x \<le> RHYTHM_ONSET_TOLERANCE_MS) offsets_ms)))),
          (''reference_onset_count'', PInt (int reference_count)),
          (''user_onset_count'', PInt (int user_count))])"

definition rhythm_run :: "interp \<Rightarrow> load_features \<Rightarrow> int \<Rightarrow> analysis_context \<Rightarrow> exn + stage_result" where
  "rhythm_run np_interp load ms c =
     and_then (cached_features load c) (\<lambda>features.
     and_then (and_then (stage_data c ''align'') from_align_stage_data) (\<lambda>tm.
       let user_onsets = onset_times (user_side features);
           reference_onsets = onset_times (reference_side features)
       in Inr (stage_done ''rhythm'' ms
            (rhythm_data (onset_offsets_ms np_interp tm user_onsets reference_onsets)
               (length reference_onsets) (length user_onsets)))))"

section \<open>Dynamics\<close>

text \<open>\<open>np.std\<close> and the off-diagonal entry of \<open>np.corrcoef\<close>.\<close>

type_synonym np_std = "real list \<Rightarrow> real"
type_synonym np_corrcoef = "real list \<Rightarrow> real list \<Rightarrow> real"

definition correlation :: "np_std \<Rightarrow> np_corrcoef \<Rightarrow> real list \<Rightarrow> real list \<Rightarrow> real" where
  "correlation std corrcoef a b =
     (if length a < 2 \<or> std a = 0 \<or> std b = 0 then 0 else corrcoef a b)"

definition dynamics_run ::
  "interp \<Rightarrow> np_std \<Rightarrow> np_corrcoef \<Rightarrow> load_features \<Rightarrow> int \<Rightarrow> analysis_context \<Rightarrow> exn + stage_result" where
  "dynamics_run np_interp std corrcoef load ms c =
     and_then (cached_features load c) (\<lambda>features.
     and_then (and_then (stage_data c ''align'') from_align_stage_data) (\<lambda>tm.
       let user_rms = rms_envelope (user_side features); reference_rms = rms_envelope (reference_side features)
       in and_then (resample_reference_onto_user_grid np_interp tm user_rms reference_rms FEATURES_HOP_SECONDS)
            (\<lambda>aligned_reference.
              let r = correlation std corrcoef user_rms aligned_reference
              in Inr (stage_done ''dynamics'' ms
                   [(''score'', PFloat (py_round_to 1 (100 * max 0 r))), (''correlation'', PFloat r)]))))"

section \<open>Timbre\<close>

definition dot :: "real list \<Rightarrow> real list \<Rightarrow> real" where
  "dot a b = (\<Sum>(x, y) \<leftarrow> zip a b. x * y)"

definition vec_norm :: "real list \<Rightarrow> real" where
  "vec_norm a = sqrt (dot a a)"

text \<open>The vectors have the same length, so \<open>np.dot\<close> is defined.\<close>

definition cosine_similarity :: "real list \<Rightarrow> real list \<Rightarrow> real" where
  "cosine_similarity a b =
     (let denom = vec_norm a * vec_norm b in if denom = 0 then 0 else dot a b / denom)"

fun similarities_from ::
  "interp \<Rightarrow> time_map \<Rightarrow> real list list \<Rightarrow> nat \<Rightarrow> real list list \<Rightarrow> exn + real list" where
  "similarities_from np_interp tm reference_mfcc i [] = Inr []"
| "similarities_from np_interp tm reference_mfcc i (user_vector # user_mfcc) =
     (let reference_time = user_to_reference np_interp tm (of_nat i * FEATURES_HOP_SECONDS);
          last_index = int (length reference_mfcc) - 1;
          reference_index = min (max (py_round (reference_time / FEATURES_HOP_SECONDS)) 0) last_index
      in and_then (np_index reference_mfcc reference_index) (\<lambda>reference_vector.
         and_then (similarities_from np_interp tm reference_mfcc (Suc i) user_mfcc) (\<lambda>xs.
           Inr (cosine_similarity user_vector reference_vector # xs))))"

definition timbre_run :: "interp \<Rightarrow> load_features \<Rightarrow> int \<Rightarrow> analysis_context \<Rightarrow> exn + stage_result" where
  "timbre_run np_interp load ms c =
     and_then (cached_features load c) (\<lambda>features.
     and_then (and_then (stage_data c ''align'') from_align_stage_data) (\<lambda>tm.
     and_then (similarities_from np_interp tm (mfcc (reference_side features)) 0 (mfcc (user_side features)))
       (\<lambda>similarities.
         let mean_similarity = (if similarities \<noteq> [] then mean similarities else 0)
         in Inr (stage_done ''timbre'' ms
              [(''score'', PFloat (py_round_to 1 (100 * max 0 mean_similarity))),
               (''mean_cosine_similarity'', PFloat mean_similarity)]))))"

section \<open>Breath\<close>

definition BREATH_MIN_PAUSE_SECONDS :: real where
  "BREATH_MIN_PAUSE_SECONDS = 2 / 10"

definition BREATH_PAUSE_MATCH_TOLERANCE_SECONDS :: real where
  "BREATH_PAUSE_MATCH_TOLERANCE_SECONDS = 5 / 10"

text \<open>\<open>20 * log10(x / peak) < BREATH_SILENCE_RELATIVE_DB\<close>, true for \<open>x = 0\<close>.\<close>

definition silent :: "real \<Rightarrow> real \<Rightarrow> bool" where
  "silent peak x \<longleftrightarrow> x = 0 \<or> (0 < x \<and> 20 * log 10 (x / peak) < BREATH_SILENCE_RELATIVE_DB)"

fun pause_loop :: "nat \<Rightarrow> real \<Rightarrow> nat \<Rightarrow> nat option \<Rightarrow> bool list \<Rightarrow> (real \<times> real) list" where
  "pause_loop k hop i run_start [] =
     (case run_start of
        None \<Rightarrow> []
      | Some s \<Rightarrow> if i - s \<ge> k then [(of_nat s * hop, of_nat i * hop)] else [])"
| "pause_loop k hop i run_start (q # qs) =
     (case run_start of
        None \<Rightarrow> pause_loop k hop (i + 1) (if q then Some i else None) qs
      | Some s \<Rightarrow>
          if q then pause_loop k hop (i + 1) (Some s) qs
          else (if i - s \<ge> k then [(of_nat s * hop, of_nat i * hop)] else [])
                 @ pause_loop k hop (i + 1) None qs)"

definition min_pause_frames :: "real \<Rightarrow> nat" where
  "min_pause_frames hop = nat (max 1 (py_round (BREATH_MIN_PAUSE_SECONDS / hop)))"

definition pause_regions :: "real list \<Rightarrow> real \<Rightarrow> (real \<times> real) list" where
  "pause_regions rms hop =
     (let peak = (if rms \<noteq> [] then Max (set rms) else 0)
      in if peak \<le> 0 then []
         else pause_loop (min_pause_frames hop) hop 0 None (map (silent peak) rms))"

definition breath_score ::
  "interp \<Rightarrow> (real \<times> real) list \<Rightarrow> (real \<times> real) list \<Rightarrow> time_map \<Rightarrow> real \<times> nat" where
  "breath_score np_interp user_regions reference_regions tm =
     (if reference_regions = [] then (100, 0)
      else
        (let user_centers = map (\<lambda>(a, b). (a + b) / 2) user_regions;
             matched = length (filter (\<lambda>(a, b).
               let expected_user_time = reference_to_user np_interp tm ((a + b) / 2)
               in list_ex (\<lambda>center. \<bar>center - expected_user_time\<bar> \<le> BREATH_PAUSE_MATCH_TOLERANCE_SECONDS)
                    user_centers) reference_regions)
         in (py_round_to 1 (100 * of_nat matched / of_nat (length reference_regions)), matched)))"

definition breath_run :: "interp \<Rightarrow> load_features \<Rightarrow> int \<Rightarrow> analysis_context \<Rightarrow> exn + stage_result" where
  "breath_run np_interp load ms c =
     and_then (cached_features load c) (\<lambda>features.
     and_then (and_then (stage_data c ''align'') from_align_stage_data) (\<lambda>tm.
       let user_regions = pause_regions (rms_envelope (user_side features)) FEATURES_HOP_SECONDS;
           reference_regions = pause_regions (rms_envelope (reference_side features)) FEATURES_HOP_SECONDS;
           (score, matched) = breath_score np_interp user_regions reference_regions tm
       in Inr (stage_done ''breath'' ms
            [(''score'', PFloat score),
             (''matched_pauses'', PInt (int matched)),
             (''reference_pause_count'', PInt (int (length reference_regions))),
             (''user_pause_count'', PInt (int (length user_regions)))])))"

section \<open>Lemmas\<close>

lemma percent_of_max: "x \<le> 1 \<Longrightarrow> 0 \<le> py_round_to 1 (100 * max 0 x) \<and> py_round_to 1 (100 * max 0 x) \<le> 100"
  by (rule py_round_to_percent) simp_all

lemma nearest_None: "nearest t xs = None \<longleftrightarrow> xs = []"
  by (cases xs) (auto split: option.splits if_splits)

lemma nearest_min: "nearest t xs = Some n \<Longrightarrow> n \<in> set xs \<and> (\<forall>x \<in> set xs. \<bar>n - t\<bar> \<le> \<bar>x - t\<bar>)"
proof (induction xs arbitrary: n)
  case (Cons x xs)
  show ?case
  proof (cases "nearest t xs")
    case None
    then show ?thesis using Cons.prems nearest_None [of t xs] by simp
  next
    case (Some y)
    then show ?thesis using Cons.prems Cons.IH [OF Some] by (auto split: if_splits)
  qed
qed simp

lemma offsets_nonneg: "x \<in> set (onset_offsets_ms np_interp tm us rs) \<Longrightarrow> 0 \<le> x"
  by (auto simp: onset_offsets_ms_def)

lemma length_offsets: "us \<noteq> [] \<Longrightarrow> length (onset_offsets_ms np_interp tm us rs) = length rs"
proof (induction rs)
  case (Cons r rs)
  then obtain n where "nearest (reference_to_user np_interp tm r) us = Some n"
    using nearest_None by (metis option.exhaust)
  with Cons show ?case by (simp add: onset_offsets_ms_def)
qed (simp add: onset_offsets_ms_def)

lemma offsets_no_user: "onset_offsets_ms np_interp tm [] rs = []"
  by (simp add: onset_offsets_ms_def)

lemma offset_score_percent:
  "0 \<le> x \<Longrightarrow> 0 \<le> score_from_mean_abs_offset_ms x \<and> score_from_mean_abs_offset_ms x \<le> 100"
  unfolding score_from_mean_abs_offset_ms_def
  by (rule py_round_to_percent) (simp_all add: RHYTHM_ONSET_TOLERANCE_MS_def)

lemma dot_self_nonneg: "0 \<le> dot a a"
  by (induction a) (auto simp: dot_def)

lemma cauchy_schwarz: "(dot a b)\<^sup>2 \<le> dot a a * dot b b"
proof (induction a arbitrary: b)
  case (Cons x a)
  show ?case
  proof (cases b)
    case Nil
    then show ?thesis by (simp add: dot_def)
  next
    case (Cons y b')
    have S: "(dot a b')\<^sup>2 \<le> dot a a * dot b' b'" by (rule Cons.IH)
    have A: "0 \<le> dot a a" and B: "0 \<le> dot b' b'" by (rule dot_self_nonneg)+
    have "\<bar>dot a b'\<bar> \<le> sqrt (dot a a) * sqrt (dot b' b')"
      using real_sqrt_le_mono [OF S] by (simp add: real_sqrt_mult)
    then have "\<bar>x * y\<bar> * \<bar>dot a b'\<bar> \<le> \<bar>x * y\<bar> * (sqrt (dot a a) * sqrt (dot b' b'))"
      by (rule mult_left_mono) simp
    moreover have "(x * y) * dot a b' \<le> \<bar>x * y\<bar> * \<bar>dot a b'\<bar>"
      using abs_ge_self [of "(x * y) * dot a b'"] by (simp only: abs_mult)
    ultimately have "2 * (x * y) * dot a b' \<le> 2 * (\<bar>x * y\<bar> * (sqrt (dot a a) * sqrt (dot b' b')))"
      by linarith
    also have "\<dots> \<le> (\<bar>y\<bar> * sqrt (dot a a))\<^sup>2 + (\<bar>x\<bar> * sqrt (dot b' b'))\<^sup>2"
      using sum_squares_bound [of "\<bar>y\<bar> * sqrt (dot a a)" "\<bar>x\<bar> * sqrt (dot b' b')"]
      by (simp add: abs_mult algebra_simps)
    also have "\<dots> = y\<^sup>2 * dot a a + x\<^sup>2 * dot b' b'"
      using A B by (simp add: power_mult_distrib)
    finally have "(dot a b' + x * y)\<^sup>2 \<le> (dot a a + x\<^sup>2) * (dot b' b' + y\<^sup>2)"
      using S by (simp add: power2_eq_square algebra_simps)
    moreover have "dot (x # a) (y # b') = dot a b' + x * y" "dot (x # a) (x # a) = dot a a + x\<^sup>2"
      "dot (y # b') (y # b') = dot b' b' + y\<^sup>2"
      by (simp_all add: dot_def power2_eq_square)
    ultimately show ?thesis using Cons by simp
  qed
qed (simp add: dot_def)

lemma cosine_le_1: "\<bar>cosine_similarity a b\<bar> \<le> 1"
proof (cases "vec_norm a * vec_norm b = 0")
  case False
  have pos: "0 < vec_norm a * vec_norm b"
    using False dot_self_nonneg [of a] dot_self_nonneg [of b]
    by (simp add: vec_norm_def zero_less_mult_iff less_le)
  have "\<bar>dot a b\<bar> \<le> vec_norm a * vec_norm b"
    using real_sqrt_le_mono [OF cauchy_schwarz [of a b]] by (simp add: vec_norm_def real_sqrt_mult)
  then show ?thesis using pos by (simp add: cosine_similarity_def Let_def abs_divide)
qed (simp add: cosine_similarity_def)

lemma similarities_le_1: "similarities_from np_interp tm refs i us = Inr xs \<Longrightarrow> x \<in> set xs \<Longrightarrow> \<bar>x\<bar> \<le> 1"
  by (induction us arbitrary: i xs) (auto simp: Let_def and_then_eq_Inr cosine_le_1)

lemma similarities_total:
  assumes "refs \<noteq> []"
  shows "\<exists>xs. similarities_from np_interp tm refs i us = Inr xs"
proof (induction us arbitrary: i)
  case (Cons u us)
  let ?k = "min (max (py_round (user_to_reference np_interp tm (of_nat i * FEATURES_HOP_SECONDS) / FEATURES_HOP_SECONDS)) 0)
      (int (length refs) - 1)"
  have "0 \<le> ?k" "?k < int (length refs)" using assms by (cases refs; simp)+
  then have "np_index refs ?k = Inr (refs ! nat ?k)" by (rule np_index_in_range)
  then show ?case using Cons [of "Suc i"] by (auto simp: Let_def)
qed simp

text \<open>The loop for pauses is the loop for spans, keeping the long ones.\<close>

lemma pause_loop_spans:
  "pause_loop k hop i r qs =
     map (\<lambda>(s, e). (of_nat s * hop, of_nat e * hop)) (filter (\<lambda>(s, e). k \<le> e - s) (span_loop i r qs))"
  by (induction k hop i r qs rule: pause_loop.induct) (auto split: option.splits)

lemma offsets_are_distances:
  "us \<noteq> [] \<Longrightarrow> onset_offsets_ms np_interp tm us rs =
     map (\<lambda>t. 1000 * Min ((\<lambda>u. \<bar>u - reference_to_user np_interp tm t\<bar>) ` set us)) rs"
proof (induction rs)
  case (Cons r rs)
  let ?t = "reference_to_user np_interp tm r"
  obtain n where n: "nearest ?t us = Some n" using Cons.prems nearest_None by (metis option.exhaust)
  then have "Min ((\<lambda>u. \<bar>u - ?t\<bar>) ` set us) = \<bar>n - ?t\<bar>"
    using nearest_min [OF n] by (intro Min_eqI) auto
  with Cons n show ?case by (simp add: onset_offsets_ms_def)
qed (simp add: onset_offsets_ms_def)

lemma set_pause_regions:
  assumes "rms \<noteq> []" and "0 < Max (set rms)"
  shows "set (pause_regions rms hop) =
    {(of_nat s * hop, of_nat e * hop) | s e.
       is_run (map (silent (Max (set rms))) rms) s e \<and> min_pause_frames hop \<le> e - s}"
proof -
  have "pause_regions rms hop =
      pause_loop (min_pause_frames hop) hop 0 None (map (silent (Max (set rms))) rms)"
    unfolding pause_regions_def Let_def if_P [OF assms(1)] using assms(2) by (subst if_not_P) (simp_all only: not_le)
  then show ?thesis
    using set_span_loop [of "map (silent (Max (set rms))) rms" 0 None]
    by (auto simp add: pause_loop_spans open_run_def image_def simp del: Max_gr_iff Max_less_iff)
qed

lemma breath_score_matched: "breath_score np_interp us rs tm = (score, matched) \<Longrightarrow> matched \<le> length rs"
  by (auto simp: breath_score_def Let_def split: if_splits)

lemma breath_score_percent:
  assumes "breath_score np_interp us rs tm = (score, matched)"
  shows "0 \<le> score \<and> score \<le> 100"
proof (cases "rs = []")
  case False
  then have "score = py_round_to 1 (100 * of_nat matched / of_nat (length rs))"
    using assms by (auto simp: breath_score_def Let_def)
  moreover have "100 * of_nat matched / of_nat (length rs) \<le> (100::real)"
    using breath_score_matched [OF assms] False by (simp add: field_simps)
  ultimately show ?thesis using py_round_to_percent by simp
qed (use assms in \<open>simp add: breath_score_def\<close>)

lemma breath_run_score:
  assumes "breath_run np_interp load ms c = Inr r"
  shows "\<exists>x. map_of (data r) ''score'' = Some (PFloat x) \<and> 0 \<le> x \<and> x \<le> 100"
proof -
  let ?pauses = "\<lambda>side. pause_regions (rms_envelope side) FEATURES_HOP_SECONDS"
  from assms obtain f d tm where f: "cached_features load c = Inr f"
    and d: "stage_data c ''align'' = Inr d" "from_align_stage_data d = Inr tm"
    by (auto simp: breath_run_def and_then_eq_Inr)
  obtain x m where b: "breath_score np_interp (?pauses (user_side f)) (?pauses (reference_side f)) tm = (x, m)"
    by (cases "breath_score np_interp (?pauses (user_side f)) (?pauses (reference_side f)) tm")
  from assms have "map_of (data r) ''score'' = Some (PFloat x)"
    by (auto simp: breath_run_def f d b)
  then show ?thesis using breath_score_percent [OF b] by blast
qed

lemma correlation_le_1: "(\<And>a b. corrcoef a b \<le> 1) \<Longrightarrow> correlation std corrcoef a b \<le> 1"
  by (simp add: correlation_def)

lemma rhythm_score: "\<exists>x. map_of (rhythm_data (onset_offsets_ms np_interp tm us rs) m n) ''score'' = Some (PFloat x) \<and>
    0 \<le> x \<and> x \<le> 100"
proof (cases "onset_offsets_ms np_interp tm us rs")
  case (Cons x xs)
  have "0 \<le> mean (onset_offsets_ms np_interp tm us rs)"
    unfolding mean_def by (intro divide_nonneg_nonneg sum_list_nonneg) (simp_all add: offsets_nonneg)
  then show ?thesis using offset_score_percent Cons by (simp add: rhythm_data_def Let_def)
qed (simp add: rhythm_data_def Let_def)

lemma timbre_mean_le_1:
  assumes "similarities_from np_interp tm refs i us = Inr xs" and "xs \<noteq> []"
  shows "mean xs \<le> 1"
proof -
  have x: "\<bar>x\<bar> \<le> 1" if "x \<in> set xs" for x using similarities_le_1 [OF assms(1) that] .
  show ?thesis by (rule mean_bounds(2) [OF assms(2), of "- 1"]) (use x in \<open>auto simp: abs_le_iff dest: x\<close>)
qed

text \<open>A map that is the identity up to time \<open>T\<close>, as the alignment of a recording with itself.\<close>

definition identity_until :: "interp \<Rightarrow> time_map \<Rightarrow> real \<Rightarrow> bool" where
  "identity_until np_interp tm T \<longleftrightarrow>
     (\<forall>t. 0 \<le> t \<and> t \<le> T \<longrightarrow> reference_to_user np_interp tm t = t \<and> user_to_reference np_interp tm t = t)"

lemma identity_untilD:
  "identity_until np_interp tm T \<Longrightarrow> 0 \<le> t \<Longrightarrow> t \<le> T \<Longrightarrow>
     reference_to_user np_interp tm t = t \<and> user_to_reference np_interp tm t = t"
  by (simp add: identity_until_def)

lemma hop_positive [simp]: "0 < FEATURES_HOP_SECONDS" "0 \<le> FEATURES_HOP_SECONDS" "FEATURES_HOP_SECONDS \<noteq> 0"
  by (simp_all add: FEATURES_HOP_SECONDS_def)

lemma hop_mono: "i \<le> n \<Longrightarrow> of_nat i * FEATURES_HOP_SECONDS \<le> of_nat n * FEATURES_HOP_SECONDS"
  by (intro mult_right_mono) simp_all

lemma identity_frame:
  assumes "identity_until np_interp tm T" and "of_nat i * FEATURES_HOP_SECONDS \<le> T"
  shows "py_round (user_to_reference np_interp tm (of_nat i * FEATURES_HOP_SECONDS) / FEATURES_HOP_SECONDS) = int i"
proof -
  have "of_nat i * FEATURES_HOP_SECONDS / FEATURES_HOP_SECONDS = (of_int (int i) :: real)"
    by simp
  then show ?thesis
    using identity_untilD [OF assms(1) _ assms(2)] by (metis hop_positive(2) of_nat_0_le_iff py_round_of_int zero_le_mult_iff)
qed

lemma identity_offsets:
  assumes "identity_until np_interp tm T" and "\<And>t. t \<in> set us \<Longrightarrow> 0 \<le> t \<and> t \<le> T"
  shows "onset_offsets_ms np_interp tm us us = map (\<lambda>t. 0) us"
proof (cases "us = []")
  case False
  have "Min ((\<lambda>u. \<bar>u - reference_to_user np_interp tm t\<bar>) ` set us) = 0" if "t \<in> set us" for t
  proof (rule Min_eqI)
    show "0 \<in> (\<lambda>u. \<bar>u - reference_to_user np_interp tm t\<bar>) ` set us"
      using identity_untilD [OF assms(1)] assms(2) that by force
  qed auto
  then show ?thesis using offsets_are_distances [OF False] by simp
qed (simp add: onset_offsets_ms_def)

lemma cosine_self: "dot v v \<noteq> 0 \<Longrightarrow> cosine_similarity v v = 1"
  using dot_self_nonneg [of v] by (simp add: cosine_similarity_def vec_norm_def Let_def)

lemma np_index_drop: "drop i xs = y # ys \<Longrightarrow> np_index xs (min (max (int i) 0) (int (length xs) - 1)) = Inr y"
proof -
  assume d: "drop i xs = y # ys"
  then have "i < length xs" by (metis drop_all list.distinct(1) not_le)
  moreover from this d have "xs ! i = y" by (simp add: nth_via_drop)
  ultimately show ?thesis by (simp add: np_index_in_range min_def)
qed

lemma identity_similarities:
  assumes "identity_until np_interp tm T" and "of_nat (length xs) * FEATURES_HOP_SECONDS \<le> T"
    and "\<And>v. v \<in> set xs \<Longrightarrow> dot v v \<noteq> 0"
  shows "similarities_from np_interp tm xs i (drop i xs) = Inr (map (\<lambda>v. 1) (drop i xs))"
proof (induction "drop i xs" arbitrary: i)
  case (Cons y ys)
  from Cons(2) have i: "i < length xs" by (metis drop_all list.distinct(1) not_le)
  have "of_nat i * FEATURES_HOP_SECONDS \<le> of_nat (length xs) * FEATURES_HOP_SECONDS"
    using i by (intro hop_mono) simp
  then have "of_nat i * FEATURES_HOP_SECONDS \<le> T" using assms(2) by linarith
  moreover have "ys = drop (Suc i) xs" using Cons(2) by (metis drop_Suc list.sel(3) tl_drop)
  moreover have "y \<in> set xs" using Cons(2) by (metis in_set_dropD list.set_intros(1))
  ultimately show ?case
    using Cons(1) [of "Suc i"] np_index_drop [OF Cons(2) [symmetric]] identity_frame [OF assms(1)] assms(3)
    by (simp add: Cons(2) [symmetric] Let_def cosine_self)
qed simp

lemma identity_resample:
  assumes "identity_until np_interp tm T" and "of_nat (length xs) * FEATURES_HOP_SECONDS \<le> T"
  shows "i \<le> length xs \<Longrightarrow> resample_from np_interp tm xs FEATURES_HOP_SECONDS i (length xs - i) = Inr (drop i xs)"
proof (induction "length xs - i" arbitrary: i)
  case (Suc n)
  then have i: "i < length xs" and n: "n = length xs - Suc i" by simp_all
  have "of_nat i * FEATURES_HOP_SECONDS \<le> of_nat (length xs) * FEATURES_HOP_SECONDS"
    using i by (intro hop_mono) simp
  then have "of_nat i * FEATURES_HOP_SECONDS \<le> T" using assms(2) by linarith
  moreover have d: "drop i xs = xs ! i # drop (Suc i) xs" using i by (rule Cons_nth_drop_Suc [symmetric])
  moreover have "resample_from np_interp tm xs FEATURES_HOP_SECONDS (Suc i) n = Inr (drop (Suc i) xs)"
    using Suc.hyps(1) [OF n] i n by simp
  ultimately show ?case
    using identity_frame [OF assms(1)] np_index_drop [OF d] unfolding Suc.hyps(2) [symmetric] by (simp add: Let_def)
qed simp

lemma identity_breath:
  assumes "identity_until np_interp tm T"
    and "\<And>a b. (a, b) \<in> set rs \<Longrightarrow> 0 \<le> (a + b) / 2 \<and> (a + b) / 2 \<le> T"
  shows "fst (breath_score np_interp rs rs tm) = 100"
proof (cases "rs = []")
  case False
  have "filter (\<lambda>(a, b). let expected_user_time = reference_to_user np_interp tm ((a + b) / 2)
      in list_ex (\<lambda>center. \<bar>center - expected_user_time\<bar> \<le> BREATH_PAUSE_MATCH_TOLERANCE_SECONDS)
           (map (\<lambda>(a, b). (a + b) / 2) rs)) rs = rs"
  proof (rule filter_True, clarify)
    fix a b
    assume ab: "(a, b) \<in> set rs"
    then have "reference_to_user np_interp tm ((a + b) / 2) = (a + b) / 2"
      using identity_untilD [OF assms(1)] assms(2) by blast
    moreover have "(a + b) / 2 \<in> set (map (\<lambda>(a, b). (a + b) / 2) rs)"
      unfolding set_map by (rule rev_image_eqI [OF ab]) simp
    moreover have "\<bar>x - x\<bar> \<le> BREATH_PAUSE_MATCH_TOLERANCE_SECONDS" for x
      by (simp add: BREATH_PAUSE_MATCH_TOLERANCE_SECONDS_def)
    ultimately show "let expected_user_time = reference_to_user np_interp tm ((a + b) / 2)
        in list_ex (\<lambda>center. \<bar>center - expected_user_time\<bar> \<le> BREATH_PAUSE_MATCH_TOLERANCE_SECONDS)
             (map (\<lambda>(a, b). (a + b) / 2) rs)"
      unfolding Let_def list_ex_iff by metis
  qed
  then show ?thesis using False by (simp add: breath_score_def Let_def py_round_to_def)
qed (simp add: breath_score_def)

lemma pause_region_times:
  assumes "(a, b) \<in> set (pause_regions rms FEATURES_HOP_SECONDS)"
  shows "0 \<le> (a + b) / 2 \<and> (a + b) / 2 \<le> of_nat (length rms) * FEATURES_HOP_SECONDS"
proof -
  have rms: "rms \<noteq> []" "0 < Max (set rms)"
    using assms by (auto simp: pause_regions_def Let_def not_le simp del: Max_gr_iff Max_less_iff Max_le_iff
      split: if_splits)
  obtain s e where se: "a = of_nat s * FEATURES_HOP_SECONDS" "b = of_nat e * FEATURES_HOP_SECONDS"
    and "is_run (map (silent (Max (set rms))) rms) s e"
    using assms unfolding set_pause_regions [OF rms] by blast
  then have "s \<le> length rms" "e \<le> length rms" by (simp_all add: is_run_def)
  then have "a \<le> of_nat (length rms) * FEATURES_HOP_SECONDS" "b \<le> of_nat (length rms) * FEATURES_HOP_SECONDS"
    unfolding se by (simp_all only: hop_mono)
  moreover have "0 \<le> a" "0 \<le> b" unfolding se by simp_all
  ultimately show ?thesis unfolding le_divide_eq_numeral1 divide_le_eq_numeral1 by simp
qed

section \<open>Properties\<close>

text \<open>
  Whatever the four comparisons over the cached features return, their score is a number within 0
  and 100, for any interpolation and any correlation coefficient that is at most 1.
\<close>

theorem aspect_scores_percent:
  assumes "\<And>a b. corrcoef a b \<le> 1"
    and "Inr r \<in> {rhythm_run np_interp load ms c, dynamics_run np_interp std corrcoef load ms c,
      timbre_run np_interp load ms c, breath_run np_interp load ms c}"
  shows "\<exists>score. map_of (data r) ''score'' = Some (PFloat score) \<and> 0 \<le> score \<and> score \<le> 100"
proof -
  consider "rhythm_run np_interp load ms c = Inr r" | "dynamics_run np_interp std corrcoef load ms c = Inr r"
    | "timbre_run np_interp load ms c = Inr r" | "breath_run np_interp load ms c = Inr r"
    using assms(2) by auto
  then show ?thesis
  proof cases
    case 1
    then show ?thesis using rhythm_score by (auto simp: rhythm_run_def and_then_eq_Inr Let_def)
  next
    case 2
    then show ?thesis using percent_of_max correlation_le_1 [OF assms(1)]
      by (auto simp: dynamics_run_def and_then_eq_Inr Let_def)
  next
    case 3
    then show ?thesis using percent_of_max timbre_mean_le_1
      by (auto simp: timbre_run_def and_then_eq_Inr Let_def)
  next
    case 4
    then show ?thesis by (rule breath_run_score)
  qed
qed

text \<open>
  The rhythm stage compares every reference onset with the nearest onset of the recording: as
  soon as the recording has an onset, no reference onset is left out of the mean, the offset of each is
  its smallest distance to an onset of the recording, and the counts are those of the two lists.
\<close>

theorem rhythm_offsets:
  assumes "rhythm_run np_interp load ms c = Inr r"
    and "cached_features load c = Inr features" and "onset_times (user_side features) \<noteq> []"
  shows "\<exists>d tm. stage_data c ''align'' = Inr d \<and> from_align_stage_data d = Inr tm \<and>
    data r = rhythm_data
      (map (\<lambda>t. 1000 * Min ((\<lambda>u. \<bar>u - reference_to_user np_interp tm t\<bar>) ` set (onset_times (user_side features))))
        (onset_times (reference_side features)))
      (length (onset_times (reference_side features))) (length (onset_times (user_side features)))"
  using assms(1,2) offsets_are_distances [OF assms(3)]
  by (auto simp: rhythm_run_def and_then_eq_Inr Let_def)

text \<open>
  C36: The pauses of a track with a positive peak are exactly its maximal runs of silent frames that
  last for at least the minimum number of frames, given by their start and end times.
\<close>

theorem pause_regions_are_runs:
  assumes "rms \<noteq> []" and "0 < Max (set rms)"
  shows "set (pause_regions rms hop) =
    {(of_nat s * hop, of_nat e * hop) | s e.
       is_run (map (silent (Max (set rms))) rms) s e \<and> min_pause_frames hop \<le> e - s}"
  using assms by (rule set_pause_regions)

theorem pause_regions_are_runs_witness:
  "(2 * (1 / 5), 4 * (1 / 5)) \<in> set (pause_regions [0, 1, 0, 0, 1, 0] (1 / 5))"
proof -
  have k: "min_pause_frames (1 / 5) = 1" by (simp add: min_pause_frames_def BREATH_MIN_PAUSE_SECONDS_def)
  have "is_run (map (silent (Max (set [0, 1, 0, 0, 1, 0]))) [0, 1, 0, 0, 1, 0]) 2 4"
    by (auto simp: is_run_def silent_def BREATH_SILENCE_RELATIVE_DB_def less_Suc_eq numeral_eq_Suc)
  then show ?thesis
    using pause_regions_are_runs [of "[0, 1, 0, 0, 1, 0]" "1 / 5"] k
    by (auto intro!: exI [of _ "2 :: nat"] exI [of _ "4 :: nat"])
qed


text \<open>
  C29: A recording aligned with itself scores 100 in each of the four comparisons: when both sides have
  the same features, the time map is the identity as far as they go, and there is something to
  compare (an onset, two frames of varying loudness, a frame with a nonzero timbre vector).
\<close>

theorem identical_recordings_score_100:
  assumes load: "cached_features load c = Inr \<lparr>user_side = f, reference_side = f\<rparr>"
    and tm: "stage_data c ''align'' = Inr d" "from_align_stage_data d = Inr tm"
    and identity: "identity_until np_interp tm T"
    and onsets: "onset_times f \<noteq> []" "\<And>t. t \<in> set (onset_times f) \<Longrightarrow> 0 \<le> t \<and> t \<le> T"
    and mfcc: "mfcc f \<noteq> []" "of_nat (length (mfcc f)) * FEATURES_HOP_SECONDS \<le> T"
      "\<And>v. v \<in> set (mfcc f) \<Longrightarrow> dot v v \<noteq> 0"
    and rms: "2 \<le> length (rms_envelope f)" "of_nat (length (rms_envelope f)) * FEATURES_HOP_SECONDS \<le> T"
      "std (rms_envelope f) \<noteq> 0" "corrcoef (rms_envelope f) (rms_envelope f) = 1"
  shows "\<exists>rhythm dynamics timbre breath.
    rhythm_run np_interp load ms c = Inr rhythm \<and> map_of (data rhythm) ''score'' = Some (PFloat 100) \<and>
    dynamics_run np_interp std corrcoef load ms c = Inr dynamics \<and> map_of (data dynamics) ''score'' = Some (PFloat 100) \<and>
    timbre_run np_interp load ms c = Inr timbre \<and> map_of (data timbre) ''score'' = Some (PFloat 100) \<and>
    breath_run np_interp load ms c = Inr breath \<and> map_of (data breath) ''score'' = Some (PFloat 100)"
proof -
  note run = load tm
  let ?pauses = "pause_regions (rms_envelope f) FEATURES_HOP_SECONDS"
  have r: "\<exists>r. rhythm_run np_interp load ms c = Inr r \<and> map_of (data r) ''score'' = Some (PFloat 100)"
    using identity_offsets [OF identity onsets(2)] onsets(1)
    by (simp add: rhythm_run_def run Let_def rhythm_data_def mean_def score_from_mean_abs_offset_ms_def py_round_to_def)
  have d: "\<exists>r. dynamics_run np_interp std corrcoef load ms c = Inr r \<and> map_of (data r) ''score'' = Some (PFloat 100)"
    using identity_resample [OF identity rms(2), of 0] rms
    by (simp add: dynamics_run_def run Let_def resample_reference_onto_user_grid_def correlation_def py_round_to_def)
  have t: "\<exists>r. timbre_run np_interp load ms c = Inr r \<and> map_of (data r) ''score'' = Some (PFloat 100)"
    using identity_similarities [OF identity mfcc(2,3), of 0] mfcc(1)
    by (simp add: timbre_run_def run Let_def mean_def map_replicate_const sum_list_replicate py_round_to_def)
  obtain x m where b: "breath_score np_interp ?pauses ?pauses tm = (x, m)"
    by (cases "breath_score np_interp ?pauses ?pauses tm")
  have "0 \<le> (p + q) / 2 \<and> (p + q) / 2 \<le> T" if "(p, q) \<in> set ?pauses" for p q
    using pause_region_times [OF that] rms(2) by linarith
  then have "x = 100" using identity_breath [OF identity, of ?pauses] b by simp
  then have "\<exists>r. breath_run np_interp load ms c = Inr r \<and> map_of (data r) ''score'' = Some (PFloat 100)"
    using b by (simp add: breath_run_def run Let_def)
  with r d t show ?thesis by blast
qed

text \<open>A concrete recording of two frames with its features, and its alignment with itself.\<close>

definition demo_self_features :: shared_features where
  "demo_self_features = \<lparr>mfcc = [[3, 4]], rms_envelope = [0, 1], rms_fine = [], onset_times = [1 / 20]\<rparr>"

definition demo_load :: load_features where
  "demo_load path = Inr \<lparr>user_side = demo_self_features, reference_side = demo_self_features\<rparr>"

definition demo_self_context :: analysis_context where
  "demo_self_context = demo_context []
     [''align'' \<mapsto> stage_done ''align'' 0 (demo_align_data [] [0, 10] [0, 10] 0),
      ''features'' \<mapsto> stage_done ''features'' 0 [(''features_path'', PStr ''/w/features.npz'')]]"

lemma demo_cached: "cached_features demo_load demo_self_context = Inr \<lparr>user_side = demo_self_features, reference_side = demo_self_features\<rparr>"
  by (simp add: cached_features_def demo_self_context_def demo_context_def stage_data_def analysis_result_def
      read_as_def demo_load_def)

lemma demo_aligned:
  "stage_data demo_self_context ''align'' = Inr (demo_align_data [] [0, 10] [0, 10] 0)"
  by (simp add: demo_self_context_def demo_context_def stage_data_def analysis_result_def)

lemma demo_identity: "identity_until interp_linear (from_warping_path [0, 10] [0, 10] PITCH_HOP_SECONDS) (1 / 10)"
  by (auto simp: identity_until_def from_warping_path_def reference_to_user_def user_to_reference_def PITCH_HOP_SECONDS_def)

lemmas demo_self = demo_cached demo_aligned demo_time_map demo_identity

theorem identical_recordings_score_100_witness:
  "\<exists>timbre. timbre_run interp_linear demo_load 0 demo_self_context = Inr timbre \<and>
     map_of (data timbre) ''score'' = Some (PFloat 100)"
proof -
  have "of_nat (length (mfcc demo_self_features)) * FEATURES_HOP_SECONDS \<le> 1 / 10"
    "of_nat (length (rms_envelope demo_self_features)) * FEATURES_HOP_SECONDS \<le> 1 / 10"
    "2 \<le> length (rms_envelope demo_self_features)" "mfcc demo_self_features \<noteq> []" "onset_times demo_self_features \<noteq> []"
    "v \<in> set (mfcc demo_self_features) \<Longrightarrow> dot v v \<noteq> 0" "t \<in> set (onset_times demo_self_features) \<Longrightarrow> 0 \<le> t \<and> t \<le> 1 / 10"
    for v t
    by (simp_all add: demo_self_features_def FEATURES_HOP_SECONDS_def dot_def)
  then show ?thesis
    using identical_recordings_score_100 [where std = "\<lambda>xs. 1" and corrcoef = "\<lambda>a b. 1" and ms = 0, OF demo_self]
    by auto
qed

theorem aspect_scores_percent_witness:
  "\<exists>r score. rhythm_run interp_linear demo_load 0 demo_self_context = Inr r \<and>
     map_of (data r) ''score'' = Some (PFloat score) \<and> 0 \<le> score \<and> score \<le> 100"
proof -
  obtain r where r: "rhythm_run interp_linear demo_load 0 demo_self_context = Inr r"
    by (simp add: rhythm_run_def demo_self Let_def)
  have "Inr r \<in> {rhythm_run interp_linear demo_load 0 demo_self_context,
      dynamics_run interp_linear (\<lambda>xs. 1) (\<lambda>a b. 1) demo_load 0 demo_self_context,
      timbre_run interp_linear demo_load 0 demo_self_context, breath_run interp_linear demo_load 0 demo_self_context}"
    using r by simp
  from aspect_scores_percent [OF _ this] r show ?thesis by simp
qed

theorem rhythm_offsets_witness:
  "\<exists>r. rhythm_run interp_linear demo_load 0 demo_self_context = Inr r \<and>
     map_of (data r) ''mean_abs_offset_ms'' = Some (PFloat 0)"
proof -
  obtain r where r: "rhythm_run interp_linear demo_load 0 demo_self_context = Inr r"
    by (simp add: rhythm_run_def demo_self Let_def)
  from rhythm_offsets [OF this demo_cached] have "data r = rhythm_data [0] 1 1"
    by (simp add: demo_self demo_self_features_def from_warping_path_def reference_to_user_def PITCH_HOP_SECONDS_def)
  with r show ?thesis by (simp add: rhythm_data_def mean_def)
qed

end
