(* ===== verification/KeyShift.thy ===== *)
theory KeyShift
  imports Features Pitch
begin

text \<open>
  The stages \<open>key_normalization.py\<close> and \<open>recording_condition.py\<close>. NumPy's median and percentile
  are parameters; of the median the development relies on its definition as a middle value, stated as
  \<open>middle_value\<close>. The lemmas show that removing the median shift never increases the mean absolute
  deviation, because a middle value minimises it.
\<close>

type_synonym np_median = "real list \<Rightarrow> real"
type_synonym np_percentile = "real list \<Rightarrow> real \<Rightarrow> real"

section \<open>Key normalization\<close>

definition SEMITONE_CENTS :: real where
  "SEMITONE_CENTS = 100"

text \<open>The thresholds the stage is constructed with.\<close>

record key_config =
  min_semitones :: real
  max_iqr_semitones :: real
  max_semitones :: real

text \<open>\<open>_result\<close>.\<close>

definition key_result ::
  "int \<Rightarrow> bool \<Rightarrow> real \<Rightarrow> real \<Rightarrow> bool \<Rightarrow> real option \<Rightarrow> real option \<Rightarrow> stage_result" where
  "key_result ms applied median_semitones iqr_semitones out_of_range adjusted_score adjusted_mean_abs_cents =
     stage_done ''key_normalization'' ms
       [(''applied'', PBool applied),
        (''key_shift_semitones'', if applied then PFloat (py_round_to 2 median_semitones) else PNone),
        (''median_semitones'', PFloat (py_round_to 3 median_semitones)),
        (''iqr_semitones'', PFloat (py_round_to 3 iqr_semitones)),
        (''out_of_range'', PBool out_of_range),
        (''adjusted_score'', json_float adjusted_score),
        (''adjusted_mean_abs_cents'', json_float adjusted_mean_abs_cents)]"

definition key_of_cents ::
  "np_median \<Rightarrow> np_percentile \<Rightarrow> key_config \<Rightarrow> int \<Rightarrow> bool \<Rightarrow> real list \<Rightarrow> stage_result" where
  "key_of_cents np_median np_percentile cfg ms eligible present_cents =
     (if present_cents = [] then key_result ms False 0 0 False None None
      else
        (let median_semitones = np_median present_cents / SEMITONE_CENTS;
             iqr_semitones = (np_percentile present_cents 75 - np_percentile present_cents 25) / SEMITONE_CENTS;
             out_of_range = (eligible \<and> \<bar>median_semitones\<bar> > max_semitones cfg);
             applied = (eligible \<and> \<not> out_of_range \<and> \<bar>median_semitones\<bar> \<ge> min_semitones cfg \<and>
               iqr_semitones \<le> max_iqr_semitones cfg);
             adjusted = map (\<lambda>c. c - median_semitones * SEMITONE_CENTS) present_cents;
             adjusted_mean_abs_cents = mean (map abs adjusted)
         in if applied
            then key_result ms applied median_semitones iqr_semitones out_of_range
                   (Some (score_from_mean_abs_cents adjusted_mean_abs_cents)) (Some adjusted_mean_abs_cents)
            else key_result ms applied median_semitones iqr_semitones out_of_range None None))"

definition key_eligible :: "analysis_context \<Rightarrow> bool" where
  "key_eligible c \<longleftrightarrow> context_mode c = Mixed \<or> allow_transposition c"

definition key_run ::
  "np_median \<Rightarrow> np_percentile \<Rightarrow> key_config \<Rightarrow> int \<Rightarrow> analysis_context \<Rightarrow> exn + stage_result" where
  "key_run np_median np_percentile cfg ms c =
     and_then (stage_data c ''pitch'') (\<lambda>d.
     and_then (read_as py_dict d ''piano_roll'') (\<lambda>roll.
     and_then (read_as py_opt_floats roll ''deviation_cents'') (\<lambda>deviation_cents.
       Inr (key_of_cents np_median np_percentile cfg ms (key_eligible c) (present deviation_cents)))))"

section \<open>Recording condition\<close>

definition RECORDING_CONDITION_MIN_UNVOICED_FRAMES :: nat where
  "RECORDING_CONDITION_MIN_UNVOICED_FRAMES = 10"

definition accompaniment_level_of :: "np_median \<Rightarrow> real list \<Rightarrow> bool list \<Rightarrow> real" where
  "accompaniment_level_of np_median rms voiced =
     (let frame_count = min (length rms) (length voiced);
          framed = zip (take frame_count rms) (take frame_count voiced);
          voiced_rms = map fst (filter snd framed);
          unvoiced_rms = map fst (filter (\<lambda>p. \<not> snd p) framed)
      in if frame_count = 0 then 0
         else if voiced_rms = [] \<or> length unvoiced_rms < RECORDING_CONDITION_MIN_UNVOICED_FRAMES then 0
         else if np_median voiced_rms \<le> 0 then 0
         else np_median unvoiced_rms / np_median voiced_rms)"

fun reconcile_mode :: "mode \<Rightarrow> bool \<Rightarrow> mode \<times> string list" where
  "reconcile_mode Clean True = (Clean, [''ACCOMPANIMENT_IN_CLEAN_MODE''])"
| "reconcile_mode Mixed False = (Clean, [''MODE_DOWNGRADED_TO_CLEAN''])"
| "reconcile_mode declared detected = (declared, [])"

definition recording_condition_data :: "real \<Rightarrow> real \<Rightarrow> mode \<Rightarrow> pydict" where
  "recording_condition_data threshold level declared =
     (let detected = (level \<ge> threshold);
          (effective_mode, warnings) = reconcile_mode declared detected
      in [(''accompaniment_level'', PFloat (py_round_to 4 level)),
          (''accompaniment_detected'', PBool detected),
          (''effective_mode'', PStr (mode_name effective_mode)),
          (''warnings'', PList (map PStr warnings))])"

definition recording_condition_run ::
  "np_median \<Rightarrow> read_mono \<Rightarrow> librosa \<Rightarrow> real \<Rightarrow> int \<Rightarrow> analysis_context \<Rightarrow> exn + stage_result" where
  "recording_condition_run np_median read lib threshold ms c =
     and_then (stage_data c ''preprocess'') (\<lambda>d.
     and_then (read_as py_str d ''recording_path'') (\<lambda>path.
     and_then (compute_rms_envelope read lib path PITCH_HOP_SECONDS) (\<lambda>raw_rms.
     and_then (stage_data c ''pitch'') (\<lambda>pitch.
     and_then (user_hz_of pitch) (\<lambda>user_hz.
       let level = accompaniment_level_of np_median raw_rms (map (\<lambda>v. v \<noteq> None) user_hz)
       in Inr (stage_done ''recording_condition'' ms
            (recording_condition_data threshold level (context_mode c))))))))"

section \<open>A middle value minimises the absolute deviations\<close>

definition middle_value :: "real \<Rightarrow> real list \<Rightarrow> bool" where
  "middle_value m xs \<longleftrightarrow>
     2 * length (filter (\<lambda>x. x < m) xs) \<le> length xs \<and> 2 * length (filter (\<lambda>x. m < x) xs) \<le> length xs"

definition median_ok :: "np_median \<Rightarrow> bool" where
  "median_ok np_median \<longleftrightarrow> (\<forall>xs. xs \<noteq> [] \<longrightarrow> middle_value (np_median xs) xs)"

text \<open>Moving from \<open>m\<close> to \<open>c\<close> costs \<open>\<bar>c - m\<bar>\<close> for every value not beyond \<open>m\<close>, and gains at most that for the others.\<close>

lemma abs_dev_left:
  fixes c m :: real
  assumes "c \<le> m"
  shows "(of_nat (length xs) - 2 * of_nat (length (filter (\<lambda>x. x < m) xs))) * (m - c)
    \<le> (\<Sum>x \<leftarrow> xs. \<bar>x - c\<bar>) - (\<Sum>x \<leftarrow> xs. \<bar>x - m\<bar>)"
proof (induction xs)
  case (Cons x xs)
  have "(if x < m then - 1 else 1) * (m - c) \<le> \<bar>x - c\<bar> - \<bar>x - m\<bar>" using assms by (auto simp: abs_if)
  with Cons show ?case by (cases "x < m") (simp_all add: algebra_simps)
qed simp

lemma abs_dev_right:
  fixes c m :: real
  assumes "m \<le> c"
  shows "(of_nat (length xs) - 2 * of_nat (length (filter (\<lambda>x. m < x) xs))) * (c - m)
    \<le> (\<Sum>x \<leftarrow> xs. \<bar>x - c\<bar>) - (\<Sum>x \<leftarrow> xs. \<bar>x - m\<bar>)"
proof (induction xs)
  case (Cons x xs)
  have "(if m < x then - 1 else 1) * (c - m) \<le> \<bar>x - c\<bar> - \<bar>x - m\<bar>" using assms by (auto simp: abs_if)
  with Cons show ?case by (cases "m < x") (simp_all add: algebra_simps)
qed simp

lemma middle_value_minimises:
  assumes "middle_value m xs"
  shows "(\<Sum>x \<leftarrow> xs. \<bar>x - m\<bar>) \<le> (\<Sum>x \<leftarrow> xs. \<bar>x - c\<bar>)"
proof (cases "c \<le> m")
  case True
  have "0 \<le> (of_nat (length xs) - 2 * of_nat (length (filter (\<lambda>x. x < m) xs))) * (m - c)"
    by (rule mult_nonneg_nonneg) (use True assms in \<open>simp_all add: middle_value_def\<close>)
  then show ?thesis using abs_dev_left [OF True, of xs] by linarith
next
  case False
  then have c: "m \<le> c" by simp
  have "0 \<le> (of_nat (length xs) - 2 * of_nat (length (filter (\<lambda>x. m < x) xs))) * (c - m)"
    by (rule mult_nonneg_nonneg) (use c assms in \<open>simp_all add: middle_value_def\<close>)
  then show ?thesis using abs_dev_right [OF c, of xs] by linarith
qed

text \<open>The median by sorting, which is what \<open>np.median\<close> computes.\<close>

definition median_sorted :: "real list \<Rightarrow> real" where
  "median_sorted xs =
     (let s = sort xs; n = length xs
      in if n = 0 then 0
         else if odd n then s ! (n div 2)
         else (s ! (n div 2 - 1) + s ! (n div 2)) / 2)"

lemma length_filter_sort: "length (filter P (sort xs)) = length (filter P xs)"
  by (metis filter_sort length_sort)

lemma few_below:
  fixes xs :: "real list"
  assumes "k \<le> length xs" and "\<And>i. k \<le> i \<Longrightarrow> i < length xs \<Longrightarrow> m \<le> xs ! i"
  shows "length (filter (\<lambda>x. x < m) xs) \<le> k"
proof -
  have "m \<le> x" if "x \<in> set (drop k xs)" for x
  proof -
    from that obtain i where "i < length xs - k" "x = xs ! (k + i)" by (auto simp: in_set_conv_nth)
    then show ?thesis using assms(2) [of "k + i"] by simp
  qed
  then have "filter (\<lambda>x. x < m) (drop k xs) = []" unfolding filter_empty_conv by (metis not_less)
  then have "length (filter (\<lambda>x. x < m) xs) = length (filter (\<lambda>x. x < m) (take k xs))"
    by (metis append_Nil2 append_take_drop_id filter_append)
  also have "\<dots> \<le> length (take k xs)" by (rule length_filter_le)
  finally show ?thesis by simp
qed

lemma few_above:
  fixes xs :: "real list"
  assumes "k \<le> length xs" and "\<And>i. i < k \<Longrightarrow> xs ! i \<le> m"
  shows "length (filter (\<lambda>x. m < x) xs) \<le> length xs - k"
proof -
  have "x \<le> m" if "x \<in> set (take k xs)" for x
    using that assms(2) by (metis in_set_conv_nth length_take min_less_iff_conj nth_take)
  then have "filter (\<lambda>x. m < x) (take k xs) = []" unfolding filter_empty_conv by (metis not_less)
  then have "length (filter (\<lambda>x. m < x) xs) = length (filter (\<lambda>x. m < x) (drop k xs))"
    by (metis append_Nil append_take_drop_id filter_append)
  also have "\<dots> \<le> length (drop k xs)" by (rule length_filter_le)
  finally show ?thesis by simp
qed

lemma sorted_nth_le: "sorted xs \<Longrightarrow> i \<le> j \<Longrightarrow> j < length xs \<Longrightarrow> xs ! i \<le> xs ! j"
  by (simp add: sorted_iff_nth_mono)

lemma median_sorted_middle: "xs \<noteq> [] \<Longrightarrow> middle_value (median_sorted xs) xs"
proof -
  assume ne: "xs \<noteq> []"
  define s n h where "s = sort xs" and "n = length xs" and "h = n div 2"
  have s: "sorted s" "length s = n" and n: "0 < n" using ne by (simp_all add: s_def n_def)
  have h: "h < n" using n by (simp add: h_def)
  let ?m = "median_sorted xs"
  have "length (filter (\<lambda>x. x < ?m) s) \<le> h \<and> length (filter (\<lambda>x. ?m < x) s) \<le> h"
  proof (cases "odd n")
    case True
    then have m: "?m = s ! h" using ne by (simp add: median_sorted_def s_def n_def h_def Let_def)
    have "length (filter (\<lambda>x. x < ?m) s) \<le> h"
      by (rule few_below) (use s h m in \<open>auto intro: sorted_nth_le\<close>)
    moreover have "length (filter (\<lambda>x. ?m < x) s) \<le> length s - Suc h"
      by (rule few_above) (use s h m in \<open>auto intro: sorted_nth_le\<close>)
    ultimately show ?thesis using True s h by (auto simp: h_def elim!: oddE)
  next
    case False
    then have m: "?m = (s ! (h - 1) + s ! h) / 2" and nh: "n = 2 * h"
      using ne by (auto simp: median_sorted_def s_def n_def h_def Let_def)
    then have h1: "0 < h" using n by simp
    have "s ! (h - 1) \<le> s ! h" using s h by (intro sorted_nth_le) auto
    then have ml: "s ! (h - 1) \<le> ?m" "?m \<le> s ! h" unfolding m by simp_all
    have "?m \<le> s ! i" if "h \<le> i" "i < n" for i using ml(2) sorted_nth_le [of s h i] that s by simp
    moreover have "s ! i \<le> ?m" if "i < h" for i using ml(1) sorted_nth_le [OF s(1), of i "h - 1"] that s h by force
    ultimately have "length (filter (\<lambda>x. x < ?m) s) \<le> h" "length (filter (\<lambda>x. ?m < x) s) \<le> length s - h"
      using s h by (auto intro!: few_below few_above)
    then show ?thesis using s nh by simp
  qed
  moreover have "2 * h \<le> n" by (simp add: h_def)
  ultimately show ?thesis by (simp add: middle_value_def s_def n_def length_filter_sort)
qed

lemma median_sorted_ok: "median_ok median_sorted"
  using median_sorted_middle by (simp add: median_ok_def)

section \<open>Properties\<close>

lemma key_run_of_pitch:
  assumes "stage_data c ''pitch'' = Inr (pitch_data user_hz reference_hz deviations_cents)"
  shows "key_run np_median np_percentile cfg ms c =
    Inr (key_of_cents np_median np_percentile cfg ms (key_eligible c) (present deviations_cents))"
  by (simp add: key_run_def assms pitch_data_def Let_def read_as_def dump_piano_roll_def)

text \<open>What a shift that the stage applied satisfies.\<close>

lemma key_of_cents_applied:
  assumes "map_of (data (key_of_cents np_median np_percentile cfg ms eligible cs)) ''applied'' = Some (PBool True)"
  shows "cs \<noteq> [] \<and> eligible \<and>
    min_semitones cfg \<le> \<bar>np_median cs / SEMITONE_CENTS\<bar> \<and> \<bar>np_median cs / SEMITONE_CENTS\<bar> \<le> max_semitones cfg \<and>
    (np_percentile cs 75 - np_percentile cs 25) / SEMITONE_CENTS \<le> max_iqr_semitones cfg \<and>
    map_of (data (key_of_cents np_median np_percentile cfg ms eligible cs)) ''adjusted_score'' =
      Some (PFloat (score_from_mean_abs_cents (mean (map (\<lambda>c. \<bar>c - np_median cs\<bar>) cs))))"
  using assms by (auto simp: key_of_cents_def key_result_def Let_def json_float_def SEMITONE_CENTS_def comp_def
      split: if_splits)

lemma mean_abs_shift_le:
  assumes "middle_value m cs"
  shows "mean (map (\<lambda>c. \<bar>c - m\<bar>) cs) \<le> mean (map abs cs)"
  using middle_value_minimises [OF assms, of 0] by (simp add: mean_def divide_right_mono)

text \<open>
  C25: A key shift is applied only to a mixed recording or on the singer's request, only when its
  size is between the two limits and the spread of the deviations is small; and correcting for it never
  lowers the pitch score the pitch stage gave.
\<close>

theorem key_shift_never_lowers:
  assumes "stage_data c ''pitch'' = Inr (pitch_data user_hz reference_hz deviations_cents)"
    and "key_run np_median np_percentile cfg ms c = Inr r"
    and "map_of (data r) ''applied'' = Some (PBool True)" and "median_ok np_median"
  shows "(context_mode c = Mixed \<or> allow_transposition c) \<and>
    min_semitones cfg \<le> \<bar>np_median (present deviations_cents) / 100\<bar> \<and>
    \<bar>np_median (present deviations_cents) / 100\<bar> \<le> max_semitones cfg \<and>
    (\<exists>adjusted score. map_of (data r) ''adjusted_score'' = Some (PFloat adjusted) \<and>
      map_of (pitch_data user_hz reference_hz deviations_cents) ''score'' = Some (PFloat score) \<and>
      score \<le> adjusted \<and> adjusted \<le> 100)"
proof -
  let ?cs = "present deviations_cents"
  have r: "r = key_of_cents np_median np_percentile cfg ms (key_eligible c) ?cs"
    using assms(2) key_run_of_pitch [OF assms(1)] by simp
  note a = key_of_cents_applied [OF assms(3) [unfolded r]]
  have ne: "?cs \<noteq> []" using a by blast
  then have "middle_value (np_median ?cs) ?cs" using assms(4) by (simp add: median_ok_def)
  from mean_abs_shift_le [OF this] have
    "score_from_mean_abs_cents (mean (map abs ?cs)) \<le> score_from_mean_abs_cents (mean (map (\<lambda>c. \<bar>c - np_median ?cs\<bar>) ?cs))"
    by (rule score_antimono)
  moreover have "0 \<le> mean (map (\<lambda>c. \<bar>c - np_median ?cs\<bar>) ?cs)"
    by (auto simp: mean_def intro!: divide_nonneg_nonneg sum_list_nonneg)
  then have "score_from_mean_abs_cents (mean (map (\<lambda>c. \<bar>c - np_median ?cs\<bar>) ?cs)) \<le> 100"
    using score_percent by blast
  moreover have "map_of (pitch_data user_hz reference_hz deviations_cents) ''score'' =
      Some (PFloat (score_from_mean_abs_cents (mean (map abs ?cs))))"
    using ne by (simp add: pitch_data_def Let_def mean_abs_def)
  ultimately show ?thesis using a unfolding r key_eligible_def SEMITONE_CENTS_def by blast
qed

lemma key_not_applied:
  assumes "map_of (data (key_of_cents np_median np_percentile cfg ms eligible cs)) ''applied'' \<noteq> Some (PBool True)"
  shows "map_of (data (key_of_cents np_median np_percentile cfg ms eligible cs)) ''adjusted_score'' = Some PNone \<and>
    map_of (data (key_of_cents np_median np_percentile cfg ms eligible cs)) ''key_shift_semitones'' = Some PNone"
  using assms by (auto simp: key_of_cents_def key_result_def Let_def json_float_def split: if_splits)

text \<open>A mixed recording that is a whole tone sharp throughout: the shift is applied, the score 100.\<close>

definition demo_key_config :: key_config where
  "demo_key_config = \<lparr>min_semitones = 6 / 10, max_iqr_semitones = 5 / 10, max_semitones = 7\<rparr>"

definition demo_mixed :: analysis_context where
  "demo_mixed = (demo_context [] [''pitch'' \<mapsto> stage_done ''pitch'' 0
     (pitch_data [Some 220] [Some 220] [Some 200])])\<lparr>context_mode := Mixed\<rparr>"

lemma demo_mixed_pitch: "stage_data demo_mixed ''pitch'' = Inr (pitch_data [Some 220] [Some 220] [Some 200])"
  by (simp add: demo_mixed_def demo_context_def stage_data_def analysis_result_def)

theorem key_shift_never_lowers_witness:
  "\<exists>r adjusted. key_run median_sorted (\<lambda>xs q. hd xs) demo_key_config 0 demo_mixed = Inr r \<and>
     map_of (data r) ''adjusted_score'' = Some (PFloat adjusted) \<and> adjusted \<le> 100"
proof -
  let ?r = "key_of_cents median_sorted (\<lambda>xs q. hd xs) demo_key_config 0 (key_eligible demo_mixed) (present [Some 200])"
  have run: "key_run median_sorted (\<lambda>xs q. hd xs) demo_key_config 0 demo_mixed = Inr ?r"
    by (rule key_run_of_pitch [OF demo_mixed_pitch])
  have "map_of (data ?r) ''applied'' = Some (PBool True)"
    by (simp add: key_of_cents_def key_result_def present_def median_sorted_def SEMITONE_CENTS_def demo_key_config_def
        key_eligible_def demo_mixed_def Let_def)
  from key_shift_never_lowers [OF demo_mixed_pitch run this median_sorted_ok] run show ?thesis by blast
qed

end
