(* ===== verification/Vibrato.thy ===== *)
theory Vibrato
  imports KeyShift
begin

text \<open>
  The stage \<open>vibrato.py\<close>: sustained runs of a curve, the periodic oscillation of each run by
  autocorrelation, the profile of a curve and the comparison of two profiles. NumPy's median,
  percentile and \<open>np.correlate(x, x, "full")\<close> are parameters. Frequencies are positive, so that
  \<open>np.log2\<close> is the real logarithm. The lemmas bound the detected rates by the lags searched.
\<close>

definition VIBRATO_MIN_RATE_HZ :: real where
  "VIBRATO_MIN_RATE_HZ = 35 / 10"

definition VIBRATO_MAX_RATE_HZ :: real where
  "VIBRATO_MAX_RATE_HZ = 9"

definition VIBRATO_MIN_DEPTH_CENTS :: real where
  "VIBRATO_MIN_DEPTH_CENTS = 20"

definition VIBRATO_MIN_SEGMENT_SECONDS :: real where
  "VIBRATO_MIN_SEGMENT_SECONDS = 3 / 10"

definition VIBRATO_AUTOCORR_PEAK_THRESHOLD :: real where
  "VIBRATO_AUTOCORR_PEAK_THRESHOLD = 3 / 10"

definition VIBRATO_RATE_TOLERANCE_HZ :: real where
  "VIBRATO_RATE_TOLERANCE_HZ = 2"

definition VIBRATO_DEPTH_TOLERANCE_CENTS :: real where
  "VIBRATO_DEPTH_TOLERANCE_CENTS = 50"

definition VIBRATO_PRESENCE_MISMATCH_SCORE :: real where
  "VIBRATO_PRESENCE_MISMATCH_SCORE = 40"

record vibrato_profile =
  detected :: bool
  rate_hz :: "real option"
  depth_cents :: "real option"

record vibrato_lib =
  lib_median :: np_median
  lib_percentile :: np_percentile
  lib_autocorr :: "real list \<Rightarrow> real list"

section \<open>Sustained runs\<close>

fun run_loop :: "nat \<Rightarrow> real list \<Rightarrow> real option list \<Rightarrow> real list list" where
  "run_loop k current [] = (if length current \<ge> k then [current] else [])"
| "run_loop k current (Some v # frames) = run_loop k (current @ [v]) frames"
| "run_loop k current (None # frames) =
     (if length current \<ge> k then [current] else []) @ run_loop k [] frames"

text \<open>A hop of zero is a \<open>ZeroDivisionError\<close>.\<close>

definition sustained_runs :: "pitch_curve \<Rightarrow> real \<Rightarrow> exn + real list list" where
  "sustained_runs curve min_seconds =
     (if hop_seconds curve = 0 then Inl (Crash ''ZeroDivisionError'' ''float division by zero'')
      else Inr (run_loop (nat (max 1 (py_round (min_seconds / hop_seconds curve)))) [] (hz curve)))"

section \<open>The dominant oscillation of a run\<close>

text \<open>\<open>np.argmax\<close>: the first of the greatest.\<close>

fun argmax :: "real list \<Rightarrow> nat" where
  "argmax [] = 0"
| "argmax [x] = 0"
| "argmax (x # y # ys) = (let i = argmax (y # ys) in if x < (y # ys) ! i then Suc i else 0)"

definition min_lag_of :: "real \<Rightarrow> int" where
  "min_lag_of hop = max 1 (py_round (1 / VIBRATO_MAX_RATE_HZ / hop))"

definition max_lag_of :: "nat \<Rightarrow> real \<Rightarrow> int" where
  "max_lag_of n hop = min (int n - 1) (py_round (1 / VIBRATO_MIN_RATE_HZ / hop))"

definition dominant_oscillation :: "vibrato_lib \<Rightarrow> real list \<Rightarrow> real \<Rightarrow> exn + (real \<times> real) option" where
  "dominant_oscillation lib cents hop =
     (let detrended = map (\<lambda>c. c - mean cents) cents
      in if length detrended < 4 then Inr None
         else
           (let full = lib_autocorr lib detrended;
                half = drop (length full div 2) full
            in and_then (np_index half 0) (\<lambda>energy.
                 if energy \<le> 0 then Inr None
                 else
                   (let autocorr = map (\<lambda>x. x / energy) half;
                        min_lag = min_lag_of hop;
                        max_lag = max_lag_of (length autocorr) hop
                    in if min_lag \<ge> max_lag then Inr None
                       else
                         (let window = slice (nat min_lag) (nat (max_lag + 1)) autocorr;
                              peak_offset = argmax window;
                              peak_lag = min_lag + int peak_offset
                          in if window ! peak_offset < VIBRATO_AUTOCORR_PEAK_THRESHOLD then Inr None
                             else
                               (let rate = 1 / (of_int peak_lag * hop);
                                    depth = lib_percentile lib detrended 95 - lib_percentile lib detrended 5
                                in if depth < VIBRATO_MIN_DEPTH_CENTS then Inr None
                                   else Inr (Some (rate, depth))))))))"

section \<open>The profile of a curve\<close>

definition run_cents :: "vibrato_lib \<Rightarrow> real list \<Rightarrow> real list" where
  "run_cents lib run_hz = map (\<lambda>v. 1200 * log 2 (v / lib_median lib run_hz)) run_hz"

fun detections_of :: "vibrato_lib \<Rightarrow> real \<Rightarrow> real list list \<Rightarrow> exn + (real \<times> real \<times> nat) list" where
  "detections_of lib hop [] = Inr []"
| "detections_of lib hop (run_hz # runs) =
     and_then (dominant_oscillation lib (run_cents lib run_hz) hop) (\<lambda>found.
     and_then (detections_of lib hop runs) (\<lambda>rest.
       Inr (case found of None \<Rightarrow> rest | Some (rate, depth) \<Rightarrow> (rate, depth, length run_hz) # rest)))"

definition weighted_average :: "(real \<times> nat) list \<Rightarrow> real" where
  "weighted_average ps = (\<Sum>(x, w) \<leftarrow> ps. x * of_nat w) / (\<Sum>(x, w) \<leftarrow> ps. of_nat w)"

definition profile :: "vibrato_lib \<Rightarrow> pitch_curve \<Rightarrow> exn + vibrato_profile" where
  "profile lib curve =
     and_then (sustained_runs curve VIBRATO_MIN_SEGMENT_SECONDS) (\<lambda>runs.
     and_then (detections_of lib (hop_seconds curve) runs) (\<lambda>detections.
       Inr (if detections = [] then \<lparr>detected = False, rate_hz = None, depth_cents = None\<rparr>
            else \<lparr>detected = True,
                  rate_hz = Some (weighted_average (map (\<lambda>(rate, depth, w). (rate, w)) detections)),
                  depth_cents = Some (weighted_average (map (\<lambda>(rate, depth, w). (depth, w)) detections))\<rparr>)))"

section \<open>The comparison of two profiles\<close>

definition vibrato_score :: "vibrato_profile \<Rightarrow> vibrato_profile \<Rightarrow> real" where
  "vibrato_score user reference =
     (if \<not> detected reference \<and> \<not> detected user then 100
      else if detected reference \<noteq> detected user then VIBRATO_PRESENCE_MISMATCH_SCORE
      else
        (case (rate_hz user, rate_hz reference, depth_cents user, depth_cents reference) of
           (Some ur, Some rr, Some ud, Some rd) \<Rightarrow>
             (let rate_error = \<bar>ur - rr\<bar> / VIBRATO_RATE_TOLERANCE_HZ;
                  depth_error = \<bar>ud - rd\<bar> / VIBRATO_DEPTH_TOLERANCE_CENTS;
                  penalty = min 1 (5 / 10 * rate_error + 5 / 10 * depth_error)
              in py_round_to 1 (100 * (1 - penalty)))
         | _ \<Rightarrow> 0))"

definition profile_dict :: "vibrato_profile \<Rightarrow> pyval" where
  "profile_dict p = PDict
     [(''detected'', PBool (detected p)), (''rate_hz'', json_float (rate_hz p)),
      (''depth_cents'', json_float (depth_cents p))]"

definition vibrato_run :: "vibrato_lib \<Rightarrow> int \<Rightarrow> analysis_context \<Rightarrow> exn + stage_result" where
  "vibrato_run lib ms c =
     and_then (stage_data c ''pitch'') (\<lambda>pitch.
     and_then (and_then (getitem pitch ''user_pitch_curve'') validate_curve) (\<lambda>user_curve.
     and_then (profile lib user_curve) (\<lambda>user_profile.
     and_then (profile lib (reference_pitch c)) (\<lambda>reference_profile.
       Inr (stage_done ''vibrato'' ms
         [(''score'', PFloat (vibrato_score user_profile reference_profile)),
          (''user'', profile_dict user_profile),
          (''reference'', profile_dict reference_profile)])))))"

section \<open>Lemmas\<close>

lemma argmax_less: "xs \<noteq> [] \<Longrightarrow> argmax xs < length xs"
  by (induction xs rule: argmax.induct) (auto simp: Let_def)

text \<open>The rate of a detected oscillation comes from a lag in the band, and its depth is above the minimum.\<close>

lemma dominant_oscillation_found:
  assumes "dominant_oscillation lib cents hop = Inr (Some (rate, depth))"
  shows "\<exists>lag. min_lag_of hop \<le> lag \<and> lag \<le> py_round (1 / VIBRATO_MIN_RATE_HZ / hop) \<and>
    rate = 1 / (of_int lag * hop) \<and> VIBRATO_MIN_DEPTH_CENTS \<le> depth"
proof -
  let ?full = "lib_autocorr lib (map (\<lambda>c. c - mean cents) cents)"
  let ?half = "drop (length ?full div 2) ?full"
  from assms obtain energy where e: "np_index ?half 0 = Inr energy"
    and lags: "min_lag_of hop < max_lag_of (length ?half) hop"
    and rate: "rate = 1 / (of_int (min_lag_of hop + int (argmax (slice (nat (min_lag_of hop))
      (nat (max_lag_of (length ?half) hop + 1)) (map (\<lambda>x. x / energy) ?half)))) * hop)"
    and depth: "VIBRATO_MIN_DEPTH_CENTS \<le> depth"
    by (auto simp: dominant_oscillation_def Let_def and_then_eq_Inr not_le not_less split: if_splits)
  define w where "w = slice (nat (min_lag_of hop)) (nat (max_lag_of (length ?half) hop + 1)) (map (\<lambda>x. x / energy) ?half)"
  have one: "1 \<le> min_lag_of hop" by (simp add: min_lag_of_def)
  have "max_lag_of (length ?half) hop < int (length ?half)" by (simp add: max_lag_of_def)
  then have len: "int (length w) = max_lag_of (length ?half) hop + 1 - min_lag_of hop"
    using lags one unfolding w_def length_slice length_map by linarith
  with lags have "w \<noteq> []" by auto
  from argmax_less [OF this] len have "min_lag_of hop + int (argmax w) \<le> max_lag_of (length ?half) hop" by linarith
  moreover have "max_lag_of (length ?half) hop \<le> py_round (1 / VIBRATO_MIN_RATE_HZ / hop)"
    by (simp add: max_lag_of_def)
  ultimately show ?thesis
    using rate depth unfolding w_def [symmetric]
    by (intro exI [of _ "min_lag_of hop + int (argmax w)"]) auto
qed

lemma detections_facts:
  "detections_of lib hop runs = Inr ds \<Longrightarrow> (rate, depth, n) \<in> set ds \<Longrightarrow>
     (\<exists>lag. min_lag_of hop \<le> lag \<and> lag \<le> py_round (1 / VIBRATO_MIN_RATE_HZ / hop) \<and> rate = 1 / (of_int lag * hop)) \<and>
     VIBRATO_MIN_DEPTH_CENTS \<le> depth \<and> n \<in> length ` set runs"
proof (induction runs arbitrary: ds)
  case (Cons run_hz runs)
  then obtain found rest where f: "dominant_oscillation lib (run_cents lib run_hz) hop = Inr found"
    and r: "detections_of lib hop runs = Inr rest"
    and ds: "ds = (case found of None \<Rightarrow> rest | Some (rate, depth) \<Rightarrow> (rate, depth, length run_hz) # rest)"
    by (auto simp: and_then_eq_Inr)
  show ?case
  proof (cases "(rate, depth, n) \<in> set rest")
    case True
    then show ?thesis using Cons.IH [OF r] by auto
  next
    case False
    then have "found = Some (rate, depth)" and n: "n = length run_hz"
      using Cons.prems(2) ds by (auto split: option.splits)
    with f have "dominant_oscillation lib (run_cents lib run_hz) hop = Inr (Some (rate, depth))" by simp
    from dominant_oscillation_found [OF this] n show ?thesis by auto
  qed
qed simp

lemma weighted_average_bounds:
  assumes "ps \<noteq> []" and "\<And>x w. (x, w) \<in> set ps \<Longrightarrow> lo \<le> x \<and> x \<le> hi \<and> 0 < w"
  shows "lo \<le> weighted_average ps \<and> weighted_average ps \<le> hi"
proof -
  have "lo * (\<Sum>(x, w) \<leftarrow> ps. of_nat w) \<le> (\<Sum>(x, w) \<leftarrow> ps. x * of_nat w) \<and>
      (\<Sum>(x, w) \<leftarrow> ps. x * of_nat w) \<le> hi * (\<Sum>(x, w) \<leftarrow> ps. of_nat w)"
    using assms(2)
  proof (induction ps)
    case (Cons p ps)
    obtain x w where p: "p = (x, w)" by (cases p)
    have "lo * of_nat w \<le> x * of_nat w" "x * of_nat w \<le> hi * of_nat w"
      using Cons.prems [of x w] p by (auto intro: mult_right_mono)
    moreover have "\<And>y v. (y, v) \<in> set ps \<Longrightarrow> lo \<le> y \<and> y \<le> hi \<and> 0 < v" using Cons.prems by auto
    note Cons.IH [OF this]
    ultimately show ?case by (simp add: p algebra_simps)
  qed simp
  moreover have "0 < (\<Sum>(x, w) \<leftarrow> ps. of_nat w :: real)"
  proof -
    obtain x w qs where "ps = (x, w) # qs" using assms(1) by (cases ps) auto
    moreover have "0 \<le> (\<Sum>(x, w) \<leftarrow> qs. of_nat w :: real)" by (rule sum_list_nonneg) auto
    ultimately show ?thesis using assms(2) [of x w] by simp
  qed
  ultimately show ?thesis by (simp add: weighted_average_def field_simps)
qed

lemma run_loop_lengths: "r \<in> set (run_loop k current frames) \<Longrightarrow> k \<le> length r"
  by (induction k current frames rule: run_loop.induct) (auto split: if_splits)

lemma vibrato_score_percent: "0 \<le> vibrato_score p q \<and> vibrato_score p q \<le> 100"
proof -
  have "0 \<le> py_round_to 1 (100 * (1 - min 1 e)) \<and> py_round_to 1 (100 * (1 - min 1 e)) \<le> 100" if "0 \<le> e" for e :: real
    by (rule py_round_to_percent) (use that in auto)
  then show ?thesis
    by (auto simp: vibrato_score_def Let_def VIBRATO_PRESENCE_MISMATCH_SCORE_def VIBRATO_RATE_TOLERANCE_HZ_def
        VIBRATO_DEPTH_TOLERANCE_CENTS_def split: option.splits)
qed

lemma profile_shape:
  "profile lib curve = Inr p \<Longrightarrow> detected p \<longleftrightarrow> rate_hz p \<noteq> None \<and> depth_cents p \<noteq> None"
  by (auto simp: profile_def and_then_eq_Inr)

lemma vibrato_score_self: "profile lib curve = Inr p \<Longrightarrow> vibrato_score p p = 100"
  using profile_shape by (cases "detected p") (auto simp: vibrato_score_def Let_def py_round_to_def)

text \<open>The lags searched at the pitch hop.\<close>

lemma lags_at_pitch_hop:
  "min_lag_of PITCH_HOP_SECONDS = 11" "py_round (1 / VIBRATO_MIN_RATE_HZ / PITCH_HOP_SECONDS) = 29"
  by (simp_all add: min_lag_of_def VIBRATO_MAX_RATE_HZ_def VIBRATO_MIN_RATE_HZ_def PITCH_HOP_SECONDS_def py_round_def)

lemma profile_averages:
  assumes "profile lib curve = Inr p" and "detected p" and "0 < hop_seconds curve"
    and "\<And>lag. min_lag_of (hop_seconds curve) \<le> lag \<Longrightarrow>
      lag \<le> py_round (1 / VIBRATO_MIN_RATE_HZ / hop_seconds curve) \<Longrightarrow>
      lo \<le> 1 / (of_int lag * hop_seconds curve) \<and> 1 / (of_int lag * hop_seconds curve) \<le> hi"
  shows "\<exists>rate depth. rate_hz p = Some rate \<and> lo \<le> rate \<and> rate \<le> hi \<and>
    depth_cents p = Some depth \<and> VIBRATO_MIN_DEPTH_CENTS \<le> depth"
proof -
  from assms(1,2,3) obtain ds where
    ds: "detections_of lib (hop_seconds curve)
      (run_loop (nat (max 1 (py_round (VIBRATO_MIN_SEGMENT_SECONDS / hop_seconds curve)))) [] (hz curve)) = Inr ds"
    and ne: "ds \<noteq> []"
    and p: "rate_hz p = Some (weighted_average (map (\<lambda>(rate, depth, w). (rate, w)) ds))"
      "depth_cents p = Some (weighted_average (map (\<lambda>(rate, depth, w). (depth, w)) ds))"
    by (auto simp: profile_def sustained_runs_def and_then_eq_Inr split: if_splits)
  have w: "0 < n" if "(rate, depth, n) \<in> set ds" for rate depth n
    using detections_facts [OF ds that] run_loop_lengths by fastforce
  let ?rates = "map (\<lambda>(rate, depth, w). (rate, w)) ds" and ?depths = "map (\<lambda>(rate, depth, w). (depth, w)) ds"
  have "lo \<le> weighted_average ?rates \<and> weighted_average ?rates \<le> hi"
    by (rule weighted_average_bounds) (use ne w detections_facts [OF ds] assms(4) in \<open>auto, blast+\<close>)
  moreover have "VIBRATO_MIN_DEPTH_CENTS \<le> weighted_average ?depths \<and>
      weighted_average ?depths \<le> Max (fst ` set ?depths)"
  proof (rule weighted_average_bounds)
    fix x n
    assume "(x, n) \<in> set ?depths"
    then show "VIBRATO_MIN_DEPTH_CENTS \<le> x \<and> x \<le> Max (fst ` set ?depths) \<and> 0 < n"
      using w detections_facts [OF ds] by (auto intro!: Max_ge rev_image_eqI)
  qed (use ne in simp)
  ultimately show ?thesis using p by blast
qed

section \<open>Properties\<close>

text \<open>
  A vibrato that is detected in a curve sampled at the pitch hop has a rate between 100/29 and
  100/11 hertz, the lags that the search rounds its band to, and a depth of at least the minimum.
\<close>

theorem vibrato_rate_band:
  assumes "profile lib curve = Inr p" and "detected p" and "hop_seconds curve = PITCH_HOP_SECONDS"
  shows "\<exists>rate depth. rate_hz p = Some rate \<and> 100 / 29 \<le> rate \<and> rate \<le> 100 / 11 \<and>
    depth_cents p = Some depth \<and> VIBRATO_MIN_DEPTH_CENTS \<le> depth"
proof (rule profile_averages [OF assms(1,2)])
  show "0 < hop_seconds curve" by (simp add: assms(3) PITCH_HOP_SECONDS_def)
  fix lag
  assume "min_lag_of (hop_seconds curve) \<le> lag" "lag \<le> py_round (1 / VIBRATO_MIN_RATE_HZ / hop_seconds curve)"
  then have "11 \<le> lag" "lag \<le> 29" using lags_at_pitch_hop by (simp_all only: assms(3))
  then have "11 \<le> (of_int lag :: real)" "of_int lag \<le> (29 :: real)" by linarith+
  then show "100 / 29 \<le> 1 / (of_int lag * hop_seconds curve) \<and> 1 / (of_int lag * hop_seconds curve) \<le> 100 / 11"
    by (simp add: assms(3) PITCH_HOP_SECONDS_def field_simps)
qed

text \<open>A run of 30 frames for which the analyses report a peak at the first lag.\<close>

definition demo_vibrato_lib :: vibrato_lib where
  "demo_vibrato_lib = \<lparr>lib_median = median_sorted, lib_percentile = (\<lambda>xs q. q), lib_autocorr = (\<lambda>xs. replicate 100 1)\<rparr>"

lemma argmax_replicate: "argmax (replicate n x) = 0"
proof (induction n)
  case (Suc n)
  then show ?case by (cases n) (simp_all add: Let_def)
qed simp

lemma slice_replicate: "slice a b (replicate n x) = replicate (min b n - a) x"
  by (simp add: slice_def min.commute)

lemma demo_oscillation:
  "4 \<le> length cents \<Longrightarrow> dominant_oscillation demo_vibrato_lib cents PITCH_HOP_SECONDS = Inr (Some (100 / 11, 90))"
  using lags_at_pitch_hop
  by (simp add: dominant_oscillation_def demo_vibrato_lib_def Let_def np_index_def max_lag_of_def argmax_replicate
      slice_replicate VIBRATO_AUTOCORR_PEAK_THRESHOLD_def VIBRATO_MIN_DEPTH_CENTS_def PITCH_HOP_SECONDS_def)

lemma run_loop_Some: "run_loop k current (map Some xs) = (if k \<le> length current + length xs then [current @ xs] else [])"
  by (induction xs arbitrary: current) auto

lemma demo_profile:
  "profile demo_vibrato_lib \<lparr>hop_seconds = PITCH_HOP_SECONDS, hz = map Some (replicate 30 220)\<rparr> =
     Inr \<lparr>detected = True, rate_hz = Some (100 / 11), depth_cents = Some 90\<rparr>"
proof -
  have "sustained_runs \<lparr>hop_seconds = PITCH_HOP_SECONDS, hz = map Some (replicate 30 220)\<rparr> VIBRATO_MIN_SEGMENT_SECONDS =
      Inr [replicate 30 220]"
    using run_loop_Some [of 30 "[]" "replicate 30 220"]
    by (simp add: sustained_runs_def VIBRATO_MIN_SEGMENT_SECONDS_def PITCH_HOP_SECONDS_def del: map_replicate)
  then show ?thesis
    by (simp add: profile_def demo_oscillation run_cents_def weighted_average_def del: map_replicate)
qed

theorem vibrato_rate_band_witness:
  "\<exists>p rate. profile demo_vibrato_lib \<lparr>hop_seconds = PITCH_HOP_SECONDS, hz = map Some (replicate 30 220)\<rparr> = Inr p \<and>
     rate_hz p = Some rate \<and> rate \<le> 100 / 11"
proof -
  have "detected \<lparr>detected = True, rate_hz = Some (100 / 11), depth_cents = Some 90\<rparr>" by simp
  from vibrato_rate_band [OF demo_profile this] demo_profile show ?thesis by (auto simp del: map_replicate)
qed

text \<open>
  The vibrato score is within 0 and 100 whatever the two profiles, and a recording whose pitch
  curve is the reference's own scores 100.
\<close>

theorem vibrato_stage_score:
  assumes "vibrato_run lib ms c = Inr r"
  shows "\<exists>pitch curve score. stage_data c ''pitch'' = Inr pitch \<and>
    and_then (getitem pitch ''user_pitch_curve'') validate_curve = Inr curve \<and>
    map_of (data r) ''score'' = Some (PFloat score) \<and> 0 \<le> score \<and> score \<le> 100 \<and>
    (curve = reference_pitch c \<longrightarrow> score = 100)"
proof -
  from assms obtain pitch curve u v where "stage_data c ''pitch'' = Inr pitch"
    "and_then (getitem pitch ''user_pitch_curve'') validate_curve = Inr curve"
    and uv: "profile lib curve = Inr u" "profile lib (reference_pitch c) = Inr v"
    and "map_of (data r) ''score'' = Some (PFloat (vibrato_score u v))"
    by (auto simp: vibrato_run_def and_then_eq_Inr)
  moreover have "curve = reference_pitch c \<Longrightarrow> vibrato_score u v = 100"
    using uv vibrato_score_self by force
  ultimately show ?thesis using vibrato_score_percent by blast
qed

definition demo_vibrato_context :: analysis_context where
  "demo_vibrato_context = demo_context (map Some (replicate 30 220))
     [''pitch'' \<mapsto> stage_done ''pitch'' 0 (pitch_data (map Some (replicate 30 220)) [] [])]"

lemma demo_vibrato_pitch:
  "stage_data demo_vibrato_context ''pitch'' = Inr (pitch_data (map Some (replicate 30 220)) [] [])"
  "reference_pitch demo_vibrato_context = \<lparr>hop_seconds = PITCH_HOP_SECONDS, hz = map Some (replicate 30 220)\<rparr>"
  "and_then (getitem (pitch_data (map Some (replicate 30 220)) [] []) ''user_pitch_curve'') validate_curve =
     Inr \<lparr>hop_seconds = PITCH_HOP_SECONDS, hz = map Some (replicate 30 220)\<rparr>"
  by (simp_all add: demo_vibrato_context_def demo_context_def stage_data_def analysis_result_def pitch_data_def Let_def)

lemma demo_vibrato_run: "\<exists>r. vibrato_run demo_vibrato_lib 0 demo_vibrato_context = Inr r"
  using demo_vibrato_pitch demo_profile by (simp add: vibrato_run_def)

theorem vibrato_stage_score_witness:
  "\<exists>r. vibrato_run demo_vibrato_lib 0 demo_vibrato_context = Inr r \<and>
     map_of (data r) ''score'' = Some (PFloat 100)"
proof -
  obtain r where run: "vibrato_run demo_vibrato_lib 0 demo_vibrato_context = Inr r" using demo_vibrato_run by blast
  from vibrato_stage_score [OF run] demo_vibrato_pitch run show ?thesis by auto
qed

end
