(* ===== verification/ReportTexts.thy ===== *)
theory ReportTexts
  imports StageData Scoring
begin

text \<open>
  The texts of \<open>pipeline/report.py\<close> in both languages and their formatting with \<open>str.format\<close>. The lemmas show that
  every template has a text for each key the report looks up, with no other fields than those it is given.
\<close>

section \<open>Formatting\<close>

definition dict_get :: "(string \<times> 'a) list \<Rightarrow> string \<Rightarrow> exn + 'a" where
  "dict_get d k = (case map_of d k of None \<Rightarrow> Inl (Crash ''KeyError'' k) | Some v \<Rightarrow> Inr v)"

text \<open>\<open>{name}\<close> of a string or an int; no stage stores anything else under the names printed so.\<close>

fun format_plain :: "pyval \<Rightarrow> exn + string" where
  "format_plain (PStr s) = Inr s"
| "format_plain (PInt k) = Inr (show_int k)"
| "format_plain (PBool b) = Inr (if b then ''True'' else ''False'')"
| "format_plain PNone = Inr ''None''"
| "format_plain v = Inl (Crash ''NotModelled'' [])"

fun format_fixed :: "nat \<Rightarrow> pyval \<Rightarrow> exn + string" where
  "format_fixed n (PStr s) = Inl (Crash ''ValueError'' [])"
| "format_fixed n v = and_then (py_float v) (\<lambda>x. Inr (show_fixed n x))"

definition format_value :: "string \<Rightarrow> pyval \<Rightarrow> exn + string" where
  "format_value spec v =
     (if spec = [] then format_plain v
      else if spec = ''.0f'' then format_fixed 0 v
      else if spec = ''.2f'' then format_fixed 2 v
      else Inl (Crash ''ValueError'' ''Invalid format specifier''))"

definition format_field :: "(string \<times> pyval) list \<Rightarrow> string \<Rightarrow> exn + string" where
  "format_field args f =
     (let name = takeWhile (\<lambda>c. c \<noteq> CHR '':'') f
      in and_then (dict_get args name) (format_value (drop (Suc (length name)) f)))"

text \<open>\<open>str.format\<close> with named fields and no doubled braces, as the templates use it.\<close>

fun py_format :: "(string \<times> pyval) list \<Rightarrow> string \<Rightarrow> exn + string" where
  "py_format args [] = Inr []"
| "py_format args (c # cs) =
     (if c = CHR ''{'' then
        (let f = takeWhile (\<lambda>c. c \<noteq> CHR ''}'') cs
         in and_then (format_field args f) (\<lambda>s.
            and_then (py_format args (drop (Suc (length f)) cs)) (\<lambda>t. Inr (s @ t))))
      else and_then (py_format args cs) (\<lambda>t. Inr (c # t)))"

section \<open>Texts\<close>

type_synonym table = "(string \<times> string) list"

record report_texts =
  aspect_labels :: table
  timbre_disclaimer :: string
  accompaniment_in_clean_warning :: string
  unavailable_reason_text :: table
  pitch_templates :: table
  rhythm_templates :: table
  breath_templates :: table
  dynamics_templates :: table
  vibrato_templates :: table
  timbre_templates :: table
  overall_summary_template :: string
  unavailable_template :: string

definition en_aspect_labels :: table where
  "en_aspect_labels =
     [(''pitch'', ''Pitch accuracy''),
      (''rhythm'', ''Rhythm and timing''),
      (''breath'', ''Breath and phrasing''),
      (''dynamics'', ''Dynamics''),
      (''vibrato'', ''Vibrato''),
      (''timbre'', ''Timbre'')]"

definition en_timbre_disclaimer :: string where
  "en_timbre_disclaimer =
     ''This is a rough indicator of how similar your tone color sounds to the '' @
     ''reference, not a diagnosis of your vocal technique.''"

definition en_accompaniment_in_clean_warning :: string where
  "en_accompaniment_in_clean_warning =
     ''Heads up: parts of your recording have energy that doesn't look like a '' @
     ''clean solo voice. This app assumes `clean` recordings are a cappella, '' @
     ''without background music or instruments picked up by the mic -- if '' @
     ''that wasn't the case here, treat the scores above as less precise than '' @
     ''usual, or retry this analysis in `mixed` mode.''"

definition en_unavailable_reason_text :: table where
  "en_unavailable_reason_text =
     [(''NOT_MEASURABLE_WITH_ACCOMPANIMENT'',
       ''not measurable with accompaniment present in this recording'')]"

definition en_pitch_templates :: table where
  "en_pitch_templates =
     [(''excellent'',
       ''Right on target: your pitch tracked the reference within {cents:.0f} cents on average.''),
      (''good'',
       ''Mostly accurate, {cents:.0f} cents off the reference on average. '' @
       ''Listen back and isolate the handful of notes that drifted.''),
      (''fair'',
       ''Noticeably off pitch, {cents:.0f} cents off the reference on average. '' @
       ''Practice the melody slowly against a piano or tuner before singing it at tempo.''),
      (''poor'',
       ''Pitch drifted by {cents:.0f} cents on average -- more than a semitone in places. '' @
       ''Work on matching single sustained notes to a reference tone before the full phrase.'')]"

definition en_rhythm_templates :: table where
  "en_rhythm_templates =
     [(''excellent'',
       ''Timing was tight: {within}/{total} notes landed within the tolerance window.''),
      (''good'',
       ''Timing was mostly solid, {offset_ms:.0f} ms off the reference on average '' @
       ''({within}/{total} notes within tolerance). A metronome on the trickier lines '' @
       ''will help.''),
      (''fair'',
       ''Entries were often early or late, {offset_ms:.0f} ms off the reference on average. '' @
       ''Practice singing along with the reference track to internalize the exact timing.''),
      (''poor'',
       ''Timing diverged a lot from the reference, {offset_ms:.0f} ms off on average. '' @
       ''Start by clapping or tapping the rhythm alone before adding the melody back in.'')]"

definition en_breath_templates :: table where
  "en_breath_templates =
     [(''no_pauses'',
       ''The reference has no clear breath points to compare against; nothing to flag here.''),
      (''excellent'', ''Breaths landed where the reference takes them: {matched}/{total} matched.''),
      (''partial'',
       ''Breathing was partly in the right places ({matched}/{total} matched). '' @
       ''Mark the reference's breath points in your lyrics sheet for the rest.''),
      (''poor'',
       ''Breaths often didn't line up with the reference ({matched}/{total} matched). '' @
       ''Plan where to breathe ahead of time, at the same phrase boundaries as the '' @
       ''reference, and practice sustaining a full phrase on one breath.'')]"

definition en_dynamics_templates :: table where
  "en_dynamics_templates =
     [(''excellent'', ''Your loudness contour closely followed the reference's crescendos and dips.''),
      (''partial'',
       ''Dynamics partly tracked the reference (correlation {correlation:.2f}). '' @
       ''Push a little harder into the loud passages and pull back further into the '' @
       ''quiet ones.''),
      (''poor'',
       ''Your volume stayed fairly flat next to the reference (correlation '' @
       ''{correlation:.2f}). Exaggerate the crescendos and diminuendos more than '' @
       ''feels natural at first -- it usually still reads as normal from the '' @
       ''listener's side.'')]"

definition en_vibrato_templates :: table where
  "en_vibrato_templates =
     [(''user_added'',
       ''You added vibrato where the reference sings a straight tone. '' @
       ''Try holding a few sustained notes perfectly steady for practice.''),
      (''neither'', ''Neither you nor the reference use vibrato here -- nothing to flag.''),
      (''user_missing'',
       ''The reference uses vibrato on sustained notes that you sang straight. '' @
       ''Vibrato usually comes from relaxed, breath-supported sustain -- '' @
       ''practice holding a note and letting a gentle wave develop naturally.''),
      (''close_match'', ''Your vibrato's rate and depth were a close match to the reference's.''),
      (''differs_rate_faster'', ''Vibrato was present but faster in rate than the reference's.''),
      (''differs_rate_slower'', ''Vibrato was present but slower in rate than the reference's.''),
      (''differs_depth_wider'', ''Vibrato was present but wider in depth than the reference's.''),
      (''differs_depth_narrower'', ''Vibrato was present but narrower in depth than the reference's.''),
      (''differs_rate_faster_depth_wider'',
       ''Vibrato was present but faster in rate and wider in depth than the reference's.''),
      (''differs_rate_faster_depth_narrower'',
       ''Vibrato was present but faster in rate and narrower in depth than the reference's.''),
      (''differs_rate_slower_depth_wider'',
       ''Vibrato was present but slower in rate and wider in depth than the reference's.''),
      (''differs_rate_slower_depth_narrower'',
       ''Vibrato was present but slower in rate and narrower in depth than the reference's.''),
      (''differs_character'',
       ''Vibrato was present but a bit different in character than the reference's.'')]"

definition en_timbre_templates :: table where
  "en_timbre_templates =
     [(''close'', ''Your tone color was close to the reference's. {disclaimer}''),
      (''differs'',
       ''Your tone color differed noticeably from the reference's. {disclaimer} '' @
       ''A different natural voice is not something to '' @ [CHR 0x22] @ ''fix'' @ [CHR 0x22] @ ''.'')]"

definition en_texts :: report_texts where
  "en_texts =
     \<lparr>aspect_labels = en_aspect_labels,
      timbre_disclaimer = en_timbre_disclaimer,
      accompaniment_in_clean_warning = en_accompaniment_in_clean_warning,
      unavailable_reason_text = en_unavailable_reason_text,
      pitch_templates = en_pitch_templates,
      rhythm_templates = en_rhythm_templates,
      breath_templates = en_breath_templates,
      dynamics_templates = en_dynamics_templates,
      vibrato_templates = en_vibrato_templates,
      timbre_templates = en_timbre_templates,
      overall_summary_template =
        ''Overall score: {overall:.0f}/100. The biggest opportunity to improve is '' @
        ''{focus} ({focus_score:.0f}/100).'',
      unavailable_template = ''{label}: not scored this time -- {reason}.''\<rparr>"

text \<open>
  The Ukrainian texts, which need letters beyond ASCII. A string is a list of 8-bit characters, so each Ukrainian
  letter, the apostrophe and the two quotation marks get a character of the upper half, and \<open>cyr\<close> writes them by their
  ASCII counterparts, upper and lower case alike:
  a b v h d e g (zh) z y i j k l m n o p r s t u f x (kh) c (ts) q (ch) w (sh) in the order of the alphabet, and
  \<open>&\<close> for ye, \<open>%\<close> for yi, \<open>#\<close> for shch, \<open>*\<close> for the soft sign, \<open>+\<close> for yu and \<open>@\<close> for ya, \<open>^\<close> for the
  apostrophe, \<open><\<close> and \<open>>\<close> for the quotation marks. What is in braces is a field's name and stays.
\<close>

definition cyrillic_letter :: "char \<Rightarrow> char" where
  "cyrillic_letter c =
     (let n = (of_char c :: nat)
      in if 65 \<le> n \<and> n \<le> 90 \<or> 97 \<le> n \<and> n \<le> 122 \<or> c \<in> set ''&%#*+@^<>'' then char_of (n + 128) else c)"

fun cyr :: "string \<Rightarrow> string" where
  "cyr [] = []"
| "cyr (c # cs) =
     (if c = CHR ''{'' then
        (let f = takeWhile (\<lambda>c. c \<noteq> CHR ''}'') cs in c # f @ cyr (drop (length f) cs))
      else cyrillic_letter c # cyr cs)"

definition cyr_table :: "table \<Rightarrow> table" where
  "cyr_table = map (\<lambda>(key, text). (key, cyr text))"

definition uk_aspect_labels :: table where
  "uk_aspect_labels = cyr_table
     [(''pitch'', ''Toqnist* vysoty tonu''),
      (''rhythm'', ''Rytm i temp''),
      (''breath'', ''Dyxann@ i frazuvann@''),
      (''dynamics'', ''Dynamika''),
      (''vibrato'', ''Vibrato''),
      (''timbre'', ''Tembr'')]"

definition uk_timbre_disclaimer :: string where
  "uk_timbre_disclaimer =
     cyr (''Ce pryblyznyj pokaznyk toho, naskil*ky sxogyj vaw tembr na referensnyj, '' @
       ''a ne diahnostyka vawo% vokal*no% texniky.'')"

definition uk_accompaniment_in_clean_warning :: string where
  "uk_accompaniment_in_clean_warning =
     cyr (''Zvernit* uvahu: qastyna vawoho zapysu mistyt* enerhi+, ne sxogu na '' @
       ''qystyj sol*nyj holos. Cej zastosunok vvaga&, #o zapysy v regymi '' @
       ''<a kapela> zrobleni bez fonovo% muzyky qy instrumentiv, @ki mohly '' @
       ''potrapyty v mikrofon -- @k#o ce ne tak, vvagajte rezul*taty vy#e menw '' @
       ''toqnymy abo povtorit* analiz u regymi <z muzyko+>.'')"

definition uk_unavailable_reason_text :: table where
  "uk_unavailable_reason_text = cyr_table
     [(''NOT_MEASURABLE_WITH_ACCOMPANIMENT'', ''nemoglyvo vymir@ty qerez na@vnist* suprovodu v zapysi'')]"

definition uk_pitch_templates :: table where
  "uk_pitch_templates = cyr_table
     [(''excellent'',
       ''Toqno v cil*: vawa vysota tonu trymalas@ referensu v megax {cents:.0f} '' @
       ''centiv u seredn*omu.''),
      (''good'',
       ''Zdebil*woho toqno, vidxylenn@ {cents:.0f} centiv vid referensu v seredn*omu. '' @
       ''Prosluxajte zapys i znajdit* kil*ka not, @ki z^%xaly.''),
      (''fair'',
       ''Pomitno neqysto, vidxylenn@ {cents:.0f} centiv vid referensu v seredn*omu. '' @
       ''Rozuqit* melodi+ povil*no pid pianino qy t+ner, perw nig spivaty v tempi.''),
      (''poor'',
       ''Vysota tonu vidxyl@las@ v seredn*omu na {cents:.0f} centiv -- misc@my '' @
       ''bil*we nig na pivtonu. Poprac+jte nad vluqann@m v okremi vytrymani noty '' @
       ''pered cilo+ frazo+.'')]"

definition uk_rhythm_templates :: table where
  "uk_rhythm_templates = cyr_table
     [(''excellent'', ''Rytm buv qitkym: {within}/{total} not potrapyly u vikno dopusku.''),
      (''good'',
       ''Rytm zdebil*woho buv stabil*nym, vidxylenn@ {offset_ms:.0f} ms vid referensu '' @
       ''v seredn*omu ({within}/{total} not u megax dopusku). Metronom na skladniwyx '' @
       ''r@dkax dopomoge.''),
      (''fair'',
       ''Vstupy qasto buly zarano abo zapizno, vidxylenn@ {offset_ms:.0f} ms vid '' @
       ''referensu v seredn*omu. Spivajte razom z referensnym trekom, #ob zasvo%ty '' @
       ''toqnyj rytm.''),
      (''poor'',
       ''Rytm sutt&vo rozijwovs@ z referensom, vidxylenn@ {offset_ms:.0f} ms u '' @
       ''seredn*omu. Poqnit* z prostukuvann@ rytmu okremo, perw nig dodavaty melodi+.'')]"

definition uk_breath_templates :: table where
  "uk_breath_templates = cyr_table
     [(''no_pauses'',
       ''U referensi nema& qitkyx toqok dl@ dyxann@, z @kymy mogna porivn@ty -- '' @
       ''tut nema na #o vkazaty.''),
      (''excellent'', ''Dyxann@ spivpadalo z referensom: {matched}/{total} zbihiv.''),
      (''partial'',
       ''Dyxann@ qastkovo spivpadalo z referensom ({matched}/{total} zbihiv). '' @
       ''Poznaqte toqky dyxann@ referensu u svo&mu teksti pisni dl@ rewty.''),
      (''poor'',
       ''Dyxann@ qasto ne spivpadalo z referensom ({matched}/{total} zbihiv). '' @
       ''Planujte, de dyxaty, zazdalehid*, na tyx samyx megax fraz, #o j referens, '' @
       ''i praktykujte vytrymuvann@ cilo% frazy na odnomu dyxanni.'')]"

definition uk_dynamics_templates :: table where
  "uk_dynamics_templates = cyr_table
     [(''excellent'', ''Huqnist* vawoho holosu toqno sliduvala za narostann@my j spadamy referensu.''),
      (''partial'',
       ''Dynamika qastkovo vidpovidala referensu (korel@ci@ {correlation:.2f}). '' @
       ''Spivajte troxy huqniwe v holosnyx misc@x i tyxiwe v tyxyx.''),
      (''poor'',
       ''Huqnist* vawoho holosu zalywalas@ dovoli rivno+ porivn@no z referensom '' @
       ''(korel@ci@ {correlation:.2f}). Pidkresl+jte narostann@ j spady syl*niwe, '' @
       ''nig zda&t*s@ pryrodnym spoqatku -- zazvyqaj ce vse odno zvuqyt* normal*no '' @
       ''dl@ sluxaqa.'')]"

definition uk_vibrato_templates :: table where
  "uk_vibrato_templates = cyr_table
     [(''user_added'',
       ''Vy dodaly vibrato tam, de referens spiva& rivnym tonom. '' @
       ''Sprobujte potrenuvatys@ trymaty kil*ka vytrymanyx not absol+tno rivno.''),
      (''neither'', ''Ani vy, ani referens ne vykorystovu&te vibrato tut -- nema na #o vkazaty.''),
      (''user_missing'',
       ''Referens vykorystovu& vibrato na vytrymanyx notax, @ki vy zaspivaly rivno. '' @
       ''Vibrato zazvyqaj vynyka& z rozslablenoho, pidtrymanoho dyxann@m vytrymuvann@ -- '' @
       ''potrenujtes@ trymaty notu i daty lehkij xvyli rozvynutys@ pryrodno.''),
      (''close_match'', ''Wvydkist* i hlybyna vawoho vibrato buly blyz*ki do referensu.''),
      (''differs_rate_faster'', ''Vibrato bulo prysutn&, ale wvydwe za referensne.''),
      (''differs_rate_slower'', ''Vibrato bulo prysutn&, ale povil*niwe za referensne.''),
      (''differs_depth_wider'', ''Vibrato bulo prysutn&, ale hlybwe za referensne.''),
      (''differs_depth_narrower'', ''Vibrato bulo prysutn&, ale vugqe za referensne.''),
      (''differs_rate_faster_depth_wider'', ''Vibrato bulo prysutn&, ale wvydwe i hlybwe za referensne.''),
      (''differs_rate_faster_depth_narrower'',
       ''Vibrato bulo prysutn&, ale wvydwe i vugqe za referensne.''),
      (''differs_rate_slower_depth_wider'',
       ''Vibrato bulo prysutn&, ale povil*niwe i hlybwe za referensne.''),
      (''differs_rate_slower_depth_narrower'',
       ''Vibrato bulo prysutn&, ale povil*niwe i vugqe za referensne.''),
      (''differs_character'', ''Vibrato bulo prysutn&, ale de#o inwoho xarakteru, nig referensne.'')]"

definition uk_timbre_templates :: table where
  "uk_timbre_templates = cyr_table
     [(''close'', ''Vaw tembr buv blyz*kym do referensnoho. {disclaimer}''),
      (''differs'',
       ''Vaw tembr pomitno vidrizn@vs@ vid referensnoho. {disclaimer} '' @
       ''Inwyj pryrodnyj holos -- ce ne te, #o potribno '' @
       [CHR 0x22] @
       ''vypravl@ty'' @
       [CHR 0x22] @
       ''.'')]"

definition uk_overall_summary_template :: string where
  "uk_overall_summary_template =
     cyr (''Zahal*nyj rezul*tat: {overall:.0f}/100. Najbil*we varto poprac+vaty nad: '' @
       ''{focus} ({focus_score:.0f}/100).'')"

definition uk_unavailable_template :: string where
  "uk_unavailable_template =
     cyr (''{label}: ne ocineno c*oho razu -- {reason}.'')"

definition uk_texts :: report_texts where
  "uk_texts =
     \<lparr>aspect_labels = uk_aspect_labels,
      timbre_disclaimer = uk_timbre_disclaimer,
      accompaniment_in_clean_warning = uk_accompaniment_in_clean_warning,
      unavailable_reason_text = uk_unavailable_reason_text,
      pitch_templates = uk_pitch_templates,
      rhythm_templates = uk_rhythm_templates,
      breath_templates = uk_breath_templates,
      dynamics_templates = uk_dynamics_templates,
      vibrato_templates = uk_vibrato_templates,
      timbre_templates = uk_timbre_templates,
      overall_summary_template = uk_overall_summary_template,
      unavailable_template = uk_unavailable_template\<rparr>"

definition texts_of :: "locale_tag \<Rightarrow> report_texts" where
  "texts_of loc = (case loc of En \<Rightarrow> en_texts | Uk \<Rightarrow> uk_texts)"

section \<open>Every template can be formatted\<close>

fun placeholders :: "string \<Rightarrow> string list" where
  "placeholders [] = []"
| "placeholders (c # cs) =
     (if c = CHR ''{'' then
        (let f = takeWhile (\<lambda>c. c \<noteq> CHR ''}'') cs in f # placeholders (drop (Suc (length f)) cs))
      else placeholders cs)"

lemma py_format_total:
  "(\<And>f. f \<in> set (placeholders t) \<Longrightarrow> \<exists>s. format_field args f = Inr s) \<Longrightarrow> \<exists>s. py_format args t = Inr s"
proof (induction t rule: placeholders.induct)
  case (2 c cs)
  show ?case
  proof (cases "c = CHR ''{''")
    case True
    let ?f = "takeWhile (\<lambda>c. c \<noteq> CHR ''}'') cs"
    have "\<exists>s. format_field args ?f = Inr s" using 2(3) [of ?f] True by (simp add: Let_def)
    moreover have "\<exists>s. py_format args (drop (Suc (length ?f)) cs) = Inr s"
      using 2(1) [OF True refl] 2(3) True by (simp add: Let_def)
    ultimately show ?thesis using True by (auto simp: Let_def)
  next
    case False
    then show ?thesis using 2(2) 2(3) by auto
  qed
qed simp

text \<open>A table has a template for each of the keys, with no other than the given fields.\<close>

definition has_templates :: "table \<Rightarrow> string list \<Rightarrow> string list \<Rightarrow> bool" where
  "has_templates d keys allowed =
     list_all (\<lambda>k. case map_of d k of None \<Rightarrow> False | Some t \<Rightarrow> list_all (\<lambda>f. f \<in> set allowed) (placeholders t)) keys"

definition has_keys :: "table \<Rightarrow> string list \<Rightarrow> bool" where
  "has_keys d keys = list_all (\<lambda>k. map_of d k \<noteq> None) keys"

definition vibrato_keys :: "string list" where
  "vibrato_keys =
     [''user_added'', ''neither'', ''user_missing'', ''close_match'', ''differs_rate_faster'', ''differs_rate_slower'',
      ''differs_depth_wider'', ''differs_depth_narrower'', ''differs_rate_faster_depth_wider'',
      ''differs_rate_faster_depth_narrower'', ''differs_rate_slower_depth_wider'',
      ''differs_rate_slower_depth_narrower'', ''differs_character'']"

definition texts_ok :: "report_texts \<Rightarrow> bool" where
  "texts_ok T \<longleftrightarrow>
     has_keys (aspect_labels T) ASPECTS \<and>
     has_templates (pitch_templates T) [''excellent'', ''good'', ''fair'', ''poor''] [''cents:.0f''] \<and>
     has_templates (rhythm_templates T) [''excellent'', ''good'', ''fair'', ''poor''] [''offset_ms:.0f'', ''within'', ''total''] \<and>
     has_keys (breath_templates T) [''no_pauses''] \<and>
     has_templates (breath_templates T) [''excellent'', ''partial'', ''poor''] [''matched'', ''total''] \<and>
     has_templates (dynamics_templates T) [''excellent'', ''partial'', ''poor''] [''correlation:.2f''] \<and>
     has_keys (vibrato_templates T) vibrato_keys \<and>
     has_templates (timbre_templates T) [''close'', ''differs''] [''disclaimer''] \<and>
     list_all (\<lambda>f. f \<in> set [''overall:.0f'', ''focus'', ''focus_score:.0f'']) (placeholders (overall_summary_template T)) \<and>
     list_all (\<lambda>f. f \<in> set [''label'', ''reason'']) (placeholders (unavailable_template T))"

lemma en_texts_ok: "texts_ok en_texts"
  unfolding texts_ok_def by (intro conjI; code_simp)

text \<open>Writing a text in Ukrainian letters keeps its fields.\<close>

lemma cyrillic_letter_brace: "c \<noteq> CHR ''{'' \<Longrightarrow> cyrillic_letter c \<noteq> CHR ''{''"
proof
  assume c: "c \<noteq> CHR ''{''" and eq: "cyrillic_letter c = CHR ''{''"
  let ?n = "of_char c :: nat"
  have n: "?n \<le> 122" and e: "char_of (?n + 128) = CHR ''{''"
    using c eq by (auto simp: cyrillic_letter_def Let_def split: if_splits)
  have "of_char (char_of (?n + 128)) = (of_char CHR ''{'' :: nat)" using e by simp
  then have "(?n + 128) mod 256 = 123" by (simp only: of_char_of) simp
  moreover have "(?n + 128) mod 256 = ?n + 128" using n by simp
  ultimately show False by simp
qed

lemma cyrillic_letter_close [simp]: "cyrillic_letter CHR ''}'' = CHR ''}''"
  by code_simp

text \<open>No two of the characters that are written stand for the same one, so the coding loses nothing.\<close>

lemma cyrillic_letter_inj: "inj_on cyrillic_letter {c. (of_char c :: nat) < 128}"
proof (rule inj_onI)
  fix c d assume "c \<in> {c. (of_char c :: nat) < 128}" "d \<in> {c. (of_char c :: nat) < 128}" and eq: "cyrillic_letter c = cyrillic_letter d"
  then have "(of_char c :: nat) < 128" "(of_char d :: nat) < 128" by simp_all
  moreover have "(of_char (cyrillic_letter c) :: nat) = of_char (cyrillic_letter d)" using eq by simp
  ultimately have "(of_char c :: nat) = of_char d" by (auto simp: cyrillic_letter_def Let_def split: if_splits)
  then show "c = d" by simp
qed

lemma placeholders_cyr: "placeholders (cyr s) = placeholders s"
proof (induction s rule: cyr.induct)
  case (2 c cs)
  show ?case
  proof (cases "c = CHR ''{''")
    case False
    then show ?thesis using 2(2) cyrillic_letter_brace by simp
  next
    case True
    let ?f = "takeWhile (\<lambda>c. c \<noteq> CHR ''}'') cs" and ?rest = "dropWhile (\<lambda>c. c \<noteq> CHR ''}'') cs"
    have rest: "drop (length ?f) cs = ?rest" by (simp add: dropWhile_eq_drop)
    have IH: "placeholders (cyr ?rest) = placeholders ?rest" using 2(1) [OF True refl] by (simp add: rest)
    have cyr: "cyr (c # cs) = CHR ''{'' # ?f @ cyr ?rest" using True by (simp add: Let_def rest)
    have drop: "drop (Suc (length ?f)) cs = tl ?rest" using arg_cong [OF rest, of tl] by (simp add: tl_drop drop_Suc)
    show ?thesis
    proof (cases ?rest)
      case Nil
      then have f: "takeWhile (\<lambda>c. c \<noteq> CHR ''}'') ?f = ?f" by simp
      show ?thesis unfolding cyr using True f drop by (simp add: Let_def Nil)
    next
      case (Cons d ds)
      then have d: "d = CHR ''}''" using hd_dropWhile [of "\<lambda>c. c \<noteq> CHR ''}''" cs] by auto
      have f: "takeWhile (\<lambda>c. c \<noteq> CHR ''}'') (?f @ CHR ''}'' # cyr ds) = ?f"
        by (subst takeWhile_append2) (auto dest: set_takeWhileD)
      have "placeholders (cyr ds) = placeholders ds" using IH by (simp add: Cons d)
      then show ?thesis unfolding cyr using True by (simp add: Let_def f Cons d drop)
    qed
  qed
qed simp

lemma cyr_table_keeps:
  "has_templates (cyr_table d) keys allowed = has_templates d keys allowed" "has_keys (cyr_table d) keys = has_keys d keys"
  by (simp_all add: has_templates_def has_keys_def cyr_table_def map_of_map list_all_iff placeholders_cyr split: option.split)

lemmas uk_table_defs = uk_aspect_labels_def uk_pitch_templates_def uk_rhythm_templates_def uk_breath_templates_def
  uk_dynamics_templates_def uk_vibrato_templates_def uk_timbre_templates_def uk_overall_summary_template_def
  uk_unavailable_template_def

lemma uk_texts_ok: "texts_ok uk_texts"
  unfolding texts_ok_def uk_texts_def report_texts.simps uk_table_defs cyr_table_keeps placeholders_cyr
  by (intro conjI; code_simp)

lemma texts_of_ok: "texts_ok (texts_of loc)"
  by (cases loc) (simp_all add: texts_of_def en_texts_ok uk_texts_ok)

text \<open>Both timbre texts of a language have the field of the disclaimer.\<close>

definition requires :: "table \<Rightarrow> string list \<Rightarrow> string \<Rightarrow> bool" where
  "requires d keys f =
     list_all (\<lambda>k. case map_of d k of None \<Rightarrow> False | Some t \<Rightarrow> list_ex (\<lambda>g. g = f) (placeholders t)) keys"

lemma requires_cyr: "requires (cyr_table d) keys f = requires d keys f"
  by (simp add: requires_def cyr_table_def map_of_map list_all_iff placeholders_cyr split: option.split)

lemma timbre_requires: "requires (timbre_templates (texts_of loc)) [''close'', ''differs''] ''disclaimer''"
proof (cases loc)
  case En
  show ?thesis unfolding En texts_of_def locale_tag.case by code_simp
next
  case Uk
  show ?thesis
    unfolding Uk texts_of_def locale_tag.case uk_texts_def report_texts.simps uk_timbre_templates_def requires_cyr by code_simp
qed

lemma timbre_fields: "k = ''close'' \<or> k = ''differs'' \<Longrightarrow>
    \<exists>t. dict_get (timbre_templates (texts_of loc)) k = Inr t \<and> ''disclaimer'' \<in> set (placeholders t)"
  using timbre_requires [of loc] by (auto simp: requires_def dict_get_def list_ex_iff split: option.splits)

end
