(* ===== verification/Report.thy ===== *)
theory Report
  imports ReportTexts Aspects Vibrato
begin

text \<open>
  \<open>pipeline/report.py\<close>: the text report over the data of the scored stages. The decisions (the
  tier, the focus aspect, the vibrato outcome) do not depend on the language; only the last step looks
  a template of \<open>ReportTexts\<close> up and formats it. The lemmas show that every template is found and formatted for data of
  the shape the stages store.
\<close>

section \<open>The decisions\<close>

definition FEEDBACK_EXCELLENT_THRESHOLD :: real where
  "FEEDBACK_EXCELLENT_THRESHOLD = 90"

definition FEEDBACK_GOOD_THRESHOLD :: real where
  "FEEDBACK_GOOD_THRESHOLD = 75"

definition FEEDBACK_FAIR_THRESHOLD :: real where
  "FEEDBACK_FAIR_THRESHOLD = 50"

definition tier :: "real \<Rightarrow> string" where
  "tier score =
     (if score \<ge> FEEDBACK_EXCELLENT_THRESHOLD then ''excellent''
      else if score \<ge> FEEDBACK_GOOD_THRESHOLD then ''good''
      else if score \<ge> FEEDBACK_FAIR_THRESHOLD then ''fair''
      else ''poor'')"

definition tier_of :: "pydict \<Rightarrow> exn + string" where
  "tier_of d = and_then (read_as py_float d ''score'') (\<lambda>score. Inr (tier score))"

definition pitch_feedback :: "report_texts \<Rightarrow> pydict \<Rightarrow> exn + string" where
  "pitch_feedback texts d =
     and_then (getitem d ''mean_abs_cents'') (\<lambda>cents.
     and_then (tier_of d) (\<lambda>t.
     and_then (dict_get (pitch_templates texts) t) (py_format [(''cents'', cents)])))"

definition rhythm_feedback :: "report_texts \<Rightarrow> pydict \<Rightarrow> exn + string" where
  "rhythm_feedback texts d =
     and_then (getitem d ''mean_abs_offset_ms'') (\<lambda>offset_ms.
     and_then (getitem d ''onsets_within_tolerance'') (\<lambda>in_tolerance.
     and_then (getitem d ''reference_onset_count'') (\<lambda>total.
     and_then (tier_of d) (\<lambda>t.
     and_then (dict_get (rhythm_templates texts) t)
       (py_format [(''offset_ms'', offset_ms), (''within'', in_tolerance), (''total'', total)])))))"

text \<open>The three-way key of breath and dynamics.\<close>

definition partial_key :: "string \<Rightarrow> string" where
  "partial_key t =
     (if t = ''excellent'' then ''excellent'' else if t = ''poor'' then ''poor'' else ''partial'')"

definition breath_feedback :: "report_texts \<Rightarrow> pydict \<Rightarrow> exn + string" where
  "breath_feedback texts d =
     and_then (getitem d ''matched_pauses'') (\<lambda>matched.
     and_then (getitem d ''reference_pause_count'') (\<lambda>total.
       if py_float total = Inr 0 then dict_get (breath_templates texts) ''no_pauses''
       else and_then (tier_of d) (\<lambda>t.
         and_then (dict_get (breath_templates texts) (partial_key t))
           (py_format [(''matched'', matched), (''total'', total)]))))"

definition dynamics_feedback :: "report_texts \<Rightarrow> pydict \<Rightarrow> exn + string" where
  "dynamics_feedback texts d =
     and_then (getitem d ''correlation'') (\<lambda>correlation.
     and_then (tier_of d) (\<lambda>t.
     and_then (dict_get (dynamics_templates texts) (partial_key t))
       (py_format [(''correlation'', correlation)])))"

definition vibrato_outcome_key :: "pydict \<Rightarrow> pydict \<Rightarrow> exn + string" where
  "vibrato_outcome_key user reference =
     and_then (read_as py_float user ''rate_hz'') (\<lambda>user_rate.
     and_then (read_as py_float reference ''rate_hz'') (\<lambda>reference_rate.
     and_then (read_as py_float user ''depth_cents'') (\<lambda>user_depth.
     and_then (read_as py_float reference ''depth_cents'') (\<lambda>reference_depth.
       let rate_diff = user_rate - reference_rate;
           depth_diff = user_depth - reference_depth;
           rate = (if \<bar>rate_diff\<bar> > VIBRATO_RATE_TOLERANCE_HZ
                   then Some (if rate_diff > 0 then ''faster'' else ''slower'') else None);
           depth = (if \<bar>depth_diff\<bar> > VIBRATO_DEPTH_TOLERANCE_CENTS
                    then Some (if depth_diff > 0 then ''wider'' else ''narrower'') else None)
       in Inr (case (rate, depth) of
            (Some r, Some d) \<Rightarrow> ''differs_rate_'' @ r @ ''_depth_'' @ d
          | (Some r, None) \<Rightarrow> ''differs_rate_'' @ r
          | (None, Some d) \<Rightarrow> ''differs_depth_'' @ d
          | (None, None) \<Rightarrow> ''differs_character'')))))"

definition vibrato_feedback :: "report_texts \<Rightarrow> pydict \<Rightarrow> exn + string" where
  "vibrato_feedback texts d =
     and_then (read_as py_dict d ''user'') (\<lambda>user.
     and_then (read_as py_dict d ''reference'') (\<lambda>reference.
     and_then (getitem reference ''detected'') (\<lambda>reference_detected.
     and_then (getitem user ''detected'') (\<lambda>user_detected.
       if \<not> py_bool reference_detected
       then dict_get (vibrato_templates texts) (if py_bool user_detected then ''user_added'' else ''neither'')
       else if \<not> py_bool user_detected then dict_get (vibrato_templates texts) ''user_missing''
       else and_then (tier_of d) (\<lambda>t.
         if t = ''excellent'' \<or> t = ''good'' then dict_get (vibrato_templates texts) ''close_match''
         else and_then (vibrato_outcome_key user reference) (dict_get (vibrato_templates texts)))))))"

definition timbre_feedback :: "report_texts \<Rightarrow> pydict \<Rightarrow> exn + string" where
  "timbre_feedback texts d =
     and_then (tier_of d) (\<lambda>t.
     and_then (dict_get (timbre_templates texts)
                 (if t = ''excellent'' \<or> t = ''good'' then ''close'' else ''differs''))
       (py_format [(''disclaimer'', PStr (timbre_disclaimer texts))]))"

definition aspect_feedback :: "report_texts \<Rightarrow> string \<Rightarrow> pydict \<Rightarrow> exn + string" where
  "aspect_feedback texts aspect d =
     (if aspect = ''pitch'' then pitch_feedback texts d
      else if aspect = ''rhythm'' then rhythm_feedback texts d
      else if aspect = ''breath'' then breath_feedback texts d
      else if aspect = ''dynamics'' then dynamics_feedback texts d
      else if aspect = ''vibrato'' then vibrato_feedback texts d
      else if aspect = ''timbre'' then timbre_feedback texts d
      else Inl (Crash ''KeyError'' aspect))"

section \<open>The report\<close>

text \<open>\<open>str.lower\<close>, which the code applies to the English labels only.\<close>

definition to_lower :: "string \<Rightarrow> string" where
  "to_lower = map (\<lambda>c. let n = (of_char c :: nat) in if 65 \<le> n \<and> n \<le> 90 then char_of (n + 32) else c)"

text \<open>\<open>min(aspect_scores, key=aspect_scores.get)\<close>: the first aspect with the least score.\<close>

fun focus_of :: "(string \<times> real) list \<Rightarrow> exn + string \<times> real" where
  "focus_of [] = Inl (Crash ''ValueError'' ''min() arg is an empty sequence'')"
| "focus_of [(a, s)] = Inr (a, s)"
| "focus_of ((a, s) # p # ps) =
     and_then (focus_of (p # ps)) (\<lambda>(b, t). Inr (if t < s then (b, t) else (a, s)))"

definition overall_summary :: "report_texts \<Rightarrow> locale_tag \<Rightarrow> (string \<times> real) list \<Rightarrow> real \<Rightarrow> exn + string" where
  "overall_summary texts loc aspect_scores overall_score =
     and_then (focus_of aspect_scores) (\<lambda>(focus_aspect, focus_score).
     and_then (dict_get (aspect_labels texts) focus_aspect) (\<lambda>label.
       py_format
         [(''overall'', PFloat overall_score),
          (''focus'', PStr (if loc = En then to_lower label else label)),
          (''focus_score'', PFloat focus_score)]
         (overall_summary_template texts)))"

fun scores_of :: "(string \<times> stage_result) list \<Rightarrow> exn + (string \<times> real) list" where
  "scores_of [] = Inr []"
| "scores_of ((aspect, r) # rs) =
     and_then (read_as py_float (data r) ''score'') (\<lambda>score.
     and_then (scores_of rs) (\<lambda>scores. Inr ((aspect, score) # scores)))"

fun aspect_sections ::
  "report_texts \<Rightarrow> (string \<times> stage_result) list \<Rightarrow> (string \<times> real) list \<Rightarrow> string list \<Rightarrow> exn + string list" where
  "aspect_sections texts results scores [] = Inr []"
| "aspect_sections texts results scores (aspect # aspects) =
     and_then (dict_get results aspect) (\<lambda>r.
     and_then (dict_get (aspect_labels texts) aspect) (\<lambda>label.
     and_then (aspect_feedback texts aspect (data r)) (\<lambda>body.
     and_then (dict_get scores aspect) (\<lambda>score.
     and_then (aspect_sections texts results scores aspects) (\<lambda>sections.
       Inr ((label @ '' ('' @ show_fixed 0 score @ ''/100): '' @ body) # sections))))))"

fun unavailable_sections :: "report_texts \<Rightarrow> (string \<times> string) list \<Rightarrow> exn + string list" where
  "unavailable_sections texts [] = Inr []"
| "unavailable_sections texts ((aspect, reason) # rest) =
     and_then (dict_get (aspect_labels texts) aspect) (\<lambda>label.
     and_then (py_format
         [(''label'', PStr label),
          (''reason'', PStr (case map_of (unavailable_reason_text texts) reason of None \<Rightarrow> reason | Some t \<Rightarrow> t))]
         (unavailable_template texts)) (\<lambda>section.
     and_then (unavailable_sections texts rest) (\<lambda>sections. Inr (section # sections))))"

fun join :: "string \<Rightarrow> string list \<Rightarrow> string" where
  "join sep [] = []"
| "join sep [x] = x"
| "join sep (x # y # ys) = x @ sep @ join sep (y # ys)"

definition report_sections ::
  "(string \<times> stage_result) list \<Rightarrow> real \<Rightarrow> string list \<Rightarrow> (string \<times> string) list \<Rightarrow>
     bool \<Rightarrow> locale_tag \<Rightarrow> exn + string list" where
  "report_sections aspect_results overall_score aspects unavailable_aspects background_music_warning loc =
     (let texts = texts_of loc
      in and_then (scores_of aspect_results) (\<lambda>aspect_scores.
         and_then (overall_summary texts loc aspect_scores overall_score) (\<lambda>summary.
         and_then (aspect_sections texts aspect_results aspect_scores aspects) (\<lambda>sections.
         and_then (unavailable_sections texts unavailable_aspects) (\<lambda>unavailable.
           Inr ([summary]
             @ (if background_music_warning then [accompaniment_in_clean_warning texts] else [])
             @ sections @ unavailable))))))"

definition build_feedback_report ::
  "(string \<times> stage_result) list \<Rightarrow> real \<Rightarrow> string list \<Rightarrow> (string \<times> string) list \<Rightarrow>
     bool \<Rightarrow> locale_tag \<Rightarrow> exn + string" where
  "build_feedback_report aspect_results overall_score aspects unavailable_aspects background_music_warning loc =
     and_then (report_sections aspect_results overall_score aspects unavailable_aspects
         background_music_warning loc)
       (\<lambda>sections. Inr (join [CHR 0x0A, CHR 0x0A] sections))"

section \<open>The data of the scored stages\<close>

definition has_number :: "pydict \<Rightarrow> string \<Rightarrow> bool" where
  "has_number d k \<longleftrightarrow> (\<exists>x. map_of d k = Some (PFloat x))"

definition has_count :: "pydict \<Rightarrow> string \<Rightarrow> bool" where
  "has_count d k \<longleftrightarrow> (\<exists>n. map_of d k = Some (PInt n))"

definition has_profile :: "pydict \<Rightarrow> string \<Rightarrow> bool" where
  "has_profile d k \<longleftrightarrow> (\<exists>p. map_of d k = Some (profile_dict p) \<and>
     (detected p \<longleftrightarrow> rate_hz p \<noteq> None \<and> depth_cents p \<noteq> None))"

definition has_score :: "pydict \<Rightarrow> bool" where
  "has_score d \<longleftrightarrow> (\<exists>x. map_of d ''score'' = Some (PFloat x) \<and> 0 \<le> x \<and> x \<le> 100)"

fun more_data :: "string \<Rightarrow> pydict \<Rightarrow> bool" where
  "more_data aspect d =
     (if aspect = ''pitch'' then has_number d ''mean_abs_cents''
      else if aspect = ''rhythm'' then has_number d ''mean_abs_offset_ms'' \<and> has_count d ''onsets_within_tolerance''
        \<and> has_count d ''reference_onset_count''
      else if aspect = ''breath'' then has_count d ''matched_pauses'' \<and> has_count d ''reference_pause_count''
      else if aspect = ''dynamics'' then has_number d ''correlation''
      else if aspect = ''vibrato'' then has_profile d ''user'' \<and> has_profile d ''reference''
      else True)"

definition aspect_ok :: "string \<Rightarrow> pydict \<Rightarrow> bool" where
  "aspect_ok aspect d \<longleftrightarrow> has_score d \<and> more_data aspect d"

lemmas has_defs = has_number_def has_count_def has_profile_def has_score_def

lemma getitem_of_map: "getitem d k = (case map_of d k of None \<Rightarrow> Inl (Crash ''KeyError'' k) | Some v \<Rightarrow> Inr v)"
  by (simp add: getitem_def)

lemma tier_values: "tier x \<in> {''excellent'', ''good'', ''fair'', ''poor''}"
  by (simp add: tier_def)

lemma partial_key_values: "partial_key t \<in> {''excellent'', ''partial'', ''poor''}"
  by (simp add: partial_key_def)

lemma tier_of_total: "has_score d \<Longrightarrow> \<exists>x. tier_of d = Inr (tier x)"
  by (auto simp: has_defs tier_of_def read_as_def getitem_of_map)

lemma template_found:
  "has_templates d keys allowed \<Longrightarrow> k \<in> set keys \<Longrightarrow>
     \<exists>t. dict_get d k = Inr t \<and> set (placeholders t) \<subseteq> set allowed"
  by (auto simp: has_templates_def list_all_iff dict_get_def split: option.splits)

lemma key_found: "has_keys d keys \<Longrightarrow> k \<in> set keys \<Longrightarrow> \<exists>t. dict_get d k = Inr t"
  by (auto simp: has_keys_def list_all_iff dict_get_def)

lemma template_formats:
  assumes "has_templates d keys allowed" and "k \<in> set keys"
    and "\<And>f. f \<in> set allowed \<Longrightarrow> \<exists>s. format_field args f = Inr s"
  shows "\<exists>s. and_then (dict_get d k) (py_format args) = Inr s"
  using template_found [OF assms(1,2)] py_format_total assms(3) by force

lemmas format_simps = format_field_def format_value_def dict_get_def

lemma pitch_feedback_total:
  assumes "texts_ok T" and "has_score d" and "more_data ''pitch'' d"
  shows "\<exists>s. pitch_feedback T d = Inr s"
proof -
  obtain x c where t: "tier_of d = Inr (tier x)" and c: "map_of d ''mean_abs_cents'' = Some (PFloat c)"
    using tier_of_total [OF assms(2)] assms(3) by (auto simp: has_defs)
  have "\<exists>s. and_then (dict_get (pitch_templates T) (tier x)) (py_format [(''cents'', PFloat c)]) = Inr s"
    by (rule template_formats [where keys = "[''excellent'', ''good'', ''fair'', ''poor'']" and allowed = "[''cents:.0f'']"])
      (use assms(1) tier_values [of x] in \<open>auto simp: texts_ok_def format_simps\<close>)
  then show ?thesis using t c by (simp add: pitch_feedback_def getitem_of_map)
qed

lemma rhythm_feedback_total:
  assumes "texts_ok T" and "has_score d" and "more_data ''rhythm'' d"
  shows "\<exists>s. rhythm_feedback T d = Inr s"
proof -
  obtain x c n m where t: "tier_of d = Inr (tier x)" and c: "map_of d ''mean_abs_offset_ms'' = Some (PFloat c)"
    "map_of d ''onsets_within_tolerance'' = Some (PInt n)" "map_of d ''reference_onset_count'' = Some (PInt m)"
    using tier_of_total [OF assms(2)] assms(3) by (auto simp: has_defs)
  have "\<exists>s. and_then (dict_get (rhythm_templates T) (tier x))
      (py_format [(''offset_ms'', PFloat c), (''within'', PInt n), (''total'', PInt m)]) = Inr s"
    by (rule template_formats [where keys = "[''excellent'', ''good'', ''fair'', ''poor'']"
          and allowed = "[''offset_ms:.0f'', ''within'', ''total'']"])
      (use assms(1) tier_values [of x] in \<open>auto simp: texts_ok_def format_simps\<close>)
  then show ?thesis using t c by (simp add: rhythm_feedback_def getitem_of_map)
qed

lemma breath_feedback_total:
  assumes "texts_ok T" and "has_score d" and "more_data ''breath'' d"
  shows "\<exists>s. breath_feedback T d = Inr s"
proof -
  obtain x n m where t: "tier_of d = Inr (tier x)" and c: "map_of d ''matched_pauses'' = Some (PInt n)"
    "map_of d ''reference_pause_count'' = Some (PInt m)"
    using tier_of_total [OF assms(2)] assms(3) by (auto simp: has_defs)
  have "\<exists>s. and_then (dict_get (breath_templates T) (partial_key (tier x)))
      (py_format [(''matched'', PInt n), (''total'', PInt m)]) = Inr s"
    by (rule template_formats [where keys = "[''excellent'', ''partial'', ''poor'']" and allowed = "[''matched'', ''total'']"])
      (use assms(1) partial_key_values [of "tier x"] in \<open>auto simp: texts_ok_def format_simps\<close>)
  moreover have "\<exists>s. dict_get (breath_templates T) ''no_pauses'' = Inr s"
    by (rule key_found [where keys = "[''no_pauses'']"]) (use assms(1) in \<open>auto simp: texts_ok_def\<close>)
  ultimately show ?thesis using t c by (simp add: breath_feedback_def getitem_of_map)
qed

lemma dynamics_feedback_total:
  assumes "texts_ok T" and "has_score d" and "more_data ''dynamics'' d"
  shows "\<exists>s. dynamics_feedback T d = Inr s"
proof -
  obtain x c where t: "tier_of d = Inr (tier x)" and c: "map_of d ''correlation'' = Some (PFloat c)"
    using tier_of_total [OF assms(2)] assms(3) by (auto simp: has_defs)
  have "\<exists>s. and_then (dict_get (dynamics_templates T) (partial_key (tier x))) (py_format [(''correlation'', PFloat c)]) = Inr s"
    by (rule template_formats [where keys = "[''excellent'', ''partial'', ''poor'']" and allowed = "[''correlation:.2f'']"])
      (use assms(1) partial_key_values [of "tier x"] in \<open>auto simp: texts_ok_def format_simps\<close>)
  then show ?thesis using t c by (simp add: dynamics_feedback_def getitem_of_map)
qed

lemma outcome_key_found:
  "detected p \<Longrightarrow> detected q \<Longrightarrow> rate_hz p \<noteq> None \<and> depth_cents p \<noteq> None \<Longrightarrow> rate_hz q \<noteq> None \<and> depth_cents q \<noteq> None \<Longrightarrow>
     profile_dict p = PDict dp \<Longrightarrow> profile_dict q = PDict dq \<Longrightarrow>
     \<exists>k. vibrato_outcome_key dp dq = Inr k \<and> k \<in> set vibrato_keys"
  by (auto simp: profile_dict_def vibrato_outcome_key_def read_as_def json_float_def Let_def vibrato_keys_def)

lemma vibrato_feedback_total:
  assumes "texts_ok T" and "has_score d" and "more_data ''vibrato'' d"
  shows "\<exists>s. vibrato_feedback T d = Inr s"
proof -
  obtain x where t: "tier_of d = Inr (tier x)" using tier_of_total [OF assms(2)] by blast
  obtain p q where p: "map_of d ''user'' = Some (profile_dict p)" "map_of d ''reference'' = Some (profile_dict q)"
    and pq: "detected p \<longleftrightarrow> rate_hz p \<noteq> None \<and> depth_cents p \<noteq> None"
      "detected q \<longleftrightarrow> rate_hz q \<noteq> None \<and> depth_cents q \<noteq> None"
    using assms(3) by (auto simp: has_defs)
  obtain dp dq where dpq: "profile_dict p = PDict dp" "profile_dict q = PDict dq" by (simp add: profile_dict_def)
  then have det: "getitem dp ''detected'' = Inr (PBool (detected p))" "getitem dq ''detected'' = Inr (PBool (detected q))"
    by (auto simp: profile_dict_def)
  have keys: "\<exists>s. dict_get (vibrato_templates T) k = Inr s" if "k \<in> set vibrato_keys" for k
    using key_found that assms(1) by (auto simp: texts_ok_def)
  have fixed: "\<exists>s. dict_get (vibrato_templates T) k = Inr s"
    if "k = ''user_added'' \<or> k = ''neither'' \<or> k = ''user_missing'' \<or> k = ''close_match''" for k
    by (rule keys) (use that in \<open>auto simp: vibrato_keys_def\<close>)
  show ?thesis
  proof (cases "detected p \<and> detected q")
    case True
    then obtain k where "vibrato_outcome_key dp dq = Inr k" "k \<in> set vibrato_keys"
      using outcome_key_found pq dpq by blast
    then show ?thesis using True t p dpq det fixed keys
      by (auto simp: vibrato_feedback_def read_as_def getitem_of_map)
  next
    case False
    then show ?thesis using t p dpq det fixed by (auto simp: vibrato_feedback_def read_as_def getitem_of_map)
  qed
qed

lemma timbre_feedback_total:
  assumes "texts_ok T" and "has_score d"
  shows "\<exists>s. timbre_feedback T d = Inr s"
proof -
  obtain x where t: "tier_of d = Inr (tier x)" using tier_of_total [OF assms(2)] by blast
  have "\<exists>s. and_then (dict_get (timbre_templates T) k) (py_format [(''disclaimer'', PStr (timbre_disclaimer T))]) = Inr s"
    if "k \<in> set [''close'', ''differs'']" for k
    by (rule template_formats [OF _ that, where allowed = "[''disclaimer'']"])
      (use assms(1) in \<open>auto simp: texts_ok_def format_simps\<close>)
  then show ?thesis using t by (simp add: timbre_feedback_def)
qed

lemma aspect_feedback_total:
  assumes "texts_ok T" and "aspect_ok a d" and "a \<in> set ASPECTS"
  shows "\<exists>s. aspect_feedback T a d = Inr s"
  using assms(3) pitch_feedback_total [OF assms(1)] rhythm_feedback_total [OF assms(1)] breath_feedback_total [OF assms(1)]
    dynamics_feedback_total [OF assms(1)] vibrato_feedback_total [OF assms(1)] timbre_feedback_total [OF assms(1)] assms(2)
  unfolding aspect_ok_def aspect_feedback_def ASPECTS_def
  by (elim conjE) (simp del: more_data.simps, elim disjE; simp del: more_data.simps)

section \<open>The report is always built\<close>

lemma focus_of_min: "ps \<noteq> [] \<Longrightarrow> \<exists>a s. focus_of ps = Inr (a, s) \<and> (a, s) \<in> set ps \<and> (\<forall>(b, t) \<in> set ps. s \<le> t)"
proof (induction ps rule: focus_of.induct)
  case (3 a s p ps)
  then obtain b t where "focus_of (p # ps) = Inr (b, t)" "(b, t) \<in> set (p # ps)" "\<forall>(b', t') \<in> set (p # ps). t \<le> t'"
    by auto
  then show ?case by (auto simp: not_less)
qed simp_all

lemma scores_of_map:
  "(\<And>a r. (a, r) \<in> set rs \<Longrightarrow> has_score (data r)) \<Longrightarrow> \<exists>ss. scores_of rs = Inr ss \<and> map fst ss = map fst rs"
proof (induction rs)
  case (Cons p rs)
  obtain a r where p: "p = (a, r)" by (cases p)
  then obtain x where "map_of (data r) ''score'' = Some (PFloat x)" using Cons.prems [of a r] by (auto simp: has_defs)
  moreover obtain ss where "scores_of rs = Inr ss" "map fst ss = map fst rs"
    using Cons.IH Cons.prems by (metis list.set_intros(2))
  ultimately show ?case by (simp add: p read_as_def getitem_of_map)
qed simp

lemma dict_get_dom: "k \<in> fst ` set d \<Longrightarrow> \<exists>v. dict_get d k = Inr v \<and> (k, v) \<in> set d"
  by (auto simp: dict_get_def split: option.splits dest: map_of_SomeD simp: map_of_eq_None_iff)

lemma format_allowed:
  "list_all (\<lambda>f. f \<in> set allowed) (placeholders t) \<Longrightarrow> (\<And>f. f \<in> set allowed \<Longrightarrow> \<exists>s. format_field args f = Inr s) \<Longrightarrow>
     \<exists>s. py_format args t = Inr s"
  by (rule py_format_total) (auto simp: list_all_iff)

lemma label_found: "texts_ok T \<Longrightarrow> a \<in> set ASPECTS \<Longrightarrow> \<exists>l. dict_get (aspect_labels T) a = Inr l"
  unfolding texts_ok_def by (elim conjE) (rule key_found)

lemma overall_summary_total:
  assumes "texts_ok T" and "ps \<noteq> []" and "fst ` set ps \<subseteq> set ASPECTS"
  shows "\<exists>s. overall_summary T loc ps overall_score = Inr s"
proof -
  obtain a x where f: "focus_of ps = Inr (a, x)" "(a, x) \<in> set ps" using focus_of_min [OF assms(2)] by blast
  then have "a \<in> set ASPECTS" using assms(3) by force
  then obtain l where l: "dict_get (aspect_labels T) a = Inr l"
    using label_found [OF assms(1)] by blast
  have "\<exists>s. py_format [(''overall'', PFloat overall_score), (''focus'', PStr (if loc = En then to_lower l else l)),
      (''focus_score'', PFloat x)] (overall_summary_template T) = Inr s"
    by (rule format_allowed [where allowed = "[''overall:.0f'', ''focus'', ''focus_score:.0f'']"])
      (use assms(1) in \<open>auto simp: texts_ok_def format_simps\<close>)
  then show ?thesis using f l by (simp add: overall_summary_def)
qed

lemma aspect_sections_total:
  assumes "texts_ok T"
  shows "set aspects \<subseteq> set ASPECTS \<Longrightarrow> set aspects \<subseteq> fst ` set rs \<Longrightarrow> set aspects \<subseteq> fst ` set scores \<Longrightarrow>
    (\<And>a r. (a, r) \<in> set rs \<Longrightarrow> aspect_ok a (data r)) \<Longrightarrow>
    \<exists>ss. aspect_sections T rs scores aspects = Inr ss \<and> length ss = length aspects"
proof (induction aspects)
  case (Cons a aspects)
  obtain r where r: "dict_get rs a = Inr r" "(a, r) \<in> set rs" using Cons.prems(2) dict_get_dom by force
  obtain x where x: "dict_get scores a = Inr x" using Cons.prems(3) dict_get_dom by force
  obtain l where l: "dict_get (aspect_labels T) a = Inr l"
    using label_found [OF assms] Cons.prems(1) by force
  obtain b where b: "aspect_feedback T a (data r) = Inr b"
    using aspect_feedback_total [OF assms Cons.prems(4) [OF r(2)]] Cons.prems(1) by auto
  obtain ss where "aspect_sections T rs scores aspects = Inr ss" "length ss = length aspects"
    using Cons.IH Cons.prems by auto
  then show ?case using r(1) x l b by simp
qed simp

lemma unavailable_sections_total:
  assumes "texts_ok T"
  shows "fst ` set us \<subseteq> set ASPECTS \<Longrightarrow> \<exists>ss. unavailable_sections T us = Inr ss \<and> length ss = length us"
proof (induction us)
  case (Cons p us)
  obtain a reason where p: "p = (a, reason)" by (cases p)
  obtain l where l: "dict_get (aspect_labels T) a = Inr l"
    using label_found [OF assms] Cons.prems p by force
  have "\<exists>s. py_format [(''label'', PStr l), (''reason'', PStr t)] (unavailable_template T) = Inr s" for t
    by (rule format_allowed [where allowed = "[''label'', ''reason'']"])
      (use assms in \<open>auto simp: texts_ok_def format_simps\<close>)
  then obtain s where "py_format [(''label'', PStr l),
      (''reason'', PStr (case map_of (unavailable_reason_text T) reason of None \<Rightarrow> reason | Some t \<Rightarrow> t))]
      (unavailable_template T) = Inr s"
    by blast
  then show ?case using Cons l p by auto
qed simp

lemma report_sections_total:
  assumes "aspects \<noteq> []" and "set aspects \<subseteq> set ASPECTS"
    and "map fst rs = aspects" and "\<And>a r. (a, r) \<in> set rs \<Longrightarrow> aspect_ok a (data r)"
    and "fst ` set unavailable \<subseteq> set ASPECTS"
  shows "\<exists>ss. report_sections rs overall_score aspects unavailable warning loc = Inr ss \<and>
    length ss = 1 + (if warning then 1 else 0) + length aspects + length unavailable"
proof -
  note T = texts_of_ok [of loc]
  have "has_score (data r)" if "(a, r) \<in> set rs" for a r using assms(4) [OF that] by (simp add: aspect_ok_def)
  then obtain ss where ss: "scores_of rs = Inr ss" "map fst ss = map fst rs" using scores_of_map [of rs] by blast
  then have keys: "fst ` set ss = set aspects" "fst ` set rs = set aspects" using assms(3) by (metis set_map)+
  then have "ss \<noteq> []" using assms(1) by auto
  moreover have "fst ` set ss \<subseteq> set ASPECTS" using keys assms(2) by simp
  ultimately obtain summary where "overall_summary (texts_of loc) loc ss overall_score = Inr summary"
    using overall_summary_total [OF T, of ss loc overall_score] by (elim meta_impE exE) simp_all
  moreover have in_rs: "set aspects \<subseteq> fst ` set rs" and in_ss: "set aspects \<subseteq> fst ` set ss" using keys by simp_all
  obtain bodies where "aspect_sections (texts_of loc) rs ss aspects = Inr bodies" "length bodies = length aspects"
    using aspect_sections_total [OF T assms(2) in_rs in_ss assms(4)] by auto
  moreover obtain us where "unavailable_sections (texts_of loc) unavailable = Inr us" "length us = length unavailable"
    using unavailable_sections_total [OF T assms(5)] by blast
  ultimately show ?thesis using ss(1) by (simp add: report_sections_def Let_def)
qed

text \<open>A field that a template holds is printed in the text.\<close>

lemma py_format_contains:
  "py_format args t = Inr s \<Longrightarrow> f \<in> set (placeholders t) \<Longrightarrow> format_field args f = Inr v \<Longrightarrow>
     \<exists>before after. s = before @ v @ after"
proof (induction t arbitrary: s rule: placeholders.induct)
  case (2 c cs)
  show ?case
  proof (cases "c = CHR ''{''")
    case True
    let ?f = "takeWhile (\<lambda>c. c \<noteq> CHR ''}'') cs"
    from 2(3) True obtain x t where x: "format_field args ?f = Inr x"
      and t: "py_format args (drop (Suc (length ?f)) cs) = Inr t" and s: "s = x @ t"
      by (auto simp: Let_def and_then_eq_Inr)
    show ?thesis
    proof (cases "f = ?f")
      case True
      then have "s = [] @ v @ t" using x s 2(5) by simp
      then show ?thesis by blast
    next
      case False
      then have "f \<in> set (placeholders (drop (Suc (length ?f)) cs))" using 2(4) True by (simp add: Let_def)
      from 2(1) [OF True refl t this 2(5)] s show ?thesis by (metis append.assoc)
    qed
  next
    case False
    then obtain t where t: "py_format args cs = Inr t" and s: "s = c # t"
      using 2(3) by (auto simp: and_then_eq_Inr)
    have "f \<in> set (placeholders cs)" using 2(4) False by simp
    from 2(2) [OF False t this 2(5)] s show ?thesis by (metis append_Cons)
  qed
qed simp

text \<open>In either language the timbre paragraph holds the disclaimer, whatever the score.\<close>

lemma timbre_disclaimer_kept:
  assumes "timbre_feedback (texts_of loc) d = Inr out"
  shows "\<exists>before after. out = before @ timbre_disclaimer (texts_of loc) @ after"
proof -
  from assms obtain t where t: "tier_of d = Inr t"
    by (cases "tier_of d") (simp_all add: timbre_feedback_def)
  define k where "k = (if t = ''excellent'' \<or> t = ''good'' then ''close'' else ''differs'')"
  have "k = ''close'' \<or> k = ''differs''" by (simp add: k_def)
  then obtain template where template: "dict_get (timbre_templates (texts_of loc)) k = Inr template"
    and field: "''disclaimer'' \<in> set (placeholders template)"
    using timbre_fields by blast
  have p: "py_format [(''disclaimer'', PStr (timbre_disclaimer (texts_of loc)))] template = Inr out"
    using assms by (simp add: timbre_feedback_def t k_def [symmetric] template)
  from py_format_contains [OF p field] show ?thesis by (simp add: format_simps)
qed

lemma join_contains: "x \<in> set xs \<Longrightarrow> \<exists>before after. join sep xs = before @ x @ after"
proof (induction sep xs rule: join.induct)
  case (2 sep y)
  then have "join sep [y] = [] @ x @ []" by simp
  then show ?case by blast
next
  case (3 sep y z zs)
  show ?case
  proof (cases "x = y")
    case True
    then have "join sep (y # z # zs) = [] @ x @ sep @ join sep (z # zs)" by simp
    then show ?thesis by blast
  next
    case False
    then obtain before after where "join sep (z # zs) = before @ x @ after" using 3 by auto
    then have "join sep (y # z # zs) = (y @ sep @ before) @ x @ after" by simp
    then show ?thesis by blast
  qed
qed simp

lemma aspect_section_of:
  "aspect_sections T rs scores aspects = Inr ss \<Longrightarrow> a \<in> set aspects \<Longrightarrow>
    \<exists>r body before. aspect_feedback T a (data (r :: stage_result)) = Inr body \<and> before @ body \<in> set ss"
proof (induction aspects arbitrary: ss)
  case (Cons b aspects)
  from Cons.prems(1) obtain r label body score sections where s: "aspect_feedback T b (data (r :: stage_result)) = Inr body"
    "aspect_sections T rs scores aspects = Inr sections"
    "ss = (label @ '' ('' @ show_fixed 0 score @ ''/100): '' @ body) # sections"
    by (simp only: aspect_sections.simps and_then_eq_Inr sum.inject) metis
  show ?case
  proof (cases "a = b")
    case True
    have "(label @ '' ('' @ show_fixed 0 score @ ''/100): '') @ body \<in> set ss" by (simp add: s(3))
    then show ?thesis using s(1) True by blast
  next
    case False
    then show ?thesis using Cons.IH [OF s(2)] Cons.prems(2) s(3) by auto
  qed
qed simp

lemma report_has_disclaimer:
  assumes "report_sections rs overall_score aspects unavailable warning loc = Inr ss" and "''timbre'' \<in> set aspects"
  shows "\<exists>before after. join sep ss = before @ timbre_disclaimer (texts_of loc) @ after"
proof -
  obtain scores sections where sections: "aspect_sections (texts_of loc) rs scores aspects = Inr sections" "set sections \<subseteq> set ss"
    using assms(1) unfolding report_sections_def Let_def and_then_eq_Inr by (elim exE conjE) (rule that, assumption, auto)
  obtain r :: stage_result and body before where body: "aspect_feedback (texts_of loc) ''timbre'' (data r) = Inr body" "before @ body \<in> set sections"
    using aspect_section_of [OF sections(1) assms(2)] by blast
  obtain b a where "body = b @ timbre_disclaimer (texts_of loc) @ a"
    using timbre_disclaimer_kept [of loc "data r" body] body(1) by (auto simp: aspect_feedback_def)
  then show ?thesis using join_contains [of "before @ body" ss sep] body(2) sections(2)
    by (metis append.assoc subsetD)
qed

section \<open>The stages store data of that shape\<close>

lemma pitch_data_ok: "aspect_ok ''pitch'' (pitch_data user_hz reference_hz deviations_cents)"
  using score_percent [OF mean_abs_nonneg]
  by (auto simp: aspect_ok_def has_defs pitch_data_def Let_def)

lemma pitch_run_data:
  "pitch_run np_interp ms c = Inr r \<Longrightarrow> \<exists>us rs ds. r = stage_done ''pitch'' ms (pitch_data us rs ds)"
  by (auto simp: pitch_run_def and_then_eq_Inr)

lemma rhythm_run_ok: "rhythm_run np_interp load ms c = Inr r \<Longrightarrow> aspect_ok ''rhythm'' (data r)"
  using rhythm_score by (auto simp: aspect_ok_def has_defs rhythm_run_def and_then_eq_Inr Let_def rhythm_data_def)

lemma dynamics_run_ok:
  "(\<And>a b. corrcoef a b \<le> 1) \<Longrightarrow> dynamics_run np_interp std corrcoef load ms c = Inr r \<Longrightarrow> aspect_ok ''dynamics'' (data r)"
  using percent_of_max correlation_le_1 by (auto simp: aspect_ok_def has_defs dynamics_run_def and_then_eq_Inr Let_def)

lemma timbre_run_ok: "timbre_run np_interp load ms c = Inr r \<Longrightarrow> aspect_ok ''timbre'' (data r)"
  using percent_of_max timbre_mean_le_1
  by (auto simp: aspect_ok_def has_defs timbre_run_def and_then_eq_Inr Let_def)

lemma breath_run_ok:
  assumes "breath_run np_interp load ms c = Inr r"
  shows "aspect_ok ''breath'' (data r)"
proof -
  have "has_count (data r) ''matched_pauses'' \<and> has_count (data r) ''reference_pause_count''"
    using assms by (auto simp: has_defs breath_run_def and_then_eq_Inr Let_def case_prod_unfold)
  then show ?thesis using breath_run_score [OF assms] by (auto simp: aspect_ok_def has_score_def)
qed

lemma vibrato_run_ok: "vibrato_run lib ms c = Inr r \<Longrightarrow> aspect_ok ''vibrato'' (data r)"
  using vibrato_score_percent profile_shape
  by (fastforce simp: aspect_ok_def has_defs vibrato_run_def and_then_eq_Inr)

section \<open>Properties\<close>

text \<open>
  C35: From data of the shape the stages store, the report is always built, in either language: a summary,
  the warning if there is one, and one paragraph for each scored and each unavailable aspect. Its
  template lookups and its formatting cannot fail. If timbre is scored, the report holds the disclaimer that this
  is no diagnosis of the singer's technique.
\<close>

theorem report_built:
  assumes "aspects \<noteq> []" and "set aspects \<subseteq> set ASPECTS"
    and "map fst aspect_results = aspects" and "\<And>a r. (a, r) \<in> set aspect_results \<Longrightarrow> aspect_ok a (data r)"
    and "fst ` set unavailable \<subseteq> set ASPECTS"
  shows "\<exists>sections. build_feedback_report aspect_results overall_score aspects unavailable warning loc =
      Inr (join [CHR 0x0A, CHR 0x0A] sections) \<and>
    length sections = 1 + (if warning then 1 else 0) + length aspects + length unavailable \<and>
    (''timbre'' \<in> set aspects \<longrightarrow>
      (\<exists>before after. join [CHR 0x0A, CHR 0x0A] sections = before @ timbre_disclaimer (texts_of loc) @ after))"
  using report_sections_total [OF assms, of overall_score warning loc] report_has_disclaimer
  by (fastforce simp: build_feedback_report_def)

theorem report_built_witness:
  "\<exists>sections. build_feedback_report [(''pitch'', stage_done ''pitch'' 0 (pitch_data [] [] []))] 0 [''pitch''] []
      False En = Inr (join [CHR 0x0A, CHR 0x0A] sections) \<and> length sections = 2"
  using report_built [of "[''pitch'']" "[(''pitch'', stage_done ''pitch'' 0 (pitch_data [] [] []))]" "[]" 0 False En]
    pitch_data_ok [of "[]" "[]" "[]"] by (simp add: ASPECTS_def numeral_2_eq_2)

end
