(* ===== verification/Aggregate.thy ===== *)
theory Aggregate
  imports Report Align Handler
begin

text \<open>
  The stage \<open>aggregate.py\<close>: the overall score, the confidence and the report of an analysis from the
  results of its stages. The lemmas compose the stages: what they store is what this one reads, and
  what this one stores is what the job handler writes to the database.
\<close>

type_synonym scoring_weights = "(string \<times> real) list"

fun results_of :: "analysis_context \<Rightarrow> string list \<Rightarrow> exn + (string \<times> stage_result) list" where
  "results_of c [] = Inr []"
| "results_of c (aspect # aspects) =
     and_then (analysis_result c aspect) (\<lambda>r.
     and_then (results_of c aspects) (\<lambda>rs. Inr ((aspect, r) # rs)))"

text \<open>\<open>d[k] = v\<close> on a dict that keeps the order of its keys.\<close>

fun set_item :: "string \<Rightarrow> 'a \<Rightarrow> (string \<times> 'a) list \<Rightarrow> (string \<times> 'a) list" where
  "set_item k v [] = [(k, v)]"
| "set_item k v ((k', v') # d) = (if k = k' then (k, v) # d else (k', v') # set_item k v d)"

definition adjust_pitch :: "pydict \<Rightarrow> (string \<times> real) list \<Rightarrow> exn + (string \<times> real) list" where
  "adjust_pitch key_normalization aspect_scores =
     and_then (getitem key_normalization ''applied'') (\<lambda>applied.
       if \<not> py_bool applied then Inr aspect_scores
       else and_then (getitem key_normalization ''adjusted_score'') (\<lambda>adjusted.
         if adjusted = PNone then Inr aspect_scores
         else and_then (py_float adjusted) (\<lambda>score. Inr (set_item ''pitch'' score aspect_scores))))"

definition accompaniment_in_clean_of :: "mode \<Rightarrow> pydict \<Rightarrow> exn + bool" where
  "accompaniment_in_clean_of m recording_condition =
     (if m = Clean then and_then (getitem recording_condition ''accompaniment_detected'') (\<lambda>v. Inr (py_bool v))
      else Inr False)"

definition signals_of :: "mode \<Rightarrow> bool \<Rightarrow> pydict \<Rightarrow> pydict \<Rightarrow> pydict \<Rightarrow> exn + confidence_signals" where
  "signals_of m accompaniment pitch_result align_result key_normalization =
     and_then (read_as py_float align_result ''normalized_distance'') (\<lambda>align_cost.
     and_then (read_as py_float pitch_result ''voiced_fraction'') (\<lambda>voiced_ratio.
     and_then (getitem key_normalization ''out_of_range'') (\<lambda>out_of_range.
     and_then (getitem align_result ''length_mismatch'') (\<lambda>mismatch.
     and_then (read_as py_float align_result ''reference_start_offset_seconds'') (\<lambda>start_offset.
       Inr \<lparr>cs_mode = m, cs_accompaniment_in_clean = accompaniment, cs_voiced_ratio = voiced_ratio,
            cs_alignment_cost = align_cost, cs_key_shift_out_of_range = py_bool out_of_range,
            cs_length_mismatch = py_bool mismatch, cs_reference_start_offset_detected = (start_offset > 0)\<rparr>)))))"

definition aggregate_data ::
  "string \<Rightarrow> mode \<Rightarrow> real \<Rightarrow> string \<Rightarrow> (string \<times> real) list \<Rightarrow> (string \<times> string) list \<Rightarrow> pyval \<Rightarrow>
     confidence_result \<Rightarrow> pyval list \<Rightarrow> pyval \<Rightarrow> pyval \<Rightarrow> pyval \<Rightarrow> real \<Rightarrow> pydict" where
  "aggregate_data scoring_version m overall_score feedback aspect_scores unavailable effective_mode confidence
       warnings key_shift accompaniment_level voiced_ratio align_cost =
     [(''overall_score'', PFloat overall_score),
      (''feedback_text'', PStr feedback),
      (''scoring_version'', PStr scoring_version),
      (''weights_profile'', PStr (PROFILE_NAME_BY_MODE m)),
      (''aspect_scores'', PDict (map (\<lambda>(a, x). (a, PFloat x)) aspect_scores)),
      (''unavailable_aspects'', PDict (map (\<lambda>(a, x). (a, PStr x)) unavailable)),
      (''effective_mode'', effective_mode),
      (''confidence'', PStr (level_name (cr_overall confidence))),
      (''aspect_confidence'', PDict (map (\<lambda>(a, l). (a, PStr (level_name l))) (cr_aspect_confidence confidence))),
      (''warnings'', PList (warnings @ map PStr (cr_warnings confidence))),
      (''key_shift_semitones'', key_shift),
      (''accompaniment_level'', accompaniment_level),
      (''voiced_ratio'', voiced_ratio),
      (''alignment_cost'', PFloat align_cost)]"

definition aggregate_run ::
  "(mode \<Rightarrow> scoring_weights) \<Rightarrow> string \<Rightarrow> int \<Rightarrow> analysis_context \<Rightarrow> exn + stage_result" where
  "aggregate_run weights_by_mode scoring_version ms c =
     (let m = context_mode c; aspects = MODE_ASPECTS m
      in and_then (results_of c aspects) (\<lambda>aspect_results.
         and_then (scores_of aspect_results) (\<lambda>raw_scores.
         and_then (stage_data c ''key_normalization'') (\<lambda>key_normalization.
         and_then (adjust_pitch key_normalization raw_scores) (\<lambda>aspect_scores.
         and_then (weighted_overall_score (map_of aspect_scores) (map_of (weights_by_mode m)) m) (\<lambda>overall_score.
         and_then (stage_data c ''recording_condition'') (\<lambda>recording_condition.
         and_then (accompaniment_in_clean_of m recording_condition) (\<lambda>accompaniment.
         and_then (stage_data c ''pitch'') (\<lambda>pitch_result.
         and_then (stage_data c ''align'') (\<lambda>align_result.
         and_then (signals_of m accompaniment pitch_result align_result key_normalization) (\<lambda>signals.
         and_then (read_as py_list recording_condition ''warnings'') (\<lambda>warnings.
         and_then (unavailable_aspects_for m) (\<lambda>unavailable.
         and_then (build_feedback_report aspect_results overall_score aspects unavailable accompaniment
             (context_locale c)) (\<lambda>feedback.
         and_then (getitem recording_condition ''effective_mode'') (\<lambda>effective_mode.
         and_then (getitem key_normalization ''key_shift_semitones'') (\<lambda>key_shift.
         and_then (getitem recording_condition ''accompaniment_level'') (\<lambda>accompaniment_level.
         and_then (getitem pitch_result ''voiced_fraction'') (\<lambda>voiced_ratio.
           Inr (stage_done ''aggregate'' ms
             (aggregate_data scoring_version m overall_score feedback aspect_scores unavailable effective_mode
               (compute_confidence signals) warnings key_shift accompaniment_level voiced_ratio
               (cs_alignment_cost signals)))))))))))))))))))))"

section \<open>What the stage needs of the results\<close>

text \<open>Every stage that scores, or that this one reads, has stored data of its own shape.\<close>

definition stages_scored :: "analysis_context \<Rightarrow> bool" where
  "stages_scored c \<longleftrightarrow>
     (\<forall>a \<in> set (MODE_ASPECTS (context_mode c)). \<exists>d. stage_data c a = Inr d \<and> aspect_ok a d) \<and>
     (\<exists>us rs ds. stage_data c ''pitch'' = Inr (pitch_data us rs ds)) \<and>
     (\<exists>us k a. stage_data c ''align'' = Inr (align_data us k a)) \<and>
     (\<exists>np_median np_percentile cfg ms eligible cs. stage_data c ''key_normalization'' =
        Inr (data (key_of_cents np_median np_percentile cfg ms eligible cs))) \<and>
     (\<exists>threshold level. stage_data c ''recording_condition'' =
        Inr (recording_condition_data threshold level (context_mode c)))"

text \<open>A weight profile as the configuration check admits it, with non-negative weights.\<close>

definition weights_ok :: "mode \<Rightarrow> scoring_weights \<Rightarrow> bool" where
  "weights_ok m w \<longleftrightarrow>
     set (MODE_ASPECTS m) \<subseteq> dom (map_of w) \<and>
     (\<forall>a \<in> set (MODE_ASPECTS m). 0 \<le> the (map_of w a)) \<and>
     \<bar>(\<Sum>a \<leftarrow> MODE_ASPECTS m. the (map_of w a)) - 1\<bar> \<le> 1 / 1000000"

lemma results_of_total:
  "(\<And>a. a \<in> set aspects \<Longrightarrow> \<exists>d. stage_data c a = Inr d \<and> aspect_ok a d) \<Longrightarrow>
     \<exists>rs. results_of c aspects = Inr rs \<and> map fst rs = aspects \<and>
       (\<forall>(a, r) \<in> set rs. aspect_ok a (data r) \<and> analysis_result c a = Inr r)"
proof (induction aspects)
  case (Cons a aspects)
  obtain r where "analysis_result c a = Inr r" "aspect_ok a (data r)"
    using Cons.prems [of a] by (auto simp: stage_data_def and_then_eq_Inr)
  moreover have "\<exists>rs. results_of c aspects = Inr rs \<and> map fst rs = aspects \<and>
      (\<forall>(a, r) \<in> set rs. aspect_ok a (data r) \<and> analysis_result c a = Inr r)"
    by (rule Cons.IH) (rule Cons.prems, simp)
  ultimately show ?case by auto
qed simp

lemma scores_of_percent:
  assumes "scores_of rs = Inr ss" and "\<And>a r. (a, r) \<in> set rs \<Longrightarrow> has_score (data r)"
  shows "(a, x) \<in> set ss \<Longrightarrow> 0 \<le> x \<and> x \<le> 100"
  using assms
proof (induction rs arbitrary: ss)
  case (Cons p rs)
  obtain b r where p: "p = (b, r)" by (cases p)
  with Cons.prems obtain y where y: "map_of (data r) ''score'' = Some (PFloat y)" "0 \<le> y" "y \<le> 100"
    using Cons.prems(3) [of b r] by (auto simp: has_score_def)
  from Cons.prems(2) p y obtain ss' where "scores_of rs = Inr ss'" "ss = (b, y) # ss'"
    by (auto simp: and_then_eq_Inr read_as_def getitem_of_map)
  then show ?case using Cons.IH Cons.prems y by auto
qed simp

lemma set_item_keys: "k \<in> fst ` set d \<Longrightarrow> map fst (set_item k v d) = map fst d"
  by (induction d) force+

lemma set_item_in: "(a, x) \<in> set (set_item k v d) \<Longrightarrow> (a, x) \<in> set d \<or> x = v"
  by (induction d) (auto split: if_splits)

lemma map_of_set_item: "map_of (set_item k v d) = (map_of d)(k \<mapsto> v)"
  by (induction d) (auto simp: fun_eq_iff)

lemma key_data_values:
  "\<exists>applied out_of_range. map_of (data (key_of_cents np_median np_percentile cfg ms eligible cs)) ''applied'' = Some (PBool applied) \<and>
     map_of (data (key_of_cents np_median np_percentile cfg ms eligible cs)) ''out_of_range'' = Some (PBool out_of_range) \<and>
     (\<exists>shift. map_of (data (key_of_cents np_median np_percentile cfg ms eligible cs)) ''key_shift_semitones'' = Some shift \<and>
       (shift = PNone \<or> (\<exists>x. shift = PFloat x)))"
  by (auto simp: key_of_cents_def key_result_def Let_def)

lemma adjusted_percent:
  "map_of (data (key_of_cents np_median np_percentile cfg ms eligible cs)) ''adjusted_score'' = Some PNone \<or>
   (\<exists>x. map_of (data (key_of_cents np_median np_percentile cfg ms eligible cs)) ''adjusted_score'' = Some (PFloat x) \<and>
     0 \<le> x \<and> x \<le> 100)"
proof (cases "map_of (data (key_of_cents np_median np_percentile cfg ms eligible cs)) ''applied'' = Some (PBool True)")
  case True
  have "0 \<le> mean (map (\<lambda>c. \<bar>c - np_median cs\<bar>) cs)"
    unfolding mean_def by (intro divide_nonneg_nonneg sum_list_nonneg) auto
  then show ?thesis using key_of_cents_applied [OF True] score_percent by blast
next
  case False
  then show ?thesis using key_not_applied by blast
qed

lemma adjust_pitch_total:
  assumes "''pitch'' \<in> fst ` set ss" and "\<And>a x. (a, x) \<in> set ss \<Longrightarrow> 0 \<le> x \<and> x \<le> 100"
  shows "\<exists>ss'. adjust_pitch (data (key_of_cents np_median np_percentile cfg ms eligible cs)) ss = Inr ss' \<and>
    map fst ss' = map fst ss \<and> (\<forall>(a, x) \<in> set ss'. 0 \<le> x \<and> x \<le> 100)"
proof -
  let ?d = "data (key_of_cents np_median np_percentile cfg ms eligible cs)"
  obtain applied where a: "map_of ?d ''applied'' = Some (PBool applied)" using key_data_values by blast
  from adjusted_percent [of np_median np_percentile cfg ms eligible cs] show ?thesis
  proof (elim disjE exE conjE)
    assume "map_of ?d ''adjusted_score'' = Some PNone"
    then show ?thesis using a assms(2) by (auto simp: adjust_pitch_def getitem_of_map)
  next
    fix x
    assume x: "map_of ?d ''adjusted_score'' = Some (PFloat x)" "0 \<le> x" "x \<le> 100"
    have "\<forall>(b, y) \<in> set (set_item ''pitch'' x ss). 0 \<le> y \<and> y \<le> 100"
      using set_item_in [of _ _ "''pitch''" x ss] assms(2) x(2,3) by blast
    then show ?thesis using a x(1) assms set_item_keys [OF assms(1)]
      by (cases applied) (auto simp: adjust_pitch_def getitem_of_map)
  qed
qed

text \<open>The whole of \<open>aggregate_run\<close> on such a context.\<close>

lemma unavailable_total: "\<exists>us. unavailable_aspects_for m = Inr us \<and> fst ` set us \<subseteq> set ASPECTS"
  by (cases m) (simp_all add: unavailable_aspects_for_def ASPECTS_def UNAVAILABLE_ASPECT_REASON_def)

lemma recording_condition_values:
  "\<exists>detected effective ws. map_of (recording_condition_data threshold level m) ''accompaniment_detected'' = Some (PBool detected) \<and>
     map_of (recording_condition_data threshold level m) ''effective_mode'' = Some (PStr effective) \<and>
     map_of (recording_condition_data threshold level m) ''warnings'' = Some (PList ws) \<and>
     map_of (recording_condition_data threshold level m) ''accompaniment_level'' = Some (PFloat (py_round_to 4 level)) \<and>
     detected = (threshold \<le> level) \<and> ws = map PStr (snd (reconcile_mode m (threshold \<le> level)))"
  by (simp add: recording_condition_data_def Let_def case_prod_unfold)

lemma signals_of_values:
  "map_of key ''out_of_range'' = Some (PBool b) \<Longrightarrow>
     \<exists>s. signals_of m accompaniment (pitch_data us rs ds) (align_data vs k a) key = Inr s \<and>
       cs_mode s = m \<and> cs_accompaniment_in_clean s = accompaniment"
  by (simp add: signals_of_def pitch_data_def align_data_def Let_def read_as_def getitem_of_map)

lemma columns_of_aggregate:
  assumes "effective_mode = PStr e" and "accompaniment_level = PFloat l" and "voiced_ratio = PFloat v"
    and "key_shift = PNone \<or> (\<exists>x. key_shift = PFloat x)"
  shows "\<exists>cols. scoring_columns_of (aggregate_data scoring_version m overall_score feedback aspect_scores unavailable
    effective_mode confidence warnings key_shift accompaniment_level voiced_ratio align_cost) = Inr cols"
  using assms by (auto simp: aggregate_data_def scoring_columns_of_def read_as_def)

lemma aggregate_facts:
  assumes c: "stages_scored c" and w: "weights_ok (context_mode c) (weights_by_mode (context_mode c))"
  shows "\<exists>r score. aggregate_run weights_by_mode scoring_version ms c = Inr r \<and>
    map_of (data r) ''overall_score'' = Some (PFloat score) \<and> 0 \<le> score \<and> score \<le> 100 \<and>
    (\<exists>cols. scoring_columns_of (data r) = Inr cols)"
proof -
  define m where "m = context_mode c"
  from c obtain us rs ds vs k a np_median np_percentile cfg kms eligible cs threshold level
    where pitch: "stage_data c ''pitch'' = Inr (pitch_data us rs ds)"
      and align: "stage_data c ''align'' = Inr (align_data vs k a)"
      and key: "stage_data c ''key_normalization'' = Inr (data (key_of_cents np_median np_percentile cfg kms eligible cs))"
      and rc: "stage_data c ''recording_condition'' = Inr (recording_condition_data threshold level m)"
    unfolding stages_scored_def m_def by (elim conjE exE)
  let ?key = "data (key_of_cents np_median np_percentile cfg kms eligible cs)"
  let ?rc = "recording_condition_data threshold level m"
  have "\<And>a. a \<in> set (MODE_ASPECTS m) \<Longrightarrow> \<exists>d. stage_data c a = Inr d \<and> aspect_ok a d"
    using c by (simp add: stages_scored_def m_def)
  from results_of_total [of "MODE_ASPECTS m" c, OF this] obtain results where
    results: "results_of c (MODE_ASPECTS m) = Inr results" "map fst results = MODE_ASPECTS m"
    and ok: "\<And>a r. (a, r) \<in> set results \<Longrightarrow> aspect_ok a (data r)"
    by auto
  have "has_score (data r)" if "(a, r) \<in> set results" for a r using ok [OF that] by (simp add: aspect_ok_def)
  then obtain raw where raw: "scores_of results = Inr raw" "map fst raw = MODE_ASPECTS m"
    and raw100: "\<And>a x. (a, x) \<in> set raw \<Longrightarrow> 0 \<le> x \<and> x \<le> 100"
    using scores_of_map [of results] scores_of_percent [of results] results(2) by metis
  have "''pitch'' \<in> set (MODE_ASPECTS m)" by (cases m) (simp_all add: ASPECTS_def)
  then have "''pitch'' \<in> fst ` set raw" using raw(2) by (metis set_map)
  from adjust_pitch_total [OF this, of np_median np_percentile cfg kms eligible cs] raw100 obtain scores where
    scores: "adjust_pitch ?key raw = Inr scores" "map fst scores = MODE_ASPECTS m"
    and s100: "\<forall>(a, x) \<in> set scores. 0 \<le> x \<and> x \<le> 100"
    using raw(2) by auto
  have "\<exists>t. weighted_overall_score (map_of scores) (map_of (weights_by_mode m)) m = Inr t \<and> 0 \<le> t \<and> t \<le> 100"
  proof (rule weighted_overall_score_percent)
    show "set (MODE_ASPECTS m) \<subseteq> dom (map_of scores)" using scores(2) by (metis dom_map_of_conv_image_fst order_refl set_map)
    show "0 \<le> the (map_of scores b) \<and> the (map_of scores b) \<le> 100" if "b \<in> set (MODE_ASPECTS m)" for b
    proof -
      from that scores(2) obtain x where "map_of scores b = Some x"
        by (metis dom_map_of_conv_image_fst domD set_map)
      then show ?thesis using s100 map_of_SomeD [of scores b x] by auto
    qed
  qed (use w in \<open>simp_all add: weights_ok_def m_def\<close>)
  then obtain t where t: "weighted_overall_score (map_of scores) (map_of (weights_by_mode m)) m = Inr t" "0 \<le> t" "t \<le> 100"
    by blast
  from recording_condition_values [of threshold level m] obtain detected effective ws
    where rcv: "map_of ?rc ''accompaniment_detected'' = Some (PBool detected)" "map_of ?rc ''effective_mode'' = Some (PStr effective)"
      "map_of ?rc ''warnings'' = Some (PList ws)" "map_of ?rc ''accompaniment_level'' = Some (PFloat (py_round_to 4 level))"
    by blast
  have "\<exists>b. accompaniment_in_clean_of m ?rc = Inr b"
    using rcv(1) by (cases m) (auto simp: accompaniment_in_clean_of_def getitem_of_map)
  then obtain accompaniment where acc: "accompaniment_in_clean_of m ?rc = Inr accompaniment" by blast
  from key_data_values [of np_median np_percentile cfg kms eligible cs] obtain oor shift
    where oor: "map_of ?key ''out_of_range'' = Some (PBool oor)"
      and shift: "map_of ?key ''key_shift_semitones'' = Some shift" "shift = PNone \<or> (\<exists>x. shift = PFloat x)"
    by blast
  obtain s where sig: "signals_of m accompaniment (pitch_data us rs ds) (align_data vs k a) ?key = Inr s"
    using signals_of_values [OF oor] by blast
  obtain un where un: "unavailable_aspects_for m = Inr un" "fst ` set un \<subseteq> set ASPECTS" using unavailable_total by blast
  have "MODE_ASPECTS m \<noteq> []" by (cases m) (simp_all add: ASPECTS_def)
  from report_sections_total [OF this set_MODE_ASPECTS_subset results(2) ok un(2), of t accompaniment "context_locale c"]
  obtain feedback where fb: "build_feedback_report results t (MODE_ASPECTS m) un accompaniment (context_locale c) = Inr feedback"
    by (auto simp: build_feedback_report_def)
  have v: "map_of (pitch_data us rs ds) ''voiced_fraction'' = Some (PFloat (voiced_fraction us))"
    by (simp add: pitch_data_def Let_def)
  let ?d = "aggregate_data scoring_version m t feedback scores un (PStr effective) (compute_confidence s) ws shift
      (PFloat (py_round_to 4 level)) (PFloat (voiced_fraction us)) (cs_alignment_cost s)"
  have "aggregate_run weights_by_mode scoring_version ms c = Inr (stage_done ''aggregate'' ms ?d)"
    by (simp add: aggregate_run_def Let_def m_def [symmetric] results raw scores t key rc acc pitch align sig un fb
        getitem_of_map rcv shift v read_as_def)
  moreover have "map_of ?d ''overall_score'' = Some (PFloat t)" by (simp add: aggregate_data_def)
  moreover have "\<exists>cols. scoring_columns_of ?d = Inr cols" by (rule columns_of_aggregate [OF refl refl refl shift(2)])
  ultimately show ?thesis using t(2,3) by auto
qed

section \<open>The composition with the stages\<close>

definition recorded :: "analysis_context \<Rightarrow> string \<Rightarrow> (stage_result \<Rightarrow> bool) \<Rightarrow> bool" where
  "recorded c name R \<longleftrightarrow> (\<exists>r. completed c name = Some r \<and> R r)"

text \<open>
  The results that the context holds were returned by the stages of its mode, each run on a context
  of its own, as a child process does; every library function may differ from run to run.
\<close>

definition scored_by_stages :: "analysis_context \<Rightarrow> bool" where
  "scored_by_stages c \<longleftrightarrow>
     recorded c ''align'' (\<lambda>r. \<exists>us k a ms. r = stage_done ''align'' ms (align_data us k a)) \<and>
     recorded c ''pitch'' (\<lambda>r. \<exists>np_interp ms c'. pitch_run np_interp ms c' = Inr r) \<and>
     recorded c ''rhythm'' (\<lambda>r. \<exists>np_interp load ms c'. rhythm_run np_interp load ms c' = Inr r) \<and>
     recorded c ''dynamics'' (\<lambda>r. \<exists>np_interp std corrcoef load ms c'. (\<forall>a b. corrcoef a b \<le> 1) \<and>
       dynamics_run np_interp std corrcoef load ms c' = Inr r) \<and>
     recorded c ''vibrato'' (\<lambda>r. \<exists>lib ms c'. vibrato_run lib ms c' = Inr r) \<and>
     (context_mode c = Clean \<longrightarrow>
       recorded c ''timbre'' (\<lambda>r. \<exists>np_interp load ms c'. timbre_run np_interp load ms c' = Inr r) \<and>
       recorded c ''breath'' (\<lambda>r. \<exists>np_interp load ms c'. breath_run np_interp load ms c' = Inr r)) \<and>
     recorded c ''key_normalization'' (\<lambda>r. \<exists>np_median np_percentile cfg ms c'. key_run np_median np_percentile cfg ms c' = Inr r) \<and>
     recorded c ''recording_condition'' (\<lambda>r. \<exists>np_median read lib threshold ms c'. context_mode c' = context_mode c \<and>
       recording_condition_run np_median read lib threshold ms c' = Inr r)"

lemma stage_data_recorded: "completed c name = Some r \<Longrightarrow> stage_data c name = Inr (data r)"
  by (simp add: stage_data_def analysis_result_def)

lemma recorded_data:
  "recorded c name R \<Longrightarrow> (\<And>r. R r \<Longrightarrow> P (data r)) \<Longrightarrow> \<exists>d. stage_data c name = Inr d \<and> P d"
  using stage_data_recorded by (auto simp: recorded_def)

lemma scored_by_stages_scored:
  assumes "scored_by_stages c"
  shows "stages_scored c"
proof -
  note c = assms [unfolded scored_by_stages_def]
  note align = c [THEN conjunct1] and c = c [THEN conjunct2]
  note pitch = c [THEN conjunct1] and c = c [THEN conjunct2]
  note rhythm = c [THEN conjunct1] and c = c [THEN conjunct2]
  note dynamics = c [THEN conjunct1] and c = c [THEN conjunct2]
  note vibrato = c [THEN conjunct1] and c = c [THEN conjunct2]
  note clean = c [THEN conjunct1] and c = c [THEN conjunct2]
  note key = c [THEN conjunct1] and rc = c [THEN conjunct2]
  have P: "\<exists>d. stage_data c ''pitch'' = Inr d \<and> (\<exists>us rs ds. d = pitch_data us rs ds)"
    by (rule recorded_data [OF pitch]) (elim exE, drule pitch_run_data, elim exE, simp only: stage_done_simps, blast)
  moreover have "\<exists>d. stage_data c ''align'' = Inr d \<and> (\<exists>us k a. d = align_data us k a)"
    by (rule recorded_data [OF align]) (elim exE, simp only: stage_done_simps, blast)
  moreover have "\<exists>d. stage_data c ''key_normalization'' = Inr d \<and> (\<exists>np_median np_percentile cfg ms eligible cs.
      d = data (key_of_cents np_median np_percentile cfg ms eligible cs))"
    by (rule recorded_data [OF key]) (auto simp: key_run_def and_then_eq_Inr, blast)
  moreover have "\<exists>d. stage_data c ''recording_condition'' = Inr d \<and>
      (\<exists>threshold level. d = recording_condition_data threshold level (context_mode c))"
    by (rule recorded_data [OF rc]) (auto simp: recording_condition_run_def and_then_eq_Inr Let_def, blast)
  moreover have "\<exists>d. stage_data c a = Inr d \<and> aspect_ok a d" if "a \<in> set (MODE_ASPECTS (context_mode c))" for a
  proof -
    have "\<exists>d. stage_data c ''pitch'' = Inr d \<and> aspect_ok ''pitch'' d" using P pitch_data_ok by auto
    moreover have "\<exists>d. stage_data c ''rhythm'' = Inr d \<and> aspect_ok ''rhythm'' d"
      by (rule recorded_data [OF rhythm]) (elim exE, rule rhythm_run_ok)
    moreover have "\<exists>d. stage_data c ''dynamics'' = Inr d \<and> aspect_ok ''dynamics'' d"
      by (rule recorded_data [OF dynamics]) (elim exE conjE, rule dynamics_run_ok [rotated], assumption, blast)
    moreover have "\<exists>d. stage_data c ''vibrato'' = Inr d \<and> aspect_ok ''vibrato'' d"
      by (rule recorded_data [OF vibrato]) (elim exE, rule vibrato_run_ok)
    moreover have "\<exists>d. stage_data c ''timbre'' = Inr d \<and> aspect_ok ''timbre'' d" if "context_mode c = Clean"
      by (rule recorded_data [OF clean [rule_format, OF that, THEN conjunct1]]) (elim exE, rule timbre_run_ok)
    moreover have "\<exists>d. stage_data c ''breath'' = Inr d \<and> aspect_ok ''breath'' d" if "context_mode c = Clean"
      by (rule recorded_data [OF clean [rule_format, OF that, THEN conjunct2]]) (elim exE, rule breath_run_ok)
    ultimately show ?thesis using that by (cases "context_mode c") (auto simp: ASPECTS_def)
  qed
  ultimately show ?thesis unfolding stages_scored_def by blast
qed

section \<open>Properties\<close>

text \<open>
  C14: Once the stages of the mode have returned their results, aggregation cannot fail: it finds and reads
  every result, its overall score is within 0 and 100 for every weight profile that the configuration
  admits with non-negative weights, and the job handler can write all it stored to the database.
\<close>

theorem aggregate_after_stages:
  assumes "scored_by_stages c" and "weights_ok (context_mode c) (weights_by_mode (context_mode c))"
  shows "\<exists>r score cols. aggregate_run weights_by_mode scoring_version ms c = Inr r \<and>
    map_of (data r) ''overall_score'' = Some (PFloat score) \<and> 0 \<le> score \<and> score \<le> 100 \<and>
    scoring_columns_of (data r) = Inr cols"
  using aggregate_facts [of c weights_by_mode scoring_version ms, OF scored_by_stages_scored [OF assms(1)] assms(2)]
  by blast

text \<open>Results of concrete runs, and the context of a mixed analysis that holds them.\<close>

definition demo_attempt :: align_attempt where
  "demo_attempt =
     \<lparr>fine = \<lparr>index1 = [0], index2 = [0], normalized_distance = 0\<rparr>,
      coarse = \<lparr>index1 = [0], index2 = [0], normalized_distance = 0\<rparr>, length_mismatch = False\<rparr>"

definition demo_condition_context :: analysis_context where
  "demo_condition_context = (demo_context []
     [''preprocess'' \<mapsto> stage_done ''preprocess'' 0 [(''recording_path'', PStr ''/w/recording.wav'')],
      ''pitch'' \<mapsto> stage_done ''pitch'' 0 (pitch_data [Some 110] [Some 220] [Some (- 1200)])])\<lparr>context_mode := Mixed\<rparr>"

lemma demo_condition_run:
  "\<exists>r. recording_condition_run median_sorted (\<lambda>p. Inr ([1], 100)) demo_librosa (15 / 100) 0 demo_condition_context = Inr r"
  by (simp add: recording_condition_run_def demo_condition_context_def demo_context_def stage_data_def analysis_result_def
      read_as_def compute_rms_envelope_def rms_envelope_of_def demo_librosa_def user_hz_of_def pitch_data_def Let_def
      dump_curve_def json_float_def)

lemma demo_rhythm_run: "\<exists>r. rhythm_run interp_linear demo_load 0 demo_self_context = Inr r"
  by (simp add: rhythm_run_def demo_self Let_def)

lemma demo_dynamics_run:
  "\<exists>r. dynamics_run interp_linear (\<lambda>xs. 1) (\<lambda>a b. 1) demo_load 0 demo_self_context = Inr r"
proof -
  obtain ys where "resample_from interp_linear (from_warping_path [0, 10] [0, 10] PITCH_HOP_SECONDS) [0, 1]
      FEATURES_HOP_SECONDS 0 2 = Inr (ys :: real list)"
    using resample_from_ok [of "[0, 1]"] by blast
  then show ?thesis
    by (simp add: dynamics_run_def demo_self Let_def resample_reference_onto_user_grid_def demo_self_features_def
        numeral_2_eq_2 del: resample_from.simps)
qed

lemma demo_key_run: "\<exists>r. key_run median_sorted (\<lambda>xs q. hd xs) demo_key_config 0 demo_mixed = Inr r \<and>
    map_of (data r) ''applied'' = Some (PBool True) \<and> map_of (data r) ''adjusted_score'' = Some (PFloat 100)"
  unfolding key_run_of_pitch [OF demo_mixed_pitch]
  by (simp add: key_of_cents_def key_result_def present_def median_sorted_def SEMITONE_CENTS_def demo_key_config_def
      key_eligible_def demo_mixed_def Let_def json_float_def mean_def score_from_mean_abs_cents_def py_round_to_def)

lemma demo_scored:
  "\<exists>c key. scored_by_stages c \<and> context_mode c = Mixed \<and> context_locale c = En \<and>
     completed c ''pitch'' = Some (stage_done ''pitch'' 0 (pitch_data [Some 110] [Some 220] [Some (- 1200)])) \<and>
     stage_data c ''key_normalization'' = Inr key \<and> map_of key ''applied'' = Some (PBool True) \<and>
     map_of key ''adjusted_score'' = Some (PFloat 100)"
proof -
  obtain rh dy vi ke co where runs:
    "rhythm_run interp_linear demo_load 0 demo_self_context = Inr rh"
    "dynamics_run interp_linear (\<lambda>xs. 1) (\<lambda>a b. 1) demo_load 0 demo_self_context = Inr dy"
    "vibrato_run demo_vibrato_lib 0 demo_vibrato_context = Inr vi"
    "key_run median_sorted (\<lambda>xs q. hd xs) demo_key_config 0 demo_mixed = Inr ke"
    "recording_condition_run median_sorted (\<lambda>p. Inr ([1], 100)) demo_librosa (15 / 100) 0 demo_condition_context = Inr co"
    and ke: "map_of (data ke) ''applied'' = Some (PBool True)" "map_of (data ke) ''adjusted_score'' = Some (PFloat 100)"
    using demo_rhythm_run demo_dynamics_run demo_vibrato_run demo_key_run demo_condition_run by blast
  define pi where "pi = stage_done ''pitch'' 0 (pitch_data [Some 110] [Some 220] [Some (- 1200)])"
  define c where "c = (demo_context []
      [''align'' \<mapsto> stage_done ''align'' 0 (align_data [Some 110] 0 demo_attempt), ''pitch'' \<mapsto> pi, ''rhythm'' \<mapsto> rh,
       ''dynamics'' \<mapsto> dy, ''vibrato'' \<mapsto> vi, ''key_normalization'' \<mapsto> ke, ''recording_condition'' \<mapsto> co])
      \<lparr>context_mode := Mixed\<rparr>"
  have m: "context_mode c = Mixed" "context_locale c = En" "context_mode demo_condition_context = Mixed"
    by (simp_all add: c_def demo_context_def demo_condition_context_def)
  have done_stages: "completed c ''align'' = Some (stage_done ''align'' 0 (align_data [Some 110] 0 demo_attempt))"
    "completed c ''pitch'' = Some pi" "completed c ''rhythm'' = Some rh" "completed c ''dynamics'' = Some dy"
    "completed c ''vibrato'' = Some vi" "completed c ''key_normalization'' = Some ke"
    "completed c ''recording_condition'' = Some co"
    by (simp_all add: c_def demo_context_def)
  have "scored_by_stages c"
    unfolding scored_by_stages_def
  proof (intro conjI impI)
    show "recorded c ''align'' (\<lambda>r. \<exists>us k a ms. r = stage_done ''align'' ms (align_data us k a))"
      using done_stages(1) unfolding recorded_def by blast
    show "recorded c ''pitch'' (\<lambda>r. \<exists>np_interp ms c'. pitch_run np_interp ms c' = Inr r)"
      using done_stages(2) demo_pitch_run [of 0] unfolding recorded_def pi_def by blast
    show "recorded c ''rhythm'' (\<lambda>r. \<exists>np_interp load ms c'. rhythm_run np_interp load ms c' = Inr r)"
      using done_stages(3) runs(1) unfolding recorded_def by blast
    show "recorded c ''dynamics'' (\<lambda>r. \<exists>np_interp std corrcoef load ms c'. (\<forall>a b. corrcoef a b \<le> 1) \<and>
        dynamics_run np_interp std corrcoef load ms c' = Inr r)"
      unfolding recorded_def
      by (rule exI [of _ dy], rule conjI, rule done_stages(4), rule exI [of _ interp_linear], rule exI [of _ "\<lambda>xs. 1"],
        rule exI [of _ "\<lambda>a b. 1"], rule exI [of _ demo_load], rule exI [of _ 0], rule exI [of _ demo_self_context])
        (simp add: runs(2))
    show "recorded c ''vibrato'' (\<lambda>r. \<exists>lib ms c'. vibrato_run lib ms c' = Inr r)"
      using done_stages(5) runs(3) unfolding recorded_def by blast
    show "recorded c ''key_normalization'' (\<lambda>r. \<exists>np_median np_percentile cfg ms c'. key_run np_median np_percentile cfg ms c' = Inr r)"
      using done_stages(6) runs(4) unfolding recorded_def by blast
    show "recorded c ''recording_condition'' (\<lambda>r. \<exists>np_median read lib threshold ms c'. context_mode c' = context_mode c \<and>
        recording_condition_run np_median read lib threshold ms c' = Inr r)"
      using done_stages(7) runs(5) m(1,3) unfolding recorded_def by (metis (no_types, lifting))
  qed (use m(1) in simp_all)
  with m ke done_stages(2) stage_data_recorded [OF done_stages(6)] show ?thesis unfolding pi_def by blast
qed

definition demo_weights :: "mode \<Rightarrow> scoring_weights" where
  "demo_weights m = [(''pitch'', 5 / 10), (''rhythm'', 2 / 10), (''dynamics'', 2 / 10), (''vibrato'', 1 / 10)]"

theorem aggregate_after_stages_witness:
  "\<exists>c r score. context_mode c = Mixed \<and> aggregate_run demo_weights ''1.0'' 0 c = Inr r \<and>
     map_of (data r) ''overall_score'' = Some (PFloat score) \<and> score \<le> 100"
proof -
  obtain c where c: "scored_by_stages c" "context_mode c = Mixed" using demo_scored by blast
  have "weights_ok (context_mode c) (demo_weights (context_mode c))"
    by (auto simp: c weights_ok_def demo_weights_def)
  from aggregate_after_stages [of c demo_weights "''1.0''" 0, OF c(1) this] c(2)
  show ?thesis by blast
qed



text \<open>
  In a clean analysis with detected accompaniment, the warning about it is listed twice: once from
  the recording condition stage and once from the confidence model.
\<close>

theorem accompaniment_warned_twice:
  assumes "aggregate_run weights_by_mode scoring_version ms c = Inr r" and "context_mode c = Clean"
    and "stage_data c ''recording_condition'' = Inr (recording_condition_data threshold level Clean)"
    and "threshold \<le> level"
  shows "\<exists>ws. map_of (data r) ''warnings'' = Some (PList (PStr ''ACCOMPANIMENT_IN_CLEAN_MODE'' # ws)) \<and>
    PStr ''ACCOMPANIMENT_IN_CLEAN_MODE'' \<in> set ws"
proof -
  let ?rc = "recording_condition_data threshold level Clean"
  have rc: "map_of ?rc ''accompaniment_detected'' = Some (PBool True)"
    "map_of ?rc ''warnings'' = Some (PList [PStr ''ACCOMPANIMENT_IN_CLEAN_MODE''])"
    using assms(4) by (simp_all add: recording_condition_data_def)
  from assms(1,2,3) rc obtain pitch align key signals where "signals_of Clean True pitch align key = Inr signals"
    and "map_of (data r) ''warnings'' = Some (PList (PStr ''ACCOMPANIMENT_IN_CLEAN_MODE'' #
      map PStr (cr_warnings (compute_confidence signals))))"
    by (auto simp: aggregate_run_def Let_def and_then_eq_Inr aggregate_data_def getitem_of_map read_as_def
        accompaniment_in_clean_of_def)
  moreover from this(1) have "cs_accompaniment_in_clean signals" by (auto simp: signals_of_def and_then_eq_Inr)
  ultimately show ?thesis by (auto simp: warnings_triggers triggers_def)
qed

definition demo_straight :: pyval where
  "demo_straight = profile_dict \<lparr>detected = False, rate_hz = None, depth_cents = None\<rparr>"

definition demo_clean :: analysis_context where
  "demo_clean = demo_context []
     [''align'' \<mapsto> stage_done ''align'' 0 (align_data [] 0 demo_attempt),
      ''pitch'' \<mapsto> stage_done ''pitch'' 0 (pitch_data [] [] []),
      ''rhythm'' \<mapsto> stage_done ''rhythm'' 0 (rhythm_data (onset_offsets_ms interp_step (from_warping_path [0] [0] 1) [] []) 0 0),
      ''dynamics'' \<mapsto> stage_done ''dynamics'' 0 [(''score'', PFloat 0), (''correlation'', PFloat 0)],
      ''vibrato'' \<mapsto> stage_done ''vibrato'' 0
        [(''score'', PFloat 100), (''user'', demo_straight), (''reference'', demo_straight)],
      ''timbre'' \<mapsto> stage_done ''timbre'' 0 [(''score'', PFloat 0), (''mean_cosine_similarity'', PFloat 0)],
      ''breath'' \<mapsto> stage_done ''breath'' 0
        [(''score'', PFloat 100), (''matched_pauses'', PInt 0), (''reference_pause_count'', PInt 0), (''user_pause_count'', PInt 0)],
      ''key_normalization'' \<mapsto> key_of_cents median_sorted (\<lambda>xs q. hd xs) demo_key_config 0 False [],
      ''recording_condition'' \<mapsto> stage_done ''recording_condition'' 0 (recording_condition_data (15 / 100) 1 Clean)]"

definition demo_clean_weights :: "mode \<Rightarrow> scoring_weights" where
  "demo_clean_weights m =
     [(''pitch'', 1 / 2), (''rhythm'', 1 / 10), (''breath'', 1 / 10), (''dynamics'', 1 / 10), (''vibrato'', 1 / 10),
      (''timbre'', 1 / 10)]"

lemma demo_clean_data:
  "stage_data demo_clean ''recording_condition'' = Inr (recording_condition_data (15 / 100) 1 Clean)"
  "stage_data demo_clean ''align'' = Inr (align_data [] 0 demo_attempt)"
  "stage_data demo_clean ''pitch'' = Inr (pitch_data [] [] [])"
  "stage_data demo_clean ''key_normalization'' =
     Inr (data (key_of_cents median_sorted (\<lambda>xs q. hd xs) demo_key_config 0 False []))"
  "context_mode demo_clean = Clean"
  by (simp_all add: demo_clean_def demo_context_def stage_data_def analysis_result_def)

lemma demo_clean_scored: "stages_scored demo_clean"
proof -
  have "\<exists>d. stage_data demo_clean a = Inr d \<and> aspect_ok a d" if "a \<in> set ASPECTS" for a
  proof -
    have straight: "has_profile ((k, demo_straight) # d) k" for k d
      by (auto simp: has_profile_def demo_straight_def intro!: exI [of _ "\<lparr>detected = False, rate_hz = None, depth_cents = None\<rparr>"])
    have "\<exists>d. stage_data demo_clean ''vibrato'' = Inr d \<and> aspect_ok ''vibrato'' d"
      using straight [of "''user''"] straight [of "''reference''"]
      by (simp add: demo_clean_def demo_context_def stage_data_def analysis_result_def aspect_ok_def has_score_def
          has_profile_def)
    moreover have "\<exists>d. stage_data demo_clean ''rhythm'' = Inr d \<and> aspect_ok ''rhythm'' d"
      using rhythm_score
      by (simp add: demo_clean_def demo_context_def stage_data_def analysis_result_def aspect_ok_def has_defs)
        (simp add: rhythm_data_def Let_def)
    moreover have "\<exists>d. stage_data demo_clean ''pitch'' = Inr d \<and> aspect_ok ''pitch'' d"
      using demo_clean_data(3) pitch_data_ok by blast
    moreover have "\<exists>d. stage_data demo_clean a = Inr d \<and> aspect_ok a d"
      if "a = ''dynamics'' \<or> a = ''timbre'' \<or> a = ''breath''" for a
      using that by (auto simp: demo_clean_def demo_context_def stage_data_def analysis_result_def aspect_ok_def has_defs)
    ultimately show ?thesis using that by (auto simp: ASPECTS_def)
  qed
  then show ?thesis unfolding stages_scored_def using demo_clean_data by (auto, blast+)
qed

theorem accompaniment_warned_twice_witness:
  "\<exists>r ws. aggregate_run demo_clean_weights ''1.0'' 0 demo_clean = Inr r \<and>
     map_of (data r) ''warnings'' = Some (PList (PStr ''ACCOMPANIMENT_IN_CLEAN_MODE'' # ws)) \<and>
     PStr ''ACCOMPANIMENT_IN_CLEAN_MODE'' \<in> set ws"
proof -
  have w: "weights_ok (context_mode demo_clean) (demo_clean_weights (context_mode demo_clean))"
    by (auto simp: demo_clean_data weights_ok_def demo_clean_weights_def ASPECTS_def)
  obtain r where r: "aggregate_run demo_clean_weights ''1.0'' 0 demo_clean = Inr r"
    using aggregate_facts [of demo_clean demo_clean_weights "''1.0''" 0, OF demo_clean_scored w]
    by blast
  from accompaniment_warned_twice [OF r demo_clean_data(5,1)] r show ?thesis by auto
qed

end
