(* ===== verification/AudioStages.thy ===== *)
theory AudioStages
  imports Align
begin

text \<open>
  The stages that read and write audio files: \<open>audio/ffmpeg.py\<close>, \<open>audio/loudness.py\<close>,
  \<open>audio/io.py\<close>, and the stages \<open>preprocess.py\<close>, \<open>separate_recording.py\<close>, \<open>prep_reference.py\<close>,
  \<open>separate_reference.py\<close>, \<open>transcribe.py\<close> and \<open>prep_reference_pitch.py\<close>. A WAV file is its mono
  samples with their rate. The ffmpeg process, the loudness meter, the gain, the 16-bit quantisation and
  the three models are parameters. The lemmas show which errors these stages raise, that a model is
  released in any case, and that a repeated run gives the same result and files.
\<close>

section \<open>Files\<close>

record audio_files =
  wavs :: "string \<rightharpoonup> (real list \<times> nat)"
  dirs :: "string set"

text \<open>Integrated loudness: minus infinity for digital silence.\<close>

datatype lufs = Silence | Lufs real

record audio_lib =
  meter :: "real list \<Rightarrow> nat \<Rightarrow> exn + lufs"
  gain :: "real list \<Rightarrow> real \<Rightarrow> real \<Rightarrow> real list"
  pcm16 :: "real list \<Rightarrow> real list"

definition read_wav :: "string \<Rightarrow> ('z audio_files_scheme, exn, real list \<times> nat) prog" where
  "read_wav path w =
     (case wavs w path of None \<Rightarrow> (Inl (Crash ''LibsndfileError'' path), w) | Some x \<Rightarrow> (Inr x, w))"

definition write_mono :: "audio_lib \<Rightarrow> string \<Rightarrow> real list \<Rightarrow> nat \<Rightarrow> ('z audio_files_scheme, exn, unit) prog" where
  "write_mono lib path samples sample_rate =
     modifyp (\<lambda>w. w\<lparr>wavs := (wavs w)(path \<mapsto> (pcm16 lib samples, sample_rate))\<rparr>)"

definition mkdir :: "string \<Rightarrow> ('z audio_files_scheme, exn, unit) prog" where
  "mkdir path = modifyp (\<lambda>w. w\<lparr>dirs := insert path (dirs w)\<rparr>)"

definition unlink :: "string \<Rightarrow> ('z audio_files_scheme, exn, unit) prog" where
  "unlink path = modifyp (\<lambda>w. w\<lparr>wavs := (wavs w)(path := None)\<rparr>)"

section \<open>Loudness\<close>

definition measure_and_normalize :: "audio_lib \<Rightarrow> real list \<Rightarrow> nat \<Rightarrow> real \<Rightarrow> exn + (real list \<times> lufs)" where
  "measure_and_normalize lib samples sample_rate target_lufs =
     and_then (meter lib samples sample_rate) (\<lambda>raw_loudness.
       case raw_loudness of
         Silence \<Rightarrow> Inr (samples, raw_loudness)
       | Lufs l \<Rightarrow> Inr (gain lib samples l target_lufs, raw_loudness))"

definition PIPELINE_SAMPLE_RATE_HZ :: nat where
  "PIPELINE_SAMPLE_RATE_HZ = 22050"

definition TARGET_LOUDNESS_LUFS :: real where
  "TARGET_LOUDNESS_LUFS = - 23"

definition MIN_VOCAL_LOUDNESS_LUFS :: real where
  "MIN_VOCAL_LOUDNESS_LUFS = - 50"

definition PREPROCESS_TIMEOUT_SECONDS :: nat where
  "PREPROCESS_TIMEOUT_SECONDS = 45"

definition PREP_REFERENCE_TIMEOUT_SECONDS :: nat where
  "PREP_REFERENCE_TIMEOUT_SECONDS = 60"

text \<open>\<open>raw_loudness < MIN_VOCAL_LOUDNESS_LUFS\<close>.\<close>

fun too_quiet :: "lufs \<Rightarrow> bool" where
  "too_quiet Silence = True"
| "too_quiet (Lufs l) = (l < MIN_VOCAL_LOUDNESS_LUFS)"

fun show_lufs :: "lufs \<Rightarrow> string" where
  "show_lufs Silence = ''-inf''"
| "show_lufs (Lufs l) = show_fixed 1 l"

text \<open>A loudness in stage data; JSON has no infinity, which is stored as null.\<close>

fun json_lufs :: "lufs \<Rightarrow> pyval" where
  "json_lufs Silence = PNone"
| "json_lufs (Lufs l) = PFloat l"

section \<open>ffmpeg\<close>

datatype run_result = Completed | TimeoutExpired | CalledProcessError string | OSError string

text \<open>\<open>subprocess.run\<close>: the outcome of the process and what it did to the files.\<close>

type_synonym exec = "string list \<Rightarrow> nat \<Rightarrow> (string \<rightharpoonup> (real list \<times> nat)) \<Rightarrow> run_result \<times> (string \<rightharpoonup> (real list \<times> nat))"

definition last_chars :: "nat \<Rightarrow> string \<Rightarrow> string" where
  "last_chars n s = drop (length s - n) s"

definition quoted :: "string \<Rightarrow> string" where
  "quoted s = [CHR 0x27] @ s @ [CHR 0x27]"

definition run_ffmpeg ::
  "exec \<Rightarrow> string \<Rightarrow> string list \<Rightarrow> nat \<Rightarrow> string \<Rightarrow> ('z audio_files_scheme, exn, unit) prog" where
  "run_ffmpeg exec ffmpeg_path args timeout stage_name w =
     (let (outcome, files) = exec (ffmpeg_path # args) timeout (wavs w); w' = w\<lparr>wavs := files\<rparr>
      in case outcome of
           Completed \<Rightarrow> (Inr (), w')
         | TimeoutExpired \<Rightarrow> (Inl (Raised (stage_timeout_init stage_name timeout)), w')
         | CalledProcessError stderr \<Rightarrow>
             (Inl (Raised (pipeline_error_init InternalPipelineError
                (''ffmpeg failed in stage '' @ quoted stage_name @ '': '' @ last_chars 2000 stderr) None)), w')
         | OSError message \<Rightarrow>
             (Inl (Raised (pipeline_error_init InternalPipelineError
                (''could not run ffmpeg for stage '' @ quoted stage_name @ '': '' @ message) None)), w'))"

definition canonicalize_for_pipeline ::
  "exec \<Rightarrow> string \<Rightarrow> string \<Rightarrow> string \<Rightarrow> nat \<Rightarrow> nat \<Rightarrow> string \<Rightarrow> ('z audio_files_scheme, exn, unit) prog" where
  "canonicalize_for_pipeline exec ffmpeg_path src_path dst_path sample_rate timeout stage_name =
     run_ffmpeg exec ffmpeg_path
       [''-y'', ''-i'', src_path, ''-ac'', ''1'', ''-ar'', show_nat sample_rate, ''-acodec'', ''pcm_s16le'', dst_path]
       timeout stage_name"

text \<open>\<open>Path.with_suffix\<close> and \<open>Path.parent\<close>.\<close>

definition with_suffix :: "string \<Rightarrow> string \<Rightarrow> string" where
  "with_suffix path suffix =
     (let r = rev path; ext = takeWhile (\<lambda>c. c \<noteq> CHR ''.'' \<and> c \<noteq> CHR ''/'') r
      in case drop (length ext) r of
           c # d # r' \<Rightarrow>
             if c = CHR ''.'' \<and> ext \<noteq> [] \<and> d \<noteq> CHR ''/'' then rev (d # r') @ suffix else path @ suffix
         | _ \<Rightarrow> path @ suffix)"

definition parent_dir :: "string \<Rightarrow> string" where
  "parent_dir path = rev (drop 1 (dropWhile (\<lambda>c. c \<noteq> CHR ''/'') (rev path)))"

definition decode_and_normalize ::
  "audio_lib \<Rightarrow> exec \<Rightarrow> string \<Rightarrow> string \<Rightarrow> string \<Rightarrow> nat \<Rightarrow> real \<Rightarrow> nat \<Rightarrow> string \<Rightarrow>
     ('z audio_files_scheme, exn, lufs) prog" where
  "decode_and_normalize lib exec ffmpeg_path src_path dst_path sample_rate target_lufs timeout stage_name =
     (let resampled = with_suffix dst_path ''.resampled.wav''
      in thenp (canonicalize_for_pipeline exec ffmpeg_path src_path resampled sample_rate timeout stage_name)
        (bindp (read_wav resampled) (\<lambda>(samples, rate).
         bindp (liftp (measure_and_normalize lib samples rate target_lufs)) (\<lambda>(normalized, raw_loudness).
         thenp (write_mono lib dst_path normalized rate)
        (thenp (unlink resampled)
         (ret raw_loudness))))))"

section \<open>The stages of the warm path\<close>

definition preprocess_run ::
  "audio_lib \<Rightarrow> exec \<Rightarrow> string \<Rightarrow> int \<Rightarrow> analysis_context \<Rightarrow> ('z audio_files_scheme, exn, stage_result) prog" where
  "preprocess_run lib exec ffmpeg_path ms c =
     thenp (mkdir (work_dir c))
       (let target = path_join (work_dir c) ''recording.wav''
        in bindp (decode_and_normalize lib exec ffmpeg_path (recording_path c) target PIPELINE_SAMPLE_RATE_HZ
               TARGET_LOUDNESS_LUFS PREPROCESS_TIMEOUT_SECONDS ''preprocess'') (\<lambda>recording_loudness.
             ret (stage_done ''preprocess'' ms
               [(''recording_path'', PStr target),
                (''sample_rate_hz'', PInt (int PIPELINE_SAMPLE_RATE_HZ)),
                (''recording_loudness_lufs'', json_lufs recording_loudness)])))"

definition loudness_message :: "string \<Rightarrow> lufs \<Rightarrow> string" where
  "loudness_message what raw_loudness =
     ''separated '' @ what @ '' vocal stem measured '' @ show_lufs raw_loudness @ '' LUFS, '' @
     ''below the -50.0 LUFS floor''"

text \<open>A separator: the model, and the release of it, which may change the state.\<close>

record 'w separator =
  separate_vocals :: "real list \<Rightarrow> nat \<Rightarrow> exn + real list"
  release_separator :: "('w, exn, unit) prog"

text \<open>The part the two separation stages share: read, separate, release, normalise, check.\<close>

definition separated ::
  "audio_lib \<Rightarrow> 'z audio_files_scheme separator \<Rightarrow> error_class \<Rightarrow> string \<Rightarrow> string \<Rightarrow> int \<Rightarrow>
     ('z audio_files_scheme, exn, real list \<times> lufs) prog" where
  "separated lib separator too_quiet_class what path sample_rate =
     bindp (read_wav path) (\<lambda>(mixture, _).
     bindp (finallyp (liftp (separate_vocals separator mixture (nat sample_rate))) (release_separator separator)) (\<lambda>vocals.
     bindp (liftp (measure_and_normalize lib vocals (nat sample_rate) TARGET_LOUDNESS_LUFS)) (\<lambda>(normalized, raw_loudness).
       if too_quiet raw_loudness
       then throw (Raised (pipeline_error_init too_quiet_class (loudness_message what raw_loudness) None))
       else ret (normalized, raw_loudness))))"

definition separate_recording_run ::
  "audio_lib \<Rightarrow> 'z audio_files_scheme separator \<Rightarrow> int \<Rightarrow> analysis_context \<Rightarrow>
     ('z audio_files_scheme, exn, stage_result) prog" where
  "separate_recording_run lib separator ms c =
     bindp (liftp (stage_data c ''preprocess'')) (\<lambda>d.
     bindp (liftp (read_as py_str d ''recording_path'')) (\<lambda>path.
     bindp (liftp (read_as py_int d ''sample_rate_hz'')) (\<lambda>sample_rate.
     bindp (separated lib separator NoVoiceDetected ''recording'' path sample_rate) (\<lambda>(normalized, raw_loudness).
       let stem_path = path_join (work_dir c) ''recording_vocals.wav''
       in thenp (write_mono lib stem_path normalized (nat sample_rate))
            (ret (stage_done ''separate_recording'' ms
              [(''stem_path'', PStr stem_path), (''loudness_lufs'', json_lufs raw_loudness)]))))))"

section \<open>The stages of the cold path\<close>

definition prep_reference_run ::
  "audio_lib \<Rightarrow> exec \<Rightarrow> string \<Rightarrow> int \<Rightarrow> song_prep_context \<Rightarrow> ('z audio_files_scheme, exn, stage_result) prog" where
  "prep_reference_run lib exec ffmpeg_path ms c =
     thenp (mkdir (prep_work_dir c))
       (let target = path_join (prep_work_dir c) ''reference.wav''
        in bindp (decode_and_normalize lib exec ffmpeg_path (reference_path c) target PIPELINE_SAMPLE_RATE_HZ
               TARGET_LOUDNESS_LUFS PREP_REFERENCE_TIMEOUT_SECONDS ''prep_reference'') (\<lambda>reference_loudness.
             ret (stage_done ''prep_reference'' ms
               [(''reference_path'', PStr target),
                (''sample_rate_hz'', PInt (int PIPELINE_SAMPLE_RATE_HZ)),
                (''reference_loudness_lufs'', json_lufs reference_loudness)])))"

definition separate_reference_run ::
  "audio_lib \<Rightarrow> 'z audio_files_scheme separator \<Rightarrow> int \<Rightarrow> song_prep_context \<Rightarrow>
     ('z audio_files_scheme, exn, stage_result) prog" where
  "separate_reference_run lib separator ms c =
     bindp (liftp (prep_stage_data c ''prep_reference'')) (\<lambda>d.
     bindp (liftp (read_as py_str d ''reference_path'')) (\<lambda>path.
     bindp (liftp (read_as py_int d ''sample_rate_hz'')) (\<lambda>sample_rate.
     bindp (separated lib separator ReferenceTooQuiet ''reference'' path sample_rate) (\<lambda>(normalized, raw_loudness).
     thenp (mkdir (parent_dir (prep_vocal_stem_path c)))
    (thenp (write_mono lib (prep_vocal_stem_path c) normalized (nat sample_rate))
      (ret (stage_done ''separate_reference'' ms
        [(''stem_path'', PStr (prep_vocal_stem_path c)), (''loudness_lufs'', json_lufs raw_loudness)])))))))"

definition transcribe_run ::
  "(real list \<Rightarrow> nat \<Rightarrow> exn + lyrics) \<Rightarrow> ('z audio_files_scheme, exn, unit) prog \<Rightarrow> int \<Rightarrow> song_prep_context \<Rightarrow>
     ('z audio_files_scheme, exn, stage_result) prog" where
  "transcribe_run transcribe release ms c =
     bindp (liftp (prep_stage_data c ''separate_reference'')) (\<lambda>d.
     bindp (liftp (read_as py_str d ''stem_path'')) (\<lambda>stem_path.
     bindp (read_wav stem_path) (\<lambda>(samples, sample_rate).
     bindp (finallyp (liftp (transcribe samples sample_rate)) release) (\<lambda>l.
       ret (stage_done ''transcribe'' ms [(''lyrics'', dump_lyrics l)])))))"

definition prep_reference_pitch_run ::
  "librosa \<Rightarrow> detect \<Rightarrow> ('z audio_files_scheme, exn, unit) prog \<Rightarrow> int \<Rightarrow> song_prep_context \<Rightarrow>
     ('z audio_files_scheme, exn, stage_result) prog" where
  "prep_reference_pitch_run lib detect release ms c =
     bindp (\<lambda>w. (compute_shared_features PITCH_HOP_SECONDS (\<lambda>p. fst (read_wav p w)) lib (prep_vocal_stem_path c), w))
       (\<lambda>features.
     bindp (finallyp
         (bindp (read_wav (prep_vocal_stem_path c)) (\<lambda>(samples, sample_rate).
            liftp (detect_gated detect samples sample_rate PITCH_HOP_SECONDS (rms_fine features))))
         release) (\<lambda>reference_hz.
       ret (stage_done ''prep_reference_pitch'' ms
         [(''reference_pitch_curve'', dump_curve \<lparr>hop_seconds = PITCH_HOP_SECONDS, hz = reference_hz\<rparr>)])))"

section \<open>Lemmas\<close>

lemma read_wav_Inr: "read_wav path w = (Inr x, w') \<longleftrightarrow> wavs w path = Some x \<and> w' = w"
  by (auto simp: read_wav_def split: option.splits)

lemma write_mono_run [simp]:
  "write_mono lib path samples rate w = (Inr (), w\<lparr>wavs := (wavs w)(path \<mapsto> (pcm16 lib samples, rate))\<rparr>)"
  by (simp add: write_mono_def)

lemma mkdir_run [simp]: "mkdir path w = (Inr (), w\<lparr>dirs := insert path (dirs w)\<rparr>)"
  by (simp add: mkdir_def)

lemma unlink_run [simp]: "unlink path w = (Inr (), w\<lparr>wavs := (wavs w)(path := None)\<rparr>)"
  by (simp add: unlink_def)

lemma finallyp_Inr: "finallyp m k w = (Inr x, w') \<longleftrightarrow> (\<exists>w1. m w = (Inr x, w1) \<and> k w1 = (Inr (), w'))"
  by (auto simp: finallyp_def Let_def split: prod.splits sum.splits)

lemma measure_Lufs:
  assumes "measure_and_normalize lib samples rate target = Inr (normalized, Lufs l)"
  shows "meter lib samples rate = Inr (Lufs l) \<and> normalized = gain lib samples l target"
proof -
  from assms obtain x where x: "meter lib samples rate = Inr x"
    by (auto simp: measure_and_normalize_def and_then_eq_Inr)
  with assms show ?thesis by (cases x) (auto simp: measure_and_normalize_def)
qed

lemma separated_Inr:
  assumes "separated lib separator cls what path rate w = (Inr (normalized, raw), w')"
  shows "\<exists>mixture r vocals l. wavs w path = Some (mixture, r) \<and> separate_vocals separator mixture (nat rate) = Inr vocals \<and>
    release_separator separator w = (Inr (), w') \<and> meter lib vocals (nat rate) = Inr (Lufs l) \<and> raw = Lufs l \<and>
    MIN_VOCAL_LOUDNESS_LUFS \<le> l \<and> normalized = gain lib vocals l TARGET_LOUDNESS_LUFS"
proof -
  from assms obtain mixture r vocals raw' where "wavs w path = Some (mixture, r)"
    "separate_vocals separator mixture (nat rate) = Inr vocals" "release_separator separator w = (Inr (), w')"
    "measure_and_normalize lib vocals (nat rate) TARGET_LOUDNESS_LUFS = Inr (normalized, raw)" "\<not> too_quiet raw"
    by (auto simp: separated_def bindp_eq_Inr read_wav_Inr finallyp_Inr split: if_splits)
  then show ?thesis by (cases raw) (auto simp: not_less dest: measure_Lufs)
qed

text \<open>The two names of the work directory.\<close>

lemma resampled_path: "with_suffix (path_join d ''recording.wav'') ''.resampled.wav'' = path_join d ''recording.resampled.wav''"
  by (simp add: with_suffix_def path_join_def)

text \<open>
  What is relied on of ffmpeg: its outcome and the file it writes are determined by the source
  file, and it writes to the target only.
\<close>

definition ffmpeg_pure :: "exec \<Rightarrow> bool" where
  "ffmpeg_pure exec \<longleftrightarrow> (\<exists>outcome content. \<forall>program rate src dst timeout files.
     exec [program, ''-y'', ''-i'', src, ''-ac'', ''1'', ''-ar'', rate, ''-acodec'', ''pcm_s16le'', dst] timeout files =
       (outcome program rate timeout (files src), files(dst := content program rate timeout (files src))))"

section \<open>Properties\<close>

text \<open>
  C39: After a successful separation of a mixed recording every later stage reads the user's voice from
  the separated stem: the stem is loud enough, it is the normalised output of the model for the
  recording that preprocessing stored, and the model has been released.
\<close>

theorem separated_voice_used:
  assumes "separate_recording_run lib separator ms c w = (Inr r, w')"
  shows "\<exists>d path rate mixture file_rate vocals l w1. stage_data c ''preprocess'' = Inr d \<and>
    read_as py_str d ''recording_path'' = Inr path \<and> read_as py_int d ''sample_rate_hz'' = Inr rate \<and>
    wavs w path = Some (mixture, file_rate) \<and> separate_vocals separator mixture (nat rate) = Inr vocals \<and>
    release_separator separator w = (Inr (), w1) \<and>
    meter lib vocals (nat rate) = Inr (Lufs l) \<and> MIN_VOCAL_LOUDNESS_LUFS \<le> l \<and>
    voice_audio_path (analysis_with_result c r) = Inr (path_join (work_dir c) ''recording_vocals.wav'') \<and>
    wavs w' (path_join (work_dir c) ''recording_vocals.wav'') =
      Some (pcm16 lib (gain lib vocals l TARGET_LOUDNESS_LUFS), nat rate)"
proof -
  from assms obtain d path rate normalized raw w1 where d: "stage_data c ''preprocess'' = Inr d"
    "read_as py_str d ''recording_path'' = Inr path" "read_as py_int d ''sample_rate_hz'' = Inr rate"
    and sep: "separated lib separator NoVoiceDetected ''recording'' path rate w = (Inr (normalized, raw), w1)"
    and w': "w' = w1\<lparr>wavs := (wavs w1)(path_join (work_dir c) ''recording_vocals.wav'' \<mapsto> (pcm16 lib normalized, nat rate))\<rparr>"
    and r: "stage r = ''separate_recording''" "map_of (data r) ''stem_path'' = Some (PStr (path_join (work_dir c) ''recording_vocals.wav''))"
    by (auto simp: separate_recording_run_def bindp_eq_Inr thenp_eq_Inr Let_def)
  have "voice_audio_path (analysis_with_result c r) = Inr (path_join (work_dir c) ''recording_vocals.wav'')"
    using r by (simp add: voice_audio_path_def analysis_with_result_def read_as_def getitem_def)
  with separated_Inr [OF sep] d w' show ?thesis by auto
qed

text \<open>
  Preprocessing can be repeated: run again on the files it left, it returns the same result and
  leaves the same files, as long as the upload is not one of its own two files.
\<close>

theorem preprocess_repeatable:
  assumes "preprocess_run lib exec program ms c w = (Inr r, w')" and "ffmpeg_pure exec"
    and "recording_path c \<noteq> path_join (work_dir c) ''recording.wav''"
    and "recording_path c \<noteq> path_join (work_dir c) ''recording.resampled.wav''"
  shows "\<exists>w''. preprocess_run lib exec program ms c w' = (Inr r, w'') \<and> wavs w'' = wavs w' \<and> dirs w'' = dirs w'"
proof -
  let ?src = "recording_path c" and ?out = "path_join (work_dir c) ''recording.wav''"
    and ?tmp = "path_join (work_dir c) ''recording.resampled.wav''"
  from assms(2) obtain outcome content where exec: "exec [program, ''-y'', ''-i'', src, ''-ac'', ''1'', ''-ar'', rate,
      ''-acodec'', ''pcm_s16le'', dst] timeout files =
      (outcome program rate timeout (files src), files(dst := content program rate timeout (files src)))"
    for program src rate dst timeout files
    unfolding ffmpeg_pure_def by blast
  have tmp: "?tmp \<noteq> ?out" by (simp add: path_join_def)
  note run_defs = preprocess_run_def decode_and_normalize_def Let_def resampled_path canonicalize_for_pipeline_def
    run_ffmpeg_def exec
  from assms(1) obtain samples rate normalized raw where
    o: "outcome program (show_nat PIPELINE_SAMPLE_RATE_HZ) PREPROCESS_TIMEOUT_SECONDS (wavs w ?src) = Completed"
    and content: "content program (show_nat PIPELINE_SAMPLE_RATE_HZ) PREPROCESS_TIMEOUT_SECONDS (wavs w ?src) = Some (samples, rate)"
    and n: "measure_and_normalize lib samples rate TARGET_LOUDNESS_LUFS = Inr (normalized, raw)"
    and w': "wavs w' = (wavs w)(?out \<mapsto> (pcm16 lib normalized, rate), ?tmp := None)" "work_dir c \<in> dirs w'"
    and r: "r = stage_done ''preprocess'' ms [(''recording_path'', PStr ?out),
      (''sample_rate_hz'', PInt (int PIPELINE_SAMPLE_RATE_HZ)), (''recording_loudness_lufs'', json_lufs raw)]"
    by (auto simp: run_defs thenp_eq_Inr bindp_eq_Inr read_wav_Inr tmp split: run_result.splits)
  have src: "wavs w' ?src = wavs w ?src" using w' assms(3,4) by simp
  then show ?thesis
    using o content n w' tmp
    by (auto simp: run_defs r thenp_def bindp_def read_wav_def insert_absorb fun_eq_iff)
qed

text \<open>Concrete libraries and runs.\<close>

definition demo_audio :: audio_lib where
  "demo_audio = \<lparr>meter = (\<lambda>s r. Inr (Lufs (- 20))), gain = (\<lambda>s l t. map (\<lambda>x. x / 2) s), pcm16 = (\<lambda>s. s)\<rparr>"

definition demo_exec :: exec where
  "demo_exec args timeout files = (Completed, files(last args := map_option (\<lambda>(s, r). (s, 22050)) (files (args ! 3))))"

definition demo_separator :: "audio_files separator" where
  "demo_separator = \<lparr>separate_vocals = (\<lambda>s r. Inr s), release_separator = ret ()\<rparr>"

definition demo_files :: audio_files where
  "demo_files = \<lparr>wavs = [''/r'' \<mapsto> ([8], 44100), ''/w/recording.wav'' \<mapsto> ([4], 22050)], dirs = {}\<rparr>"

definition demo_preprocessed :: analysis_context where
  "demo_preprocessed = demo_context [] [''preprocess'' \<mapsto> stage_done ''preprocess'' 0
     [(''recording_path'', PStr ''/w/recording.wav''), (''sample_rate_hz'', PInt 22050)]]"

lemma demo_exec_pure: "ffmpeg_pure demo_exec"
  unfolding ffmpeg_pure_def demo_exec_def
  by (rule exI [of _ "\<lambda>p r t x. Completed"], rule exI [of _ "\<lambda>p r t x. map_option (\<lambda>(s, r). (s, 22050)) x"]) simp

lemma demo_separation:
  "\<exists>r w'. separate_recording_run demo_audio demo_separator 0 demo_preprocessed demo_files = (Inr r, w')"
  by (simp add: separate_recording_run_def bindp_def thenp_def demo_preprocessed_def demo_context_def stage_data_def
      analysis_result_def read_as_def separated_def read_wav_def demo_files_def finallyp_def demo_separator_def
      measure_and_normalize_def demo_audio_def MIN_VOCAL_LOUDNESS_LUFS_def Let_def)

theorem separated_voice_used_witness:
  "\<exists>r w'. separate_recording_run demo_audio demo_separator 0 demo_preprocessed demo_files = (Inr r, w') \<and>
     wavs w' (path_join (work_dir demo_preprocessed) ''recording_vocals.wav'') = Some ([2], 22050)"
proof -
  obtain r w' where run: "separate_recording_run demo_audio demo_separator 0 demo_preprocessed demo_files = (Inr r, w')"
    using demo_separation by blast
  from separated_voice_used [OF run] run show ?thesis
    by (auto simp: demo_preprocessed_def demo_context_def stage_data_def analysis_result_def read_as_def demo_files_def
        demo_separator_def demo_audio_def)
qed

lemma demo_preprocess: "\<exists>r w'. preprocess_run demo_audio demo_exec ''ffmpeg'' 0 demo_preprocessed demo_files = (Inr r, w')"
proof -
  have "with_suffix (path_join ''/w'' ''recording.wav'') ''.resampled.wav'' = path_join ''/w'' ''recording.resampled.wav''"
    by (rule resampled_path)
  then show ?thesis
    by (simp add: preprocess_run_def decode_and_normalize_def thenp_def bindp_def canonicalize_for_pipeline_def
        run_ffmpeg_def demo_exec_def read_wav_def measure_and_normalize_def demo_audio_def demo_preprocessed_def
        demo_context_def demo_files_def Let_def)
qed

theorem preprocess_repeatable_witness:
  "\<exists>r w' w''. preprocess_run demo_audio demo_exec ''ffmpeg'' 0 demo_preprocessed demo_files = (Inr r, w') \<and>
     preprocess_run demo_audio demo_exec ''ffmpeg'' 0 demo_preprocessed w' = (Inr r, w'') \<and> wavs w'' = wavs w'"
proof -
  obtain r w' where run: "preprocess_run demo_audio demo_exec ''ffmpeg'' 0 demo_preprocessed demo_files = (Inr r, w')"
    using demo_preprocess by blast
  have "recording_path demo_preprocessed \<noteq> path_join (work_dir demo_preprocessed) ''recording.wav''"
    "recording_path demo_preprocessed \<noteq> path_join (work_dir demo_preprocessed) ''recording.resampled.wav''"
    by (simp_all add: demo_preprocessed_def demo_context_def path_join_def)
  from preprocess_repeatable [OF run demo_exec_pure this] run show ?thesis by blast
qed

end
