(* ===== verification/Config.thy ===== *)
theory Config
  imports Scoring
begin

text \<open>
  \<open>config.py\<close>: the parsing and validation of a mode's scoring weights, and the settings built on it. A
  weight is a float as \<open>float()\<close> reads it, so it may also be an infinity or NaN. Reading the
  environment is the library's part. The lemmas show what an accepted profile satisfies, and that a NaN passes.
\<close>

section \<open>Reading a float\<close>

datatype pyfloat = Finite real | Infinite bool | NaN

text \<open>The characters \<open>str.strip\<close> removes, of those below 128.\<close>

definition is_space :: "char \<Rightarrow> bool" where
  "is_space c \<longleftrightarrow> (let n = (of_char c :: nat) in n = 32 \<or> (9 \<le> n \<and> n \<le> 13) \<or> (28 \<le> n \<and> n \<le> 31))"

definition strip :: "string \<Rightarrow> string" where
  "strip s = rev (dropWhile is_space (rev (dropWhile is_space s)))"

definition digit_of :: "char \<Rightarrow> nat option" where
  "digit_of c = (let n = (of_char c :: nat) in if 48 \<le> n \<and> n \<le> 57 then Some (n - 48) else None)"

text \<open>A run of digits, single underscores allowed between digits: its value, its length and the rest.\<close>

fun read_digits :: "nat \<Rightarrow> nat \<Rightarrow> string \<Rightarrow> nat \<times> nat \<times> string" where
  "read_digits acc n [] = (acc, n, [])"
| "read_digits acc n [c] =
     (case digit_of c of Some d \<Rightarrow> (acc * 10 + d, Suc n, []) | None \<Rightarrow> (acc, n, [c]))"
| "read_digits acc n (c # e # cs) =
     (case digit_of c of
        Some d \<Rightarrow> read_digits (acc * 10 + d) (Suc n) (e # cs)
      | None \<Rightarrow>
          if c = CHR ''_'' \<and> 0 < n \<and> digit_of e \<noteq> None then read_digits acc n (e # cs) else (acc, n, c # e # cs))"

definition lower :: "string \<Rightarrow> string" where
  "lower = map (\<lambda>c. let n = (of_char c :: nat) in if 65 \<le> n \<and> n \<le> 90 then char_of (n + 32) else c)"

text \<open>The sign, if there is one.\<close>

fun read_sign :: "string \<Rightarrow> bool \<times> string" where
  "read_sign (c # cs) = (if c = CHR ''-'' then (True, cs) else if c = CHR ''+'' then (False, cs) else (False, c # cs))"
| "read_sign [] = (False, [])"

text \<open>The exponent part after the digits: empty, or \<open>e\<close>, a sign and digits to the end.\<close>

definition read_exponent :: "string \<Rightarrow> int option" where
  "read_exponent s =
     (case s of
        [] \<Rightarrow> Some 0
      | c # cs \<Rightarrow>
          if c = CHR ''e'' \<or> c = CHR ''E'' then
            (let (negative, ds) = read_sign cs; (v, n, rest) = read_digits 0 0 ds
             in if 0 < n \<and> rest = [] then Some (if negative then - int v else int v) else None)
          else None)"

definition power_of_ten :: "int \<Rightarrow> real" where
  "power_of_ten k = (if 0 \<le> k then 10 ^ nat k else 1 / 10 ^ nat (- k))"

definition read_decimal :: "string \<Rightarrow> real option" where
  "read_decimal s =
     (let (whole, n, rest) = read_digits 0 0 s;
          (fraction, k, rest') =
            (case rest of c # cs \<Rightarrow> if c = CHR ''.'' then read_digits 0 0 cs else (0, 0, rest) | [] \<Rightarrow> (0, 0, []))
      in if n = 0 \<and> k = 0 then None
         else map_option (\<lambda>e. (of_nat whole + of_nat fraction / 10 ^ k) * power_of_ten e) (read_exponent rest'))"

text \<open>\<open>float(s)\<close>, None for a \<open>ValueError\<close>; overflow is outside the model.\<close>

definition py_float_of :: "string \<Rightarrow> pyfloat option" where
  "py_float_of s =
     (let (negative, u) = read_sign (strip s)
      in if lower u = ''nan'' then Some NaN
         else if lower u = ''inf'' \<or> lower u = ''infinity'' then Some (Infinite negative)
         else map_option (\<lambda>x. Finite (if negative then - x else x)) (read_decimal u))"

text \<open>Addition, and \<open>abs(x - 1.0) > tolerance\<close>, which is false for NaN.\<close>

fun float_add :: "pyfloat \<Rightarrow> pyfloat \<Rightarrow> pyfloat" where
  "float_add (Finite x) (Finite y) = Finite (x + y)"
| "float_add NaN y = NaN"
| "float_add x NaN = NaN"
| "float_add (Infinite a) (Infinite b) = (if a = b then Infinite a else NaN)"
| "float_add (Infinite a) (Finite y) = Infinite a"
| "float_add (Finite x) (Infinite b) = Infinite b"

fun off_one :: "real \<Rightarrow> pyfloat \<Rightarrow> bool" where
  "off_one tolerance (Finite x) = (\<bar>x - 1\<bar> > tolerance)"
| "off_one tolerance (Infinite b) = True"
| "off_one tolerance NaN = False"

section \<open>Scoring weights\<close>

definition WEIGHTS_SUM_TOLERANCE :: real where
  "WEIGHTS_SUM_TOLERANCE = 1 / 1000000"

datatype config_error =
    NotAPair string
  | NotScored string
  | NotANumber string string
  | MissingAspects "string set"
  | BadSum pyfloat

type_synonym weights = "(string \<times> pyfloat) list"

text \<open>\<open>raw.split(",")\<close>.\<close>

fun split_on :: "char \<Rightarrow> string \<Rightarrow> string list" where
  "split_on sep [] = [[]]"
| "split_on sep (c # cs) =
     (if c = sep then [] # split_on sep cs
      else (case split_on sep cs of [] \<Rightarrow> [[c]] | w # ws \<Rightarrow> (c # w) # ws))"

text \<open>\<open>pairs[name] = value\<close> keeps the place of a name that is already there.\<close>

fun put :: "string \<Rightarrow> 'a \<Rightarrow> (string \<times> 'a) list \<Rightarrow> (string \<times> 'a) list" where
  "put k v [] = [(k, v)]"
| "put k v ((k', v') # d) = (if k = k' then (k, v) # d else (k', v') # put k v d)"

fun parse_items :: "mode \<Rightarrow> string list \<Rightarrow> weights \<Rightarrow> config_error + weights" where
  "parse_items m [] pairs = Inr pairs"
| "parse_items m (raw_item # items) pairs =
     (let item = strip raw_item
      in if item = [] then parse_items m items pairs
         else if CHR '':'' \<notin> set item then Inl (NotAPair item)
         else
           (let name = strip (takeWhile (\<lambda>c. c \<noteq> CHR '':'') item);
                value = drop 1 (dropWhile (\<lambda>c. c \<noteq> CHR '':'') item)
            in if name \<notin> set (MODE_ASPECTS m) then Inl (NotScored name)
               else (case py_float_of (strip value) of
                       None \<Rightarrow> Inl (NotANumber name value)
                     | Some x \<Rightarrow> parse_items m items (put name x pairs))))"

definition sum_values :: "weights \<Rightarrow> pyfloat" where
  "sum_values pairs = fold (\<lambda>(_, x) t. float_add t x) pairs (Finite 0)"

definition parse_weights :: "string \<Rightarrow> mode \<Rightarrow> config_error + weights" where
  "parse_weights raw m =
     (case parse_items m (split_on (CHR '','') raw) [] of
        Inl e \<Rightarrow> Inl e
      | Inr pairs \<Rightarrow>
          (let missing = set (MODE_ASPECTS m) - fst ` set pairs; total = sum_values pairs
           in if missing \<noteq> {} then Inl (MissingAspects missing)
              else if off_one WEIGHTS_SUM_TOLERANCE total then Inl (BadSum total)
              else Inr pairs))"

section \<open>Settings\<close>

datatype app_env = Development | Production

datatype pitch_engine = Crepe | Pyin

record settings =
  app_env :: app_env
  log_level :: string
  audio_storage_dir :: string
  model_weights_dir :: string
  song_stems_dir :: string
  max_audio_seconds :: int
  audio_ttl_seconds :: int
  worker_cpu_threads :: int
  pipeline_parallel_aspects :: bool
  pitch_engine :: pitch_engine
  whisper_model :: string
  whisper_compute_type :: string
  demucs_model :: string
  scoring_version :: string
  scoring_weights_clean_raw :: string
  scoring_weights_mixed_raw :: string
  accompaniment_detect_threshold :: real
  key_shift_min_semitones :: real
  key_shift_max_iqr :: real
  max_key_shift_semitones :: real
  postgres_host :: string
  postgres_port :: int
  postgres_db :: string
  postgres_user :: string
  postgres_password :: string
  redis_host :: string
  redis_port :: int
  redis_db :: int
  redis_password :: string

text \<open>The settings of an environment that gives the required variables only; every other one has its default.\<close>

definition default_settings :: "string \<Rightarrow> string \<Rightarrow> string \<Rightarrow> string \<Rightarrow> string \<Rightarrow> string \<Rightarrow> settings" where
  "default_settings weights_clean weights_mixed pg_db pg_user pg_password redis_pass =
     \<lparr>app_env = Development, log_level = ''info'', audio_storage_dir = ''/data/audio-tmp'',
      model_weights_dir = ''/data/model-weights'', song_stems_dir = ''/data/song-stems'',
      max_audio_seconds = 360, audio_ttl_seconds = 300, worker_cpu_threads = 0, pipeline_parallel_aspects = True,
      pitch_engine = Crepe, whisper_model = ''base'', whisper_compute_type = ''int8'', demucs_model = ''htdemucs'',
      scoring_version = ''1.0'', scoring_weights_clean_raw = weights_clean, scoring_weights_mixed_raw = weights_mixed,
      accompaniment_detect_threshold = 15 / 100, key_shift_min_semitones = 6 / 10, key_shift_max_iqr = 5 / 10,
      max_key_shift_semitones = 7, postgres_host = ''postgres'', postgres_port = 5432, postgres_db = pg_db,
      postgres_user = pg_user, postgres_password = pg_password, redis_host = ''redis'', redis_port = 6379,
      redis_db = 0, redis_password = redis_pass\<rparr>"

text \<open>The model validator: the profiles of both modes, the clean one first.\<close>

definition parse_scoring_weights :: "settings \<Rightarrow> config_error + (mode \<Rightarrow> weights)" where
  "parse_scoring_weights s =
     (case parse_weights (scoring_weights_clean_raw s) Clean of
        Inl e \<Rightarrow> Inl e
      | Inr clean \<Rightarrow>
          (case parse_weights (scoring_weights_mixed_raw s) Mixed of
             Inl e \<Rightarrow> Inl e
           | Inr mixed \<Rightarrow> Inr (\<lambda>m. case m of Clean \<Rightarrow> clean | Mixed \<Rightarrow> mixed)))"

definition postgres_dsn :: "settings \<Rightarrow> string" where
  "postgres_dsn s =
     ''host='' @ postgres_host s @ '' port='' @ show_int (postgres_port s) @ '' dbname='' @ postgres_db s @
     '' user='' @ postgres_user s @ '' password='' @ postgres_password s @ '' sslmode=disable''"

definition redis_url :: "settings \<Rightarrow> string" where
  "redis_url s =
     ''redis://:'' @ redis_password s @ ''@'' @ redis_host s @ '':'' @ show_int (redis_port s) @ ''/'' @
     show_int (redis_db s)"

section \<open>Lemmas\<close>

lemma put_keys: "fst ` set (put k v d) = insert k (fst ` set d)"
proof (induction d)
  case (Cons p d)
  then show ?case by (cases p) (simp add: insert_commute)
qed simp

lemma put_distinct: "distinct (map fst d) \<Longrightarrow> distinct (map fst (put k v d))"
proof (induction d)
  case (Cons p d)
  then show ?case using put_keys [of k v d] by (cases p) (auto simp flip: set_map)
qed simp

lemma parse_items_keys:
  "parse_items m items pairs = Inr ws \<Longrightarrow> fst ` set pairs \<subseteq> set (MODE_ASPECTS m) \<Longrightarrow> distinct (map fst pairs) \<Longrightarrow>
     fst ` set ws \<subseteq> set (MODE_ASPECTS m) \<and> distinct (map fst ws)"
proof (induction m items pairs rule: parse_items.induct)
  case (2 m raw_item items pairs)
  then show ?case
    by (auto simp: Let_def put_keys put_distinct split: if_splits option.splits)
qed simp

lemma parse_items_values:
  "parse_items m items pairs = Inr ws \<Longrightarrow> fst ` set pairs \<subseteq> fst ` set ws"
proof (induction m items pairs rule: parse_items.induct)
  case (2 m raw_item items pairs)
  then show ?case
    by (auto simp: Let_def put_keys split: if_splits option.splits)
qed simp

text \<open>
  Reading the entries of a profile written with percentages, as the example environment file writes them.
\<close>

definition digit :: "nat \<Rightarrow> char" where
  "digit d = char_of (48 + d)"

definition percent :: "nat \<Rightarrow> string" where
  "percent p = [digit 0, CHR ''.'', digit (p div 10), digit (p mod 10)]"

definition profile_entry :: "string \<Rightarrow> nat \<Rightarrow> string" where
  "profile_entry a p = a @ CHR '':'' # percent p"

fun profile_text :: "(string \<times> nat) list \<Rightarrow> string" where
  "profile_text [] = []"
| "profile_text [(a, p)] = profile_entry a p"
| "profile_text ((a, p) # q # ps) = profile_entry a p @ CHR '','' # profile_text (q # ps)"

lemma of_char_digit: "d < 10 \<Longrightarrow> of_char (digit d) = 48 + d"
  by (simp add: digit_def)

lemma digit_of_digit [simp]: "d < 10 \<Longrightarrow> digit_of (digit d) = Some d"
  by (simp add: digit_of_def of_char_digit)

lemma digit_not_space: "d < 10 \<Longrightarrow> \<not> is_space (digit d)"
  by (simp add: is_space_def of_char_digit)

lemma digit_neq: "d < 10 \<Longrightarrow> (of_char c :: nat) < 48 \<or> 57 < (of_char c :: nat) \<Longrightarrow> digit d \<noteq> c"
  using of_char_digit [of d] by auto

lemma strip_id: "s = [] \<or> (\<not> is_space (hd s) \<and> \<not> is_space (last s)) \<Longrightarrow> strip s = s"
proof -
  assume h: "s = [] \<or> (\<not> is_space (hd s) \<and> \<not> is_space (last s))"
  have "dropWhile is_space s = s" using h by (cases s) auto
  moreover have "dropWhile is_space (rev s) = rev s" using h by (cases s rule: rev_cases) auto
  ultimately show ?thesis by (simp add: strip_def)
qed

lemma lower_percent: "lower (percent p) \<noteq> ''nan''" "lower (percent p) \<noteq> ''inf''" "lower (percent p) \<noteq> ''infinity''"
  by (auto simp: percent_def lower_def digit_def Let_def split: if_splits)

lemma percent_div: "p < 100 \<Longrightarrow> p div 10 < 10" "p mod 10 < (10::nat)"
  by auto

lemma read_percent:
  assumes "p < 100"
  shows "py_float_of (percent p) = Some (Finite (real p / 100))"
proof -
  have strip: "strip (percent p) = percent p"
    by (rule strip_id) (simp add: percent_def digit_not_space)
  have sign: "read_sign (percent p) = (False, percent p)"
    using digit_neq [of 0 "CHR ''-''"] digit_neq [of 0 "CHR ''+''"] by (simp add: percent_def)
  have dot: "digit_of (CHR ''.'') = None" by (simp add: digit_of_def)
  have whole: "read_digits 0 0 (percent p) = (0, 1, [CHR ''.'', digit (p div 10), digit (p mod 10)])"
    by (simp add: percent_def dot)
  have "p div 10 * 10 + p mod 10 = p" by simp
  then have fraction: "read_digits 0 0 [digit (p div 10), digit (p mod 10)] = (p, 2, [])"
    using percent_div [of p] assms by (simp add: numeral_2_eq_2)
  have "read_decimal (percent p) = Some (real p / 100)"
    by (simp add: read_decimal_def whole fraction read_exponent_def power_of_ten_def del: read_digits.simps)
  then show ?thesis by (simp add: py_float_of_def strip sign lower_percent)
qed

lemma split_on_free: "sep \<notin> set s \<Longrightarrow> split_on sep s = [s]"
  by (induction s) auto

lemma split_on_append: "sep \<notin> set s \<Longrightarrow> split_on sep (s @ sep # t) = s # split_on sep t"
  by (induction s) auto

lemma aspect_chars:
  "a \<in> set ASPECTS \<Longrightarrow> a \<noteq> [] \<and> CHR '','' \<notin> set a \<and> CHR '':'' \<notin> set a \<and> \<not> is_space (hd a) \<and> \<not> is_space (last a)"
  by (auto simp: ASPECTS_def is_space_def)

lemma percent_comma: "p < 100 \<Longrightarrow> CHR '','' \<notin> set (percent p)"
  using digit_neq [of 0 "CHR '',''"] digit_neq [of "p div 10" "CHR '',''"] digit_neq [of "p mod 10" "CHR '',''"]
    percent_div [of p]
  by (auto simp: percent_def)

lemma entry_comma: "a \<in> set ASPECTS \<Longrightarrow> p < 100 \<Longrightarrow> CHR '','' \<notin> set (profile_entry a p)"
  using aspect_chars [of a] percent_comma [of p] by (simp add: profile_entry_def)

lemma split_profile:
  "(\<forall>(a, p) \<in> set ps. a \<in> set ASPECTS \<and> p < 100) \<Longrightarrow> ps \<noteq> [] \<Longrightarrow>
     split_on (CHR '','') (profile_text ps) = map (\<lambda>(a, p). profile_entry a p) ps"
  by (induction ps rule: profile_text.induct) (simp_all add: entry_comma split_on_free split_on_append)

lemma strip_entry:
  assumes "a \<in> set ASPECTS" and "p < 100"
  shows "strip (profile_entry a p) = profile_entry a p"
proof (rule strip_id)
  have "hd (profile_entry a p) = hd a" "last (profile_entry a p) = digit (p mod 10)"
    using aspect_chars [OF assms(1)] by (simp_all add: profile_entry_def percent_def)
  then show "profile_entry a p = [] \<or> (\<not> is_space (hd (profile_entry a p)) \<and> \<not> is_space (last (profile_entry a p)))"
    using aspect_chars [OF assms(1)] by (simp add: digit_not_space)
qed

lemma parse_entry:
  assumes "a \<in> set (MODE_ASPECTS m)" and "p < 100"
  shows "parse_items m (profile_entry a p # items) pairs = parse_items m items (put a (Finite (real p / 100)) pairs)"
proof -
  have a: "a \<in> set ASPECTS" using assms(1) set_MODE_ASPECTS_subset by auto
  let ?e = "profile_entry a p"
  have name: "takeWhile (\<lambda>c. c \<noteq> CHR '':'') ?e = a" and rest: "drop 1 (dropWhile (\<lambda>c. c \<noteq> CHR '':'') ?e) = percent p"
    using aspect_chars [OF a] by (auto simp: profile_entry_def takeWhile_append dropWhile_append)
  have "strip a = a" "strip (percent p) = percent p"
    using aspect_chars [OF a] by (auto intro: strip_id simp: percent_def digit_not_space)
  moreover have "?e \<noteq> []" "CHR '':'' \<in> set ?e" by (simp_all add: profile_entry_def)
  ultimately show ?thesis
    using assms by (simp only: parse_items.simps strip_entry [OF a assms(2)] name rest Let_def read_percent) simp
qed

lemma put_new: "k \<notin> fst ` set d \<Longrightarrow> put k v d = d @ [(k, v)]"
  by (induction d) auto

definition profile_weights :: "(string \<times> nat) list \<Rightarrow> weights" where
  "profile_weights ps = map (\<lambda>(a, p). (a, Finite (real p / 100))) ps"

lemma parse_entries:
  "(\<forall>(a, p) \<in> set ps. a \<in> set (MODE_ASPECTS m) \<and> p < 100) \<Longrightarrow> distinct (map fst pairs @ map fst ps) \<Longrightarrow>
     parse_items m (map (\<lambda>(a, p). profile_entry a p) ps) pairs = Inr (pairs @ profile_weights ps)"
proof (induction ps arbitrary: pairs)
  case (Cons q ps)
  obtain a p where q: "q = (a, p)" by (cases q)
  have "a \<notin> fst ` set pairs" using Cons.prems(2) q by auto
  then show ?case
    using Cons.prems Cons.IH [of "pairs @ [(a, Finite (real p / 100))]"]
    by (auto simp: q parse_entry put_new profile_weights_def simp del: parse_items.simps)
qed (simp add: profile_weights_def)

lemma sum_profile:
  "fold (\<lambda>(_, x) t. float_add t x) (profile_weights ps) (Finite t) = Finite (t + real (sum_list (map snd ps)) / 100)"
  by (induction ps arbitrary: t) (auto simp: profile_weights_def add_divide_distrib)

lemma parse_weights_facts:
  assumes "parse_weights raw m = Inr ws"
  shows "distinct (map fst ws) \<and> set (map fst ws) = set (MODE_ASPECTS m) \<and>
           \<not> off_one WEIGHTS_SUM_TOLERANCE (sum_values ws)"
  using assms parse_items_keys [of m "split_on (CHR '','') raw" "[]" ws]
  by (auto simp: parse_weights_def Let_def split: sum.splits if_splits)

lemma sum_finite:
  "(\<forall>x \<in> snd ` set ws. \<exists>r. x = Finite r) \<Longrightarrow>
     fold (\<lambda>(_, x) t. float_add t x) ws (Finite t) = Finite (t + (\<Sum>(_, x) \<leftarrow> ws. case x of Finite r \<Rightarrow> r | _ \<Rightarrow> 0))"
  by (induction ws arbitrary: t) auto

lemma percent_profile_parsed:
  assumes "\<forall>(a, p) \<in> set ps. p < 100" and "distinct (map fst ps)" and "set (map fst ps) = set (MODE_ASPECTS m)"
    and "sum_list (map snd ps) = 100"
  shows "parse_weights (profile_text ps) m = Inr (profile_weights ps)"
proof -
  have in_mode: "\<forall>(a, p) \<in> set ps. a \<in> set (MODE_ASPECTS m) \<and> p < 100"
    using assms(1,3) by (force simp: image_iff)
  then have known: "\<forall>(a, p) \<in> set ps. a \<in> set ASPECTS \<and> p < 100"
    using set_MODE_ASPECTS_subset [of m] by auto
  have "ps \<noteq> []" using assms(4) by auto
  from parse_entries [OF in_mode, of "[]"] assms(2) split_profile [OF known this]
  have items: "parse_items m (split_on (CHR '','') (profile_text ps)) [] = Inr (profile_weights ps)" by simp
  have "fst ` set (profile_weights ps) = set (MODE_ASPECTS m)"
    using assms(3) by (force simp: profile_weights_def image_iff)
  moreover have "sum_values (profile_weights ps) = Finite 1"
    using assms(4) by (simp add: sum_values_def sum_profile)
  ultimately show ?thesis
    by (simp add: parse_weights_def items Let_def WEIGHTS_SUM_TOLERANCE_def)
qed

section \<open>Properties\<close>

text \<open>
  A profile written with one entry for each aspect of the mode, in any order, with weights in
  hundredths that sum to 100, is admitted, and every aspect gets its weight.
\<close>

theorem percent_profile_admitted:
  assumes "\<forall>(a, p) \<in> set ps. p < 100" and "distinct (map fst ps)" and "set (map fst ps) = set (MODE_ASPECTS m)"
    and "sum_list (map snd ps) = 100"
  shows "parse_weights (profile_text ps) m = Inr (profile_weights ps)"
  by (rule percent_profile_parsed [OF assms])

theorem percent_profile_admitted_witness:
  "\<exists>ws. parse_weights ''rhythm:0.20,pitch:0.50,dynamics:0.20,vibrato:0.10'' Mixed = Inr ws \<and>
     map_of ws ''pitch'' = Some (Finite (1 / 2))"
proof -
  let ?ps = "[(''rhythm'', 20), (''pitch'', 50), (''dynamics'', 20), (''vibrato'', 10)] :: (string \<times> nat) list"
  have "parse_weights (profile_text ?ps) Mixed = Inr (profile_weights ?ps)"
    by (rule percent_profile_admitted) auto
  moreover have "profile_text ?ps = ''rhythm:0.20,pitch:0.50,dynamics:0.20,vibrato:0.10''"
    by (simp add: profile_entry_def percent_def digit_def char_of_def bit_0)
  ultimately show ?thesis by (intro exI [of _ "profile_weights ?ps"]) (simp add: profile_weights_def)
qed


end
