(* ===== verification/Threads.thy ===== *)
theory Threads
  imports Runner Config
begin

text \<open>
  \<open>runtime/threads.py\<close>: the number of threads the worker uses, from its environment, the CPU quota of
  its control group or the CPU count, and the environment variables that pass it on. The host is a
  record of what the code asks it. The lemmas show the count for every host and that configuring twice
  is the same as once.
\<close>

section \<open>The host\<close>

text \<open>What a read of a file gives: \<open>exists()\<close> is false, the read raises \<open>OSError\<close>, or its text.\<close>

datatype file_text = Absent | Unreadable | Text string

record host =
  file_at :: "string \<Rightarrow> file_text"
  cpu_count :: "nat option"

definition file_exists :: "host \<Rightarrow> string \<Rightarrow> bool" where
  "file_exists h path \<longleftrightarrow> file_at h path \<noteq> Absent"

definition read_text :: "host \<Rightarrow> string \<Rightarrow> string option" where
  "read_text h path = (case file_at h path of Text s \<Rightarrow> Some s | _ \<Rightarrow> None)"

text \<open>\<open>str.split()\<close> without an argument, and \<open>int(s)\<close>, None for a \<open>ValueError\<close>.\<close>

fun words_from :: "string \<Rightarrow> string \<Rightarrow> string list" where
  "words_from w [] = (if w = [] then [] else [w])"
| "words_from w (c # cs) =
     (if is_space c then (if w = [] then [] else [w]) @ words_from [] cs else words_from (w @ [c]) cs)"

definition split_words :: "string \<Rightarrow> string list" where
  "split_words s = words_from [] s"

definition py_int_of :: "string \<Rightarrow> int option" where
  "py_int_of s =
     (let (negative, ds) = read_sign (strip s); (v, n, rest) = read_digits 0 0 ds
      in if 0 < n \<and> rest = [] then Some (if negative then - int v else int v) else None)"

section \<open>The thread count\<close>

definition CGROUP_V2_CPU_MAX :: string where
  "CGROUP_V2_CPU_MAX = ''/sys/fs/cgroup/cpu.max''"

definition CGROUP_V1_QUOTA :: string where
  "CGROUP_V1_QUOTA = ''/sys/fs/cgroup/cpu/cpu.cfs_quota_us''"

definition CGROUP_V1_PERIOD :: string where
  "CGROUP_V1_PERIOD = ''/sys/fs/cgroup/cpu/cpu.cfs_period_us''"

definition THREAD_ENV_VARS :: "string list" where
  "THREAD_ENV_VARS = [''OMP_NUM_THREADS'', ''MKL_NUM_THREADS'', ''OPENBLAS_NUM_THREADS'', ''NUMEXPR_NUM_THREADS'']"

text \<open>The quota and the period, None where the code returns None before it divides.\<close>

definition cgroup_quota :: "host \<Rightarrow> (int \<times> int) option" where
  "cgroup_quota h =
     (if file_exists h CGROUP_V2_CPU_MAX then
        (case map_option split_words (read_text h CGROUP_V2_CPU_MAX) of
           Some [quota_str, period_str] \<Rightarrow>
             if quota_str = ''max'' then None
             else (case (py_int_of quota_str, py_int_of period_str) of
                     (Some quota, Some period) \<Rightarrow> Some (quota, period) | _ \<Rightarrow> None)
         | _ \<Rightarrow> None)
      else if file_exists h CGROUP_V1_QUOTA \<and> file_exists h CGROUP_V1_PERIOD then
        (case Option.bind (read_text h CGROUP_V1_QUOTA) py_int_of of
           None \<Rightarrow> None
         | Some quota \<Rightarrow>
             (case Option.bind (read_text h CGROUP_V1_PERIOD) py_int_of of
                None \<Rightarrow> None | Some period \<Rightarrow> if quota \<le> 0 then None else Some (quota, period)))
      else None)"

definition cgroup_cpu_limit :: "host \<Rightarrow> int option" where
  "cgroup_cpu_limit h =
     (case cgroup_quota h of
        None \<Rightarrow> None
      | Some (quota, period) \<Rightarrow> if period \<le> 0 then None else Some (max 1 (quota div period)))"

text \<open>\<open>os.cpu_count() or 1\<close>.\<close>

definition detect_cpu_count :: "host \<Rightarrow> int" where
  "detect_cpu_count h =
     (case cgroup_cpu_limit h of
        Some limit \<Rightarrow> limit
      | None \<Rightarrow> (case cpu_count h of None \<Rightarrow> 1 | Some n \<Rightarrow> if n = 0 then 1 else int n))"

definition configured_threads :: "env \<Rightarrow> int" where
  "configured_threads e =
     (case py_int_of (strip (case e ''WORKER_CPU_THREADS'' of None \<Rightarrow> ''0'' | Some raw \<Rightarrow> raw)) of
        None \<Rightarrow> 0 | Some n \<Rightarrow> n)"

definition configure_worker_threads :: "host \<Rightarrow> env \<Rightarrow> int \<times> env" where
  "configure_worker_threads h e =
     (let configured = configured_threads e;
          threads = (if configured > 0 then configured else detect_cpu_count h)
      in (threads, fold (\<lambda>var e. e(var \<mapsto> show_int threads)) (THREAD_ENV_VARS @ [''WORKER_CPU_THREADS'']) e))"

section \<open>Printing a number and reading it back\<close>

definition is_digit :: "char \<Rightarrow> bool" where
  "is_digit c \<longleftrightarrow> digit_of c \<noteq> None"

lemma show_nat_digits: "c \<in> set (show_nat n) \<Longrightarrow> is_digit c"
proof (induction n rule: show_nat.induct)
  case (1 n)
  have "is_digit (char_of (48 + n mod 10))"
    using digit_of_digit [of "n mod 10"] by (simp add: is_digit_def digit_def)
  then show ?case using 1 by (subst (asm) (2) show_nat.simps) (auto split: if_splits)
qed

lemma is_digit_not_space: "is_digit c \<Longrightarrow> \<not> is_space c"
  by (auto simp: is_digit_def digit_of_def is_space_def Let_def split: if_splits)

lemma read_digits_append:
  "(\<And>c. c \<in> set s \<Longrightarrow> is_digit c) \<Longrightarrow> d < 10 \<Longrightarrow> read_digits acc n s = (v, k, []) \<Longrightarrow>
     read_digits acc n (s @ [digit d]) = (v * 10 + d, Suc k, [])"
proof (induction acc n s arbitrary: v k rule: read_digits.induct)
  case (2 acc n c)
  then show ?case by (auto simp: is_digit_def)
next
  case (3 acc n c e cs)
  from "3.prems"(1) [of c] obtain x where "digit_of c = Some x" by (auto simp: is_digit_def)
  with 3 show ?case by simp
qed simp

lemma read_show_nat: "\<exists>k. read_digits 0 0 (show_nat n) = (n, Suc k, [])"
proof (induction n rule: show_nat.induct)
  case (1 n)
  show ?case
  proof (cases "n < 10")
    case True
    then show ?thesis using digit_of_digit [OF True]
      by (subst show_nat.simps) (simp add: digit_def)
  next
    case False
    then obtain k where k: "read_digits 0 0 (show_nat (n div 10)) = (n div 10, Suc k, [])" using 1 by auto
    have "read_digits 0 0 (show_nat (n div 10) @ [digit (n mod 10)]) = (n div 10 * 10 + n mod 10, Suc (Suc k), [])"
      by (rule read_digits_append) (auto simp: k intro: show_nat_digits)
    then show ?thesis using False by (subst show_nat.simps) (simp add: digit_def)
  qed
qed

lemma strip_show_nat: "strip (show_nat n) = show_nat n"
  by (rule strip_id) (intro disjI2 conjI is_digit_not_space show_nat_digits [of _ n] list.set_sel(1) last_in_set; simp)

lemma py_int_show: "0 \<le> k \<Longrightarrow> py_int_of (show_int k) = Some k"
proof -
  assume k: "0 \<le> k"
  obtain c cs where s: "show_nat (nat k) = c # cs" by (cases "show_nat (nat k)") auto
  have "is_digit c" using show_nat_digits [of c "nat k"] s by simp
  then have "c \<noteq> CHR ''-''" "c \<noteq> CHR ''+''" by (auto simp: is_digit_def digit_of_def)
  then have "read_sign (show_nat (nat k)) = (False, show_nat (nat k))" by (simp add: s)
  moreover obtain l where "read_digits 0 0 (show_nat (nat k)) = (nat k, Suc l, [])" using read_show_nat by blast
  ultimately show ?thesis using k by (simp add: py_int_of_def show_int_def strip_show_nat)
qed

lemma strip_show_int: "0 \<le> k \<Longrightarrow> strip (show_int k) = show_int k"
  by (simp add: show_int_def strip_show_nat)

lemma configured_show:
  "0 \<le> k \<Longrightarrow> e ''WORKER_CPU_THREADS'' = Some (show_int k) \<Longrightarrow> configured_threads e = k"
  by (simp add: configured_threads_def strip_show_int py_int_show)

lemma fold_set_vars:
  "fold (\<lambda>var e. e(var \<mapsto> v)) vars e = (\<lambda>x. if x \<in> set vars then Some v else e x)"
  by (induction vars arbitrary: e) auto

lemma configure_env:
  "snd (configure_worker_threads h e) x =
     (if x \<in> set (THREAD_ENV_VARS @ [''WORKER_CPU_THREADS''])
      then Some (show_int (fst (configure_worker_threads h e))) else e x)"
  by (simp add: configure_worker_threads_def Let_def fold_set_vars THREAD_ENV_VARS_def)

lemma detect_positive: "1 \<le> detect_cpu_count h"
  by (auto simp: detect_cpu_count_def cgroup_cpu_limit_def split: option.splits if_splits)

lemma configure_positive: "1 \<le> fst (configure_worker_threads h e)"
  using detect_positive [of h] by (simp add: configure_worker_threads_def Let_def)

lemma configure_fixed: "configure_worker_threads h' (snd (configure_worker_threads h e)) = configure_worker_threads h e"
proof -
  let ?k = "fst (configure_worker_threads h e)" and ?e = "snd (configure_worker_threads h e)"
  have k: "1 \<le> ?k" by (rule configure_positive)
  have e: "?e ''WORKER_CPU_THREADS'' = Some (show_int ?k)" by (subst configure_env) simp
  with k have c: "configured_threads ?e = ?k" by (simp add: configured_show)
  have "configure_worker_threads h' ?e =
      (?k, \<lambda>x. if x \<in> set (THREAD_ENV_VARS @ [''WORKER_CPU_THREADS'']) then Some (show_int ?k) else ?e x)"
    using k c by (auto simp: configure_worker_threads_def [of h' ?e] Let_def fold_set_vars fun_eq_iff)
  also have "\<dots> = (?k, ?e)" by (rule arg_cong [of _ _ "Pair ?k"]) (simp add: fun_eq_iff configure_env)
  finally show ?thesis by simp
qed

text \<open>Reading two printed numbers.\<close>

lemma show_int_chars:
  assumes "0 \<le> k" and "c \<in> set (show_int k)"
  shows "is_digit c" "\<not> is_space c"
  using assms show_nat_digits is_digit_not_space by (auto simp: show_int_def)

lemma show_int_neq_max: "0 \<le> k \<Longrightarrow> show_int k \<noteq> ''max''"
  using show_int_chars [of k "CHR ''m''"] by (auto simp: is_digit_def digit_of_def)

lemma show_int_nonempty: "show_int k \<noteq> []"
  by (simp add: show_int_def)

lemma words_from_word:
  "(\<And>c. c \<in> set s \<Longrightarrow> \<not> is_space c) \<Longrightarrow> words_from w (s @ t) = words_from (w @ s) t"
  by (induction s arbitrary: w) auto

lemma split_two_words:
  assumes "0 \<le> a" and "0 \<le> b"
  shows "split_words (show_int a @ CHR '' '' # show_int b @ [CHR 0x0A]) = [show_int a, show_int b]"
proof -
  have "is_space (CHR '' '')" "is_space (CHR 0x0A)" by (simp_all add: is_space_def)
  then show ?thesis
    using assms by (simp add: split_words_def words_from_word show_int_chars show_int_nonempty)
qed

section \<open>Properties\<close>

text \<open>
  On every host and in every environment the worker gets at least one thread; each variable that the
  numeric libraries read, and \<open>WORKER_CPU_THREADS\<close> itself, holds the count, which reads back as that
  count; no other variable changes, and configuring again, even on another host, changes nothing.
\<close>

theorem threads_configured:
  "1 \<le> fst (configure_worker_threads h e) \<and>
   (\<forall>var. snd (configure_worker_threads h e) var =
      (if var \<in> insert ''WORKER_CPU_THREADS'' (set BLAS_THREAD_ENV_VARS)
       then Some (show_int (fst (configure_worker_threads h e))) else e var)) \<and>
   py_int_of (show_int (fst (configure_worker_threads h e))) = Some (fst (configure_worker_threads h e)) \<and>
   configure_worker_threads h' (snd (configure_worker_threads h e)) = configure_worker_threads h e"
proof -
  have "THREAD_ENV_VARS = BLAS_THREAD_ENV_VARS"
    by (simp add: THREAD_ENV_VARS_def BLAS_THREAD_ENV_VARS_def)
  with configure_env [of h e] configure_positive [of h e] configure_fixed [of h' h e] show ?thesis
    by (simp add: py_int_show)
qed

text \<open>
  A quota of the control group bounds the count the worker detects: with version 2 of the
  interface the count is the quota in whole CPUs, but at least one.
\<close>

theorem cgroup_quota_respected:
  assumes "file_at h CGROUP_V2_CPU_MAX = Text (show_int quota @ CHR '' '' # show_int period @ [CHR 0x0A])"
    and "0 \<le> quota" and "0 < period" and "configured_threads e \<le> 0"
  shows "fst (configure_worker_threads h e) = max 1 (quota div period)"
proof -
  have "0 \<le> period" using assms(3) by simp
  then have "cgroup_cpu_limit h = Some (max 1 (quota div period))"
    using assms(2,3)
    by (simp add: cgroup_cpu_limit_def cgroup_quota_def file_exists_def read_text_def assms(1) split_two_words
        show_int_neq_max py_int_show)
  then show ?thesis using assms(4) by (simp add: configure_worker_threads_def Let_def detect_cpu_count_def)
qed

theorem cgroup_quota_respected_witness:
  "fst (configure_worker_threads
      \<lparr>file_at = (\<lambda>p. if p = CGROUP_V2_CPU_MAX then Text (show_int 250000 @ CHR '' '' # show_int 100000 @ [CHR 0x0A]) else Absent),
       cpu_count = Some 16\<rparr> [''WORKER_CPU_THREADS'' \<mapsto> ''auto'']) = 2"
  by (subst cgroup_quota_respected [of _ 250000 100000])
    (simp_all add: configured_threads_def py_int_of_def strip_def is_space_def digit_of_def)

end
