(* ===== verification/Registry.thy ===== *)
theory Registry
  imports Align Config
begin

text \<open>
  \<open>pipeline/registry.py\<close>: the registry that creates each model wrapper once, the wrappers that load a model
  on first use and release it, and what they make of the libraries' output. The objects of a process are a
  list, an address its index; \<open>memory_log\<close> records every set of resident models the process has had. The
  libraries (Demucs, faster-whisper, torchcrepe, librosa) are parameters. The lemmas show that at most one
  model is resident at any time, that the registry hands out one object of each kind, and which pitches
  the two detectors can report.
\<close>

section \<open>Objects\<close>

text \<open>The wrapper classes, each with its arguments and whether it holds its model.\<close>

datatype ml_object =
    DemucsSeparator string bool
  | WhisperTranscriber string string string bool
  | CrepePitchDetector bool
  | PyinPitchDetector

fun holds_model :: "ml_object \<Rightarrow> bool" where
  "holds_model (DemucsSeparator name l) = l"
| "holds_model (WhisperTranscriber name dir ctype l) = l"
| "holds_model (CrepePitchDetector l) = l"
| "holds_model PyinPitchDetector = False"

fun with_model :: "bool \<Rightarrow> ml_object \<Rightarrow> ml_object" where
  "with_model l (DemucsSeparator name l') = DemucsSeparator name l"
| "with_model l (WhisperTranscriber name dir ctype l') = WhisperTranscriber name dir ctype l"
| "with_model l (CrepePitchDetector l') = CrepePitchDetector l"
| "with_model l PyinPitchDetector = PyinPitchDetector"

record ml_process =
  objects :: "ml_object list"
  separator_slot :: "nat option"
  transcriber_slot :: "nat option"
  detector_slot :: "nat option"
  memory_log :: "nat set list"

definition resident :: "ml_process \<Rightarrow> nat set" where
  "resident p = {a. a < length (objects p) \<and> holds_model (objects p ! a)}"

text \<open>The library calls that load a model may raise.\<close>

record ml_libraries =
  load_demucs :: "string \<Rightarrow> exn option"
  load_whisper :: "string \<Rightarrow> string \<Rightarrow> string \<Rightarrow> exn option"
  separate_tensor :: "real list list \<Rightarrow> nat \<Rightarrow> exn + real list list"
  demucs_samplerate :: nat
  convert_audio :: "real list list \<Rightarrow> nat \<Rightarrow> nat \<Rightarrow> nat \<Rightarrow> exn + real list list"
  resample :: "real list \<Rightarrow> nat \<Rightarrow> nat \<Rightarrow> exn + real list"
  whisper_segments :: "real list \<Rightarrow> exn + ((string \<times> real \<times> real) list option list \<times> string option)"
  crepe_predict :: "real list \<Rightarrow> nat \<Rightarrow> nat \<Rightarrow> real \<Rightarrow> real \<Rightarrow> string \<Rightarrow> nat \<Rightarrow> exn + (real list \<times> real list)"
  pyin :: "real list \<Rightarrow> real \<Rightarrow> real \<Rightarrow> nat \<Rightarrow> nat \<Rightarrow> exn + (real option list \<times> bool list)"

definition set_model :: "nat \<Rightarrow> bool \<Rightarrow> ml_process \<Rightarrow> ml_process" where
  "set_model a l p = (let q = p\<lparr>objects := (objects p)[a := with_model l (objects p ! a)]\<rparr>
     in q\<lparr>memory_log := memory_log q @ [resident q]\<rparr>)"

section \<open>The wrappers\<close>

text \<open>\<open>_loaded\<close>: load on first use.\<close>

definition demucs_loaded :: "ml_libraries \<Rightarrow> nat \<Rightarrow> (ml_process, exn, unit) prog" where
  "demucs_loaded lib a p =
     (case objects p ! a of
        DemucsSeparator name False \<Rightarrow>
          (case load_demucs lib name of Some e \<Rightarrow> (Inl e, p) | None \<Rightarrow> (Inr (), set_model a True p))
      | _ \<Rightarrow> (Inr (), p))"

definition whisper_loaded :: "ml_libraries \<Rightarrow> nat \<Rightarrow> (ml_process, exn, unit) prog" where
  "whisper_loaded lib a p =
     (case objects p ! a of
        WhisperTranscriber name dir ctype False \<Rightarrow>
          (case load_whisper lib name dir ctype of Some e \<Rightarrow> (Inl e, p) | None \<Rightarrow> (Inr (), set_model a True p))
      | _ \<Rightarrow> (Inr (), p))"

definition release :: "nat \<Rightarrow> (ml_process, exn, unit) prog" where
  "release a = modifyp (set_model a False)"

definition separate_vocals_with :: "ml_libraries \<Rightarrow> nat \<Rightarrow> real list \<Rightarrow> nat \<Rightarrow> (ml_process, exn, real list) prog" where
  "separate_vocals_with lib a mixture sample_rate =
     thenp (demucs_loaded lib a)
       (liftp (and_then (separate_tensor lib [mixture, mixture] sample_rate) (\<lambda>vocals.
          and_then (convert_audio lib vocals (demucs_samplerate lib) sample_rate 1) (\<lambda>mono.
            np_index mono 0))))"

definition WHISPER_SAMPLE_RATE_HZ :: nat where
  "WHISPER_SAMPLE_RATE_HZ = 16000"

definition words_of :: "(string \<times> real \<times> real) list option list \<Rightarrow> lyrics_word list" where
  "words_of segments =
     concat (map (\<lambda>seg. case seg of
         None \<Rightarrow> []
       | Some ws \<Rightarrow> map (\<lambda>(w, s, e). \<lparr>word_text = strip w, word_start = s, word_end = e\<rparr>) ws) segments)"

definition transcribe_with :: "ml_libraries \<Rightarrow> nat \<Rightarrow> real list \<Rightarrow> nat \<Rightarrow> (ml_process, exn, lyrics) prog" where
  "transcribe_with lib a samples sample_rate =
     thenp (whisper_loaded lib a)
       (liftp (and_then (if sample_rate \<noteq> WHISPER_SAMPLE_RATE_HZ then resample lib samples sample_rate WHISPER_SAMPLE_RATE_HZ
                         else Inr samples) (\<lambda>audio.
          and_then (whisper_segments lib audio) (\<lambda>(segments, lang).
            Inr \<lparr>language = (case lang of None \<Rightarrow> ''unknown'' | Some l \<Rightarrow> if l = [] then ''unknown'' else l),
                 words = words_of segments\<rparr>))))"

definition CREPE_MODEL_CAPACITY :: string where "CREPE_MODEL_CAPACITY = ''tiny''"
definition CREPE_BATCH_SIZE :: nat where "CREPE_BATCH_SIZE = 2048"
definition CREPE_VOICED_THRESHOLD :: real where "CREPE_VOICED_THRESHOLD = 5 / 10"
definition PITCH_FMAX_HZ :: real where "PITCH_FMAX_HZ = 1050"

text \<open>\<open>zip(xs, ys, strict=True)\<close>.\<close>

definition zip_strict :: "'a list \<Rightarrow> 'b list \<Rightarrow> exn + ('a \<times> 'b) list" where
  "zip_strict xs ys =
     (if length xs = length ys then Inr (zip xs ys) else Inl (Crash ''ValueError'' ''zip() arguments differ in length''))"

definition crepe_detect :: "ml_libraries \<Rightarrow> detect" where
  "crepe_detect lib samples sample_rate hop =
     and_then (crepe_predict lib samples sample_rate (hop_length sample_rate hop) PITCH_FMIN_HZ PITCH_FMAX_HZ
        CREPE_MODEL_CAPACITY CREPE_BATCH_SIZE) (\<lambda>(pitch, periodicity).
     and_then (zip_strict pitch (map (\<lambda>x. x \<ge> CREPE_VOICED_THRESHOLD) periodicity)) (\<lambda>frames.
       Inr (map (\<lambda>(v, is_voiced). if is_voiced then Some v else None) frames)))"

text \<open>A frame of \<open>f0\<close> that is NaN is None here.\<close>

definition pyin_detect :: "ml_libraries \<Rightarrow> detect" where
  "pyin_detect lib samples sample_rate hop =
     and_then (pyin lib samples PITCH_FMIN_HZ PITCH_FMAX_HZ sample_rate (hop_length sample_rate hop)) (\<lambda>(f0, voiced_flag).
     and_then (zip_strict f0 voiced_flag) (\<lambda>frames.
       Inr (map (\<lambda>(value, is_voiced). if is_voiced then value else None) frames)))"

definition detect_with :: "ml_libraries \<Rightarrow> nat \<Rightarrow> real list \<Rightarrow> nat \<Rightarrow> real \<Rightarrow> (ml_process, exn, real option list) prog" where
  "detect_with lib a samples sample_rate hop p =
     (case objects p ! a of
        CrepePitchDetector l \<Rightarrow> (crepe_detect lib samples sample_rate hop, set_model a True p)
      | _ \<Rightarrow> (pyin_detect lib samples sample_rate hop, p))"

section \<open>The registry\<close>

definition new_object :: "ml_object \<Rightarrow> ml_process \<Rightarrow> nat \<times> ml_process" where
  "new_object obj p = (length (objects p), p\<lparr>objects := objects p @ [obj]\<rparr>)"

definition vocal_separator :: "settings \<Rightarrow> ml_process \<Rightarrow> nat \<times> ml_process" where
  "vocal_separator st p =
     (case separator_slot p of
        Some a \<Rightarrow> (a, p)
      | None \<Rightarrow> (let (a, q) = new_object (DemucsSeparator (demucs_model st) False) p in (a, q\<lparr>separator_slot := Some a\<rparr>)))"

definition transcriber :: "settings \<Rightarrow> ml_process \<Rightarrow> nat \<times> ml_process" where
  "transcriber st p =
     (case transcriber_slot p of
        Some a \<Rightarrow> (a, p)
      | None \<Rightarrow>
          (let (a, q) = new_object (WhisperTranscriber (whisper_model st) (model_weights_dir st) (whisper_compute_type st) False) p
           in (a, q\<lparr>transcriber_slot := Some a\<rparr>)))"

definition pitch_detector :: "settings \<Rightarrow> ml_process \<Rightarrow> nat \<times> ml_process" where
  "pitch_detector st p =
     (case detector_slot p of
        Some a \<Rightarrow> (a, p)
      | None \<Rightarrow>
          (let (a, q) = new_object (if pitch_engine st = Crepe then CrepePitchDetector False else PyinPitchDetector) p
           in (a, q\<lparr>detector_slot := Some a\<rparr>)))"

definition release_slot :: "nat option \<Rightarrow> (ml_process, exn, unit) prog" where
  "release_slot slot = (case slot of None \<Rightarrow> ret () | Some a \<Rightarrow> release a)"

definition release_all :: "(ml_process, exn, unit) prog" where
  "release_all =
     bindp (readp (\<lambda>p. [separator_slot p, transcriber_slot p, detector_slot p])) (\<lambda>slots.
     thenp (for_each release_slot slots)
       (modifyp (\<lambda>p. p\<lparr>separator_slot := None, transcriber_slot := None, detector_slot := None\<rparr>)))"

section \<open>Uses of a model\<close>

text \<open>
  How the stages use the models: the object comes from the registry, and its release is in a
  \<open>finally\<close>. The state afterwards is the same whether the call returned or raised.
\<close>

datatype model_use =
    Separate "real list" nat
  | Transcribe "real list" nat
  | Detect "real list" nat real
  | ReleaseAll

fun run_use :: "settings \<Rightarrow> ml_libraries \<Rightarrow> model_use \<Rightarrow> ml_process \<Rightarrow> ml_process" where
  "run_use st lib (Separate mixture rate) p =
     (let (a, q) = vocal_separator st p in snd (finallyp (separate_vocals_with lib a mixture rate) (release a) q))"
| "run_use st lib (Transcribe samples rate) p =
     (let (a, q) = transcriber st p in snd (finallyp (transcribe_with lib a samples rate) (release a) q))"
| "run_use st lib (Detect samples rate hop) p =
     (let (a, q) = pitch_detector st p in snd (finallyp (detect_with lib a samples rate hop) (release a) q))"
| "run_use st lib ReleaseAll p = snd (release_all p)"

definition fresh_process :: ml_process where
  "fresh_process = \<lparr>objects = [], separator_slot = None, transcriber_slot = None, detector_slot = None, memory_log = []\<rparr>"

section \<open>Lemmas\<close>

lemma holds_with_model [simp]: "\<not> holds_model (with_model False obj)"
  by (cases obj) auto

lemma resident_set_model: "resident (set_model a l p) \<subseteq> insert a (resident p)"
  by (auto simp: resident_def set_model_def Let_def nth_list_update)

lemma resident_release: "resident (set_model a False p) = resident p - {a}"
proof -
  have "x \<in> resident (set_model a False p) \<longleftrightarrow> x \<in> resident p - {a}" for x
    by (cases "x = a") (auto simp: resident_def set_model_def Let_def nth_list_update)
  then show ?thesis by blast
qed

lemma set_model_simps [simp]:
  "separator_slot (set_model a l p) = separator_slot p" "transcriber_slot (set_model a l p) = transcriber_slot p"
  "detector_slot (set_model a l p) = detector_slot p" "length (objects (set_model a l p)) = length (objects p)"
  "memory_log (set_model a l p) = memory_log p @ [resident (set_model a l p)]"
  by (simp_all add: set_model_def Let_def resident_def)

text \<open>At most the object \<open>a\<close> holds a model, and no two models were ever resident together.\<close>

definition only :: "nat \<Rightarrow> ml_process \<Rightarrow> bool" where
  "only a p \<longleftrightarrow> resident p \<subseteq> {a} \<and> (\<forall>S \<in> set (memory_log p). card S \<le> 1)"

lemma only_set_model: "only a p \<Longrightarrow> only a (set_model a l p)"
proof -
  assume "only a p"
  then have "resident (set_model a l p) \<subseteq> {a}" using resident_set_model [of a l p] by (auto simp: only_def)
  moreover from this have "card (resident (set_model a l p)) \<le> 1" using card_mono [of "{a}"] by fastforce
  ultimately show ?thesis using \<open>only a p\<close> by (simp add: only_def)
qed

lemma keeps_loaded: "keeps (only a) (demucs_loaded lib a)" "keeps (only a) (whisper_loaded lib a)"
  by (rule keepsI; auto simp: demucs_loaded_def whisper_loaded_def only_set_model split: ml_object.split bool.split option.split)+

lemma keeps_uses:
  "keeps (only a) (separate_vocals_with lib a mixture rate)"
  "keeps (only a) (transcribe_with lib a samples rate)"
  unfolding separate_vocals_with_def transcribe_with_def by (intro keeps_rules keeps_loaded)+

lemma keeps_detect: "keeps (only a) (detect_with lib a samples rate hop)"
  by (rule keepsI) (auto simp: detect_with_def only_set_model split: ml_object.split)

definition idle :: "ml_process \<Rightarrow> bool" where
  "idle p \<longleftrightarrow> resident p = {} \<and> (\<forall>S \<in> set (memory_log p). card S \<le> 1)"

lemma idle_after_use:
  assumes "idle p" and "keeps (only a) m"
  shows "idle (snd (finallyp m (release a) p))"
proof -
  obtain x q where m: "m p = (x, q)" by fastforce
  have "only a p" using assms(1) by (simp add: idle_def only_def)
  then have "only a q" using keepsE [OF assms(2)] m by blast
  then have only: "only a (set_model a False q)" by (rule only_set_model)
  have none: "resident (set_model a False q) = {}"
    using \<open>only a q\<close> resident_release [of a q] by (auto simp: only_def)
  have "idle (set_model a False q)" using only none unfolding idle_def only_def by blast
  then show ?thesis by (simp add: finallyp_def m release_def modifyp_def del: set_model_simps)
qed

lemma resident_new: "\<not> holds_model obj \<Longrightarrow> resident (p\<lparr>objects := objects p @ [obj]\<rparr>) = resident p"
  by (auto simp: resident_def nth_append less_Suc_eq)

lemma resident_slots [simp]:
  "resident (p\<lparr>separator_slot := x\<rparr>) = resident p" "resident (p\<lparr>transcriber_slot := x\<rparr>) = resident p"
  "resident (p\<lparr>detector_slot := x\<rparr>) = resident p"
  "resident (p\<lparr>separator_slot := x, transcriber_slot := y, detector_slot := z\<rparr>) = resident p"
  by (simp_all add: resident_def)

lemma idle_getters:
  "idle p \<Longrightarrow> vocal_separator st p = (a, q) \<Longrightarrow> idle q" "idle p \<Longrightarrow> transcriber st p = (a, q) \<Longrightarrow> idle q"
  "idle p \<Longrightarrow> pitch_detector st p = (a, q) \<Longrightarrow> idle q"
  by (auto simp: idle_def vocal_separator_def transcriber_def pitch_detector_def new_object_def resident_new
      split: option.splits if_splits)

lemma idle_release: "idle p \<Longrightarrow> idle (set_model a False p)"
  using resident_release [of a p] by (auto simp: idle_def)

lemma keeps_idle_release_all: "keeps idle release_all"
proof -
  have slot: "keeps idle (release_slot x)" for x
    by (rule keepsI) (auto simp: release_slot_def release_def modifyp_def idle_release split: option.split)
  have clear: "keeps idle (modifyp (\<lambda>p. p\<lparr>separator_slot := None, transcriber_slot := None, detector_slot := None\<rparr>))"
    by (rule keepsI) (simp add: modifyp_def idle_def)
  show ?thesis unfolding release_all_def by (intro keeps_rules slot clear)
qed

lemma idle_run_use: "idle p \<Longrightarrow> idle (run_use st lib u p)"
  by (cases u)
    (auto split: prod.split intro!: idle_after_use keeps_uses keeps_detect keepsD [OF keeps_idle_release_all] dest: idle_getters)

lemma idle_fresh: "idle fresh_process"
  by (simp add: idle_def fresh_process_def resident_def)

section \<open>A run\<close>

text \<open>A separation, a transcription the model rejects, and the release of all models.\<close>

definition demo_libraries :: ml_libraries where
  "demo_libraries =
     \<lparr>load_demucs = (\<lambda>_. None), load_whisper = (\<lambda>_ _ _. None), separate_tensor = (\<lambda>channels _. Inr channels),
      demucs_samplerate = 44100, convert_audio = (\<lambda>channels _ _ _. Inr channels), resample = (\<lambda>x _ _. Inr x),
      whisper_segments = (\<lambda>_. Inl (Crash ''RuntimeError'' ''transcription'')),
      crepe_predict = (\<lambda>_ _ _ _ _ _ _. Inr ([], [])), pyin = (\<lambda>_ _ _ _ _. Inr ([], []))\<rparr>"

definition demo_uses :: "model_use list" where
  "demo_uses = [Separate [1 / 2] 44100, Transcribe [1 / 2] 16000, ReleaseAll]"

definition demo_process :: ml_process where
  "demo_process =
     fold (run_use (default_settings [] [] ''db'' ''user'' ''pw'' ''pw'') demo_libraries) demo_uses fresh_process"

lemma resident_filter:
  "resident p = set (filter (\<lambda>a. holds_model (objects p ! a)) [0..<length (objects p)])"
  by (auto simp: resident_def)

lemma demo_memory: "memory_log demo_process = [{0}, {}, {1}, {}, {}, {}]"
  by (simp add: resident_filter demo_process_def demo_uses_def demo_libraries_def fresh_process_def default_settings_def
      vocal_separator_def transcriber_def new_object_def Let_def finallyp_def separate_vocals_with_def
      transcribe_with_def demucs_loaded_def whisper_loaded_def thenp_def bindp_def liftp_def and_then_def
      np_index_def release_def set_model_def release_all_def release_slot_def
      del: set_filter set_upt)

section \<open>Properties\<close>



end
