(* ===== verification/Sequential.thy ===== *)
theory Sequential
  imports Runner
begin

text \<open>
  A specification of the runner: the stages of a job run one after the other, each once, on a context that
  holds the results before it. The lemmas show that the runner of \<open>pipeline/runner.py\<close>, with its child
  processes, retries and parallel groups, saves exactly the results of this specification when the children
  can run to their end, its stages are deterministic and the members of a group do not read each other.
\<close>

section \<open>The specification\<close>

text \<open>What a stage computes when its child runs to the end, seen from the parent.\<close>

definition isolated :: "'c pipeline_stage \<Rightarrow> 'c \<Rightarrow> exn + stage_result" where
  "isolated s c =
     (case unpickle (stage_worker s 0 Map.empty c) of
        Inl e \<Rightarrow> Inl e | Inr (Inl e) \<Rightarrow> Inl (Raised e) | Inr (Inr r) \<Rightarrow> Inr r)"

fun in_order :: "('c \<Rightarrow> stage_result \<Rightarrow> 'c) \<Rightarrow> 'c pipeline_stage list \<Rightarrow> 'c \<Rightarrow> exn + stage_result list" where
  "in_order with_result [] c = Inr []"
| "in_order with_result (s # ss) c =
     (case settled s (isolated s c) of
        Inl e \<Rightarrow> Inl e
      | Inr r \<Rightarrow>
          (case in_order with_result ss (with_result c r) of Inl e \<Rightarrow> Inl e | Inr rs \<Rightarrow> Inr (r # rs)))"

text \<open>The stage does not depend on which child it is, nor on the environment.\<close>

definition deterministic :: "'c pipeline_stage \<Rightarrow> bool" where
  "deterministic s \<longleftrightarrow> (\<forall>pid env c. stage_run s pid env c = stage_run s 0 Map.empty c)"

text \<open>The members of an entry do not read what the entry records.\<close>

definition independent :: "('c \<Rightarrow> stage_result \<Rightarrow> 'c) \<Rightarrow> 'c entry \<Rightarrow> bool" where
  "independent with_result e \<longleftrightarrow>
     (\<forall>s \<in> set (members e). \<forall>pid env c r. stage r \<in> stage_name ` set (members e) \<longrightarrow>
        stage_run s pid env (with_result c r) = stage_run s pid env c)"

text \<open>
  Ports that work: each call succeeds in a state with \<open>I\<close>, keeps \<open>I\<close>, and only a save changes what is
  observed, adding its result with \<open>add\<close>. The observation is of the client's part of the state.
\<close>

definition working_ports ::
  "('z \<Rightarrow> bool) \<Rightarrow> ('z \<Rightarrow> 'o) \<Rightarrow> (stage_result \<Rightarrow> 'o \<Rightarrow> 'o) \<Rightarrow> string \<Rightarrow> ('z os_state_scheme) run_ports \<Rightarrow> bool" where
  "working_ports I obs add job ports \<longleftrightarrow>
     (\<forall>w. I (os_state.more w) \<longrightarrow>
        (\<forall>n i t. \<exists>w'. publish_stage ports job n i t w = (Inr (), w') \<and> I (os_state.more w') \<and>
           obs (os_state.more w') = obs (os_state.more w)) \<and>
        (\<forall>n i t. \<exists>w'. mark_processing ports n i t w = (Inr (), w') \<and> I (os_state.more w') \<and>
           obs (os_state.more w') = obs (os_state.more w)) \<and>
        (\<forall>r n i t. \<exists>w'. save_stage_progress ports r n i t w = (Inr (), w') \<and> I (os_state.more w') \<and>
           obs (os_state.more w') = add r (obs (os_state.more w))) \<and>
        (\<exists>w'. should_stop ports w = (Inr False, w') \<and> I (os_state.more w') \<and>
           obs (os_state.more w') = obs (os_state.more w)))"

definition all_finish :: "(nat \<Rightarrow> child_fate) \<Rightarrow> bool" where
  "all_finish fate \<longleftrightarrow> (\<forall>pid. fate pid = Finishes)"

section \<open>One stage\<close>

lemma stage_worker_deterministic: "deterministic s \<Longrightarrow> stage_worker s pid env c = stage_worker s 0 Map.empty c"
proof -
  assume "deterministic s"
  then have "stage_run s pid env c = stage_run s 0 Map.empty c" unfolding deterministic_def by blast
  then show ?thesis by (simp only: stage_worker_def)
qed

lemma join_finishes:
  "deterministic s \<Longrightarrow> all_finish fate \<Longrightarrow> join_subprocess fate s c p = unpickle (stage_worker s 0 Map.empty c)"
  using stage_worker_deterministic [of s "fst p" "snd p" c] by (simp add: join_subprocess_def all_finish_def)

lemma attempt_finishes: "deterministic s \<Longrightarrow> all_finish fate \<Longrightarrow> attempt_outcome fate s c env pid = isolated s c"
  by (simp add: attempt_outcome_def isolated_def join_finishes)

lemma run_stage_isolated:
  assumes "deterministic s" and "all_finish fate"
  shows "\<exists>w'. run_stage_with_retries fate s c w = (settled s (isolated s c), w') \<and> os_state.more w' = os_state.more w"
  by (simp add: run_stage_with_retries_eq attempts_def attempt_finishes [OF assms] Let_def)

section \<open>A group\<close>

lemma start_each:
  assumes "all_finish fate"
  shows "\<exists>hs w'. map_each (start_process fate) ss w = (Inr hs, w') \<and> length hs = length ss \<and>
    environ w' = environ w \<and> os_state.more w' = os_state.more w"
proof (induction ss arbitrary: w)
  case (Cons s ss)
  have "start_process fate s w = (Inr (length (spawned w), environ w), started_children (Suc 0) (stage_name s) w)"
    using assms by (simp add: start_process_eq all_finish_def)
  moreover obtain hs w' where "map_each (start_process fate) ss (started_children (Suc 0) (stage_name s) w) = (Inr hs, w')"
    "length hs = length ss" "environ w' = environ w" "os_state.more w' = os_state.more w"
    using Cons [of "started_children (Suc 0) (stage_name s) w"] by auto
  ultimately show ?case by (simp add: bindp_def)
qed simp

lemma join_each:
  assumes "\<forall>s \<in> set ss. deterministic s" and "all_finish fate" and "length hs = length ss"
    and "\<forall>s \<in> set ss. unpickle (stage_worker s 0 Map.empty c) = Inr (f s)"
  shows "map_each (\<lambda>(s, process). bindp (liftp (join_subprocess fate s c process)) (\<lambda>outcome. ret (stage_name s, outcome)))
      (zip ss hs) w = (Inr (map (\<lambda>s. (stage_name s, f s)) ss), w)"
  using assms(3,1,4)
proof (induction hs ss rule: list_induct2)
  case (Cons h hs s ss)
  have "join_subprocess fate s c h = Inr (f s)"
    using Cons.prems by (simp add: join_finishes [OF _ assms(2)])
  then show ?case using Cons by (simp add: bindp_def liftp_def)
qed simp

lemma start_group_isolated:
  assumes "\<forall>s \<in> set ss. deterministic s" and "all_finish fate"
    and "\<forall>s \<in> set ss. unpickle (stage_worker s 0 Map.empty c) = Inr (f s)"
  shows "\<exists>w'. start_group fate ss c w = (Inr (map_of (rev (map (\<lambda>s. (stage_name s, f s)) ss))), w') \<and>
    os_state.more w' = os_state.more w"
proof -
  let ?w1 = "w\<lparr>environ := single_threaded (environ w)\<rparr>"
  obtain hs w2 where hs: "map_each (start_process fate) ss ?w1 = (Inr hs, w2)" "length hs = length ss"
    "environ w2 = single_threaded (environ w)" "os_state.more w2 = os_state.more w"
    using start_each [OF assms(2), of ss ?w1] by auto
  let ?start = "finallyp (map_each (start_process fate) ss) (restore_env (map (\<lambda>var. (var, environ w var)) BLAS_THREAD_ENV_VARS))"
  have fin: "?start ?w1 = (Inr hs, w2\<lparr>environ := environ w\<rparr>)"
    by (simp add: finallyp_def hs restore_env_eq [OF hs(3)])
  show ?thesis
    using hs(4) join_each [OF assms(1,2) hs(2) assms(3), of "w2\<lparr>environ := environ w\<rparr>"]
    by (simp add: start_group_def bindp_Inr [OF force_single_threaded_blas_eq] bindp_Inr [where m = ?start, OF fin] bindp_Inr)
qed

lemma settled_InrD:
  assumes "settled s (isolated s c) = Inr r"
  obtains x where "unpickle (stage_worker s 0 Map.empty c) = Inr x"
    "x = Inr r \<or> (\<exists>e. x = Inl e \<and> \<not> required s \<and> r = skipped_result s e)"
  using assms that
  by (auto simp: isolated_def settled_def unpickle_def split: sum.splits exn.splits if_splits
      simp del: is_logical_iff is_transient_iff)

lemma settle_member_isolated:
  assumes "deterministic s" and "all_finish fate" and "settled s (isolated s c) = Inr r"
    and "outcomes (stage_name s) = Some x" and "unpickle (stage_worker s 0 Map.empty c) = Inr x"
  shows "\<exists>w'. settle_member fate c outcomes s w = (Inr r, w') \<and> os_state.more w' = os_state.more w"
proof -
  obtain w' where w': "run_stage_with_retries fate s c w = (Inr r, w')" "os_state.more w' = os_state.more w"
    using run_stage_isolated [OF assms(1,2), of c w] assms(3) by auto
  have "x = Inr r \<or> (\<exists>e. x = Inl e \<and> \<not> required s \<and> r = skipped_result s e)"
    using assms(3,5) by (elim settled_InrD) simp
  then show ?thesis
    using w' assms(4) by (auto simp: settle_member_def lookup_def bindp_def simp del: is_logical_iff)
qed

lemma map_of_rev_names:
  "distinct (map f xs) \<Longrightarrow> x \<in> set xs \<Longrightarrow> map_of (rev (map (\<lambda>x. (f x, g x)) xs)) (f x) = Some (g x)"
  by (rule map_of_is_SomeI) (auto simp: rev_map comp_def distinct_rev simp flip: rev_map)

lemma map_each_step:
  "f x w = (Inr y, w1) \<Longrightarrow> map_each f xs w1 = (Inr ys, w2) \<Longrightarrow> map_each f (x # xs) w = (Inr (y # ys), w2)"
  by (simp add: bindp_Inr)

lemma settle_each:
  assumes "all_finish fate"
    and "\<forall>s \<in> set ss. deterministic s \<and> settled s (isolated s c) = Inr (R s) \<and>
           (\<exists>x. outcomes (stage_name s) = Some x \<and> unpickle (stage_worker s 0 Map.empty c) = Inr x)"
  shows "\<exists>w'. map_each (\<lambda>s. bindp (settle_member fate c outcomes s) (\<lambda>r. ret (stage_name s, r))) ss w =
      (Inr (map (\<lambda>s. (stage_name s, R s)) ss), w') \<and> os_state.more w' = os_state.more w"
  using assms(2)
proof (induction ss arbitrary: w)
  case (Cons s ss)
  then obtain x where x: "deterministic s" "settled s (isolated s c) = Inr (R s)"
    "outcomes (stage_name s) = Some x" "unpickle (stage_worker s 0 Map.empty c) = Inr x" by auto
  obtain w1 where w1: "settle_member fate c outcomes s w = (Inr (R s), w1)" "os_state.more w1 = os_state.more w"
    using settle_member_isolated [of s fate c "R s" outcomes x w, OF x(1) assms(1) x(2,3,4)] by blast
  have "\<forall>s \<in> set ss. deterministic s \<and> settled s (isolated s c) = Inr (R s) \<and>
      (\<exists>x. outcomes (stage_name s) = Some x \<and> unpickle (stage_worker s 0 Map.empty c) = Inr x)"
    using Cons.prems by simp
  from Cons.IH [OF this, of w1] obtain w2 where "map_each (\<lambda>s. bindp (settle_member fate c outcomes s) (\<lambda>r. ret (stage_name s, r))) ss w1 =
      (Inr (map (\<lambda>s. (stage_name s, R s)) ss), w2)" "os_state.more w2 = os_state.more w1"
    by blast
  note rest = this
  let ?F = "\<lambda>s. bindp (settle_member fate c outcomes s) (\<lambda>r. ret (stage_name s, r))"
  have "?F s w = (Inr (stage_name s, R s), w1)" using w1(1) by (simp add: bindp_Inr)
  then have "map_each ?F (s # ss) w = (Inr (map (\<lambda>s. (stage_name s, R s)) (s # ss)), w2)"
    using map_each_step [of ?F s w _ w1 ss _ w2] rest(1) by simp
  moreover have "os_state.more w2 = os_state.more w" using w1(2) rest(2) by simp
  ultimately show ?case by blast
qed simp

lemma run_entry_isolated:
  assumes "all_finish fate" and "distinct (map stage_name (members e))"
    and "\<forall>s \<in> set (members e). deterministic s \<and> settled s (isolated s c) = Inr (R s)"
  shows "\<exists>results w'. run_entry_with_retries fate e c w = (Inr results, w') \<and> os_state.more w' = os_state.more w \<and>
    (\<forall>s \<in> set (members e). results (stage_name s) = Some (R s))"
proof (cases e)
  case (Single s)
  then have s: "deterministic s" "settled s (isolated s c) = Inr (R s)" using assms(3) by auto
  then show ?thesis using run_stage_isolated [OF s(1) assms(1), of c w] Single by (auto simp: bindp_def)
next
  case (ParallelGroup ss)
  have "\<forall>s \<in> set ss. \<exists>x. unpickle (stage_worker s 0 Map.empty c) = Inr x"
    using assms(3) ParallelGroup by (auto elim: settled_InrD)
  then obtain f where f: "\<forall>s \<in> set ss. unpickle (stage_worker s 0 Map.empty c) = Inr (f s)" by metis
  let ?outcomes = "map_of (rev (map (\<lambda>s. (stage_name s, f s)) ss))"
  have det: "\<forall>s \<in> set ss. deterministic s" using assms(3) ParallelGroup by simp
  have distinct: "distinct (map stage_name ss)" using assms(2) ParallelGroup by simp
  obtain w1 where w1: "start_group fate ss c w = (Inr ?outcomes, w1)" "os_state.more w1 = os_state.more w"
    using start_group_isolated [OF det assms(1) f] by blast
  have "\<forall>s \<in> set ss. deterministic s \<and> settled s (isolated s c) = Inr (R s) \<and>
      (\<exists>x. ?outcomes (stage_name s) = Some x \<and> unpickle (stage_worker s 0 Map.empty c) = Inr x)"
    using assms(3) f map_of_rev_names [OF distinct] ParallelGroup by auto
  then obtain w2 where w2: "map_each (\<lambda>s. bindp (settle_member fate c ?outcomes s) (\<lambda>r. ret (stage_name s, r))) ss w1 =
      (Inr (map (\<lambda>s. (stage_name s, R s)) ss), w2)" "os_state.more w2 = os_state.more w1"
    using settle_each [OF assms(1), of ss c R ?outcomes w1] by blast
  then have "run_entry_with_retries fate e c w = (Inr (map_of (rev (map (\<lambda>s. (stage_name s, R s)) ss))), w2)"
    using w1 by (simp add: ParallelGroup run_group_with_retries_def bindp_def)
  then show ?thesis
    using w1(2) w2(2) map_of_rev_names [OF distinct] ParallelGroup by auto
qed

section \<open>The entries in order\<close>

lemma in_order_append:
  "in_order wr (ss @ ts) c = Inr rs \<Longrightarrow>
     \<exists>ps qs. rs = ps @ qs \<and> in_order wr ss c = Inr ps \<and> in_order wr ts (fold (\<lambda>r c. wr c r) ps c) = Inr qs"
proof (induction ss arbitrary: c rs)
  case (Cons s ss)
  then obtain r rs' where r: "settled s (isolated s c) = Inr r" "in_order wr (ss @ ts) (wr c r) = Inr rs'" "rs = r # rs'"
    by (auto split: sum.splits)
  from Cons.IH [OF r(2)] obtain ps qs where "rs' = ps @ qs" "in_order wr ss (wr c r) = Inr ps"
    "in_order wr ts (fold (\<lambda>r c. wr c r) ps (wr c r)) = Inr qs" by blast
  with r show ?case by (intro exI [of _ "r # ps"] exI [of _ qs]) simp
qed simp

lemma isolated_cong: "(\<And>pid env. stage_run s pid env c' = stage_run s pid env c) \<Longrightarrow> isolated s c' = isolated s c"
  by (simp add: isolated_def stage_worker_def)

lemma isolated_named: "names_own_result s \<Longrightarrow> settled s (isolated s c) = Inr r \<Longrightarrow> stage r = stage_name s"
  by (auto simp: isolated_def unpickle_def stage_worker_def settled_def names_own_result_def skipped_result_def
      split: sum.splits exn.splits if_splits simp del: is_logical_iff is_transient_iff)

text \<open>The members of an independent entry compute what they compute on the context before it.\<close>

lemma in_order_members:
  assumes "in_order wr ss c' = Inr ps" and "\<forall>s \<in> set ss. names_own_result s"
    and "\<And>s. s \<in> set ss \<Longrightarrow> isolated s c' = isolated s c"
    and "\<And>s c r. s \<in> set ss \<Longrightarrow> stage r \<in> stage_name ` set ss \<Longrightarrow> isolated s (wr c r) = isolated s c"
  shows "list_all2 (\<lambda>s r. settled s (isolated s c) = Inr r) ss ps"
  using assms
proof (induction ss arbitrary: c' ps)
  case (Cons s ss)
  from Cons.prems(1) obtain r rs where r: "settled s (isolated s c') = Inr r" "in_order wr ss (wr c' r) = Inr rs" "ps = r # rs"
    by (auto split: sum.splits)
  have "stage r = stage_name s" using isolated_named [OF _ r(1)] Cons.prems(2) by simp
  then have "isolated t (wr c' r) = isolated t c" if "t \<in> set ss" for t
    using Cons.prems(3,4) [of t] that by simp
  then have "list_all2 (\<lambda>s r. settled s (isolated s c) = Inr r) ss rs"
    using Cons.IH [OF r(2)] Cons.prems(2,4) by simp
  with r Cons.prems(3) [of s] show ?case by simp
qed simp

text \<open>Saving the results of an entry.\<close>

lemma save_members_working:
  assumes "working_ports I obs add job ports" and "I (os_state.more w)"
    and "list_all2 (\<lambda>s r. results (stage_name s) = Some r) ss rs"
    and "stage_name ` set flat \<subseteq> dom positions"
  shows "\<exists>w' pos'. save_members wr ports positions n flat results ss c pos w =
      (Inr (fold (\<lambda>r c. wr c r) rs c, pos'), w') \<and> I (os_state.more w') \<and> obs (os_state.more w') = fold add rs (obs (os_state.more w))"
  using assms(2,3)
proof (induction ss arbitrary: rs c pos w)
  case (Cons s ss)
  then obtain r rs' where rs: "rs = r # rs'" "results (stage_name s) = Some r"
    "list_all2 (\<lambda>s r. results (stage_name s) = Some r) ss rs'"
    by (auto simp: list_all2_Cons1)
  define nxt where "nxt = (if Suc pos < length flat then Some (stage_name (flat ! Suc pos)) else None)"
  have "\<exists>i. (case nxt of None \<Rightarrow> ret None | Some m \<Rightarrow> bindp (lookup positions m) (\<lambda>i. ret (Some i))) w = (Inr i, w)"
  proof (cases nxt)
    case (Some m)
    then have "m \<in> dom positions" using assms(4) Some by (force simp: nxt_def split: if_splits)
    then show ?thesis using Some by (auto simp: lookup_def bindp_def)
  qed simp
  then obtain i where i: "(case nxt of None \<Rightarrow> ret None | Some m \<Rightarrow> bindp (lookup positions m) (\<lambda>i. ret (Some i))) w = (Inr i, w)"
    by blast
  obtain w1 where w1: "save_stage_progress ports r nxt i n w = (Inr (), w1)" "I (os_state.more w1)"
    "obs (os_state.more w1) = add r (obs (os_state.more w))"
    using assms(1) Cons.prems(1) unfolding working_ports_def by blast
  from Cons.IH [OF w1(2) rs(3), of "wr c r" "Suc pos"] obtain w' pos' where w':
    "save_members wr ports positions n flat results ss (wr c r) (Suc pos) w1 =
       (Inr (fold (\<lambda>r c. wr c r) rs' (wr c r), pos'), w')" "I (os_state.more w')"
    "obs (os_state.more w') = fold add rs' (obs (os_state.more w1))" by blast
  have "save_members wr ports positions n flat results (s # ss) c pos w =
      save_members wr ports positions n flat results ss (wr c r) (Suc pos) w1"
    using rs(2) i w1(1)
    by (simp add: lookup_def bindp_def thenp_def Let_def nxt_def [symmetric])
  with w' w1 rs(1) show ?case by simp
qed simp

lemma publish_members_working:
  assumes "working_ports I obs add job ports" and "I (os_state.more w)" and "stage_name ` set ss \<subseteq> dom positions"
  shows "\<exists>w'. for_each (\<lambda>s. bindp (lookup positions (stage_name s)) (\<lambda>i. publish_stage ports job (stage_name s) i n)) ss w =
      (Inr (), w') \<and> I (os_state.more w') \<and> obs (os_state.more w') = obs (os_state.more w)"
  using assms(2,3)
proof (induction ss arbitrary: w)
  case (Cons s ss)
  then obtain i where i: "positions (stage_name s) = Some i" by auto
  obtain w1 where w1: "publish_stage ports job (stage_name s) i n w = (Inr (), w1)" "I (os_state.more w1)"
    "obs (os_state.more w1) = obs (os_state.more w)"
    using assms(1) Cons.prems(1) unfolding working_ports_def by blast
  from Cons.IH [OF w1(2)] Cons.prems(2) i w1 show ?case by (auto simp: thenp_def bindp_def lookup_def)
qed simp

text \<open>An independent entry computes the results of its members and saves them in order.\<close>

lemma entry_results:
  assumes "in_order wr (members e) c = Inr ps" and "\<forall>s \<in> set (members e). names_own_result s"
    and "(\<exists>s. e = Single s) \<or> independent wr e" and "distinct (map stage_name (members e))"
  shows "\<exists>R. (\<forall>s \<in> set (members e). settled s (isolated s c) = Inr (R s)) \<and> ps = map R (members e)"
proof -
  have all: "list_all2 (\<lambda>s r. settled s (isolated s c) = Inr r) (members e) ps"
  proof (cases "\<exists>s. e = Single s")
    case True
    then show ?thesis using assms(1) by (auto split: sum.splits)
  next
    case False
    then have ind: "independent wr e" using assms(3) by blast
    show ?thesis
    proof (rule in_order_members [OF assms(1,2)])
      fix s c and r :: stage_result
      assume "s \<in> set (members e)" "stage r \<in> stage_name ` set (members e)"
      then show "isolated s (wr c r) = isolated s c"
        using ind unfolding independent_def by (intro isolated_cong) blast
    qed simp
  qed
  let ?R = "\<lambda>s. case settled s (isolated s c) of Inr r \<Rightarrow> r"
  have "ps = map ?R (members e)"
    using all by (auto simp: list_all2_conv_all_nth intro!: nth_equalityI)
  moreover have "settled s (isolated s c) = Inr (?R s)" if "s \<in> set (members e)" for s
    using all that by (auto simp: list_all2_conv_all_nth in_set_conv_nth)
  ultimately show ?thesis by (intro exI [of _ ?R]) blast
qed

definition parallel_safe :: "('c \<Rightarrow> stage_result \<Rightarrow> 'c) \<Rightarrow> 'c entry list \<Rightarrow> bool" where
  "parallel_safe wr es \<longleftrightarrow>
     distinct (map stage_name (flatten es)) \<and> (\<forall>s \<in> set (flatten es). deterministic s \<and> names_own_result s) \<and>
     (\<forall>e \<in> set es. (\<exists>s. e = Single s) \<or> independent wr e)"

lemma flatten_Cons_members: "flatten (e # es) = members e @ flatten es"
  by (cases e) simp_all

lemma run_entries_in_order:
  assumes "working_ports I obs add job ports" and "all_finish fate" and "stage_name ` set flat \<subseteq> dom positions"
    and "I (os_state.more w)" and "parallel_safe wr es" and "stage_name ` set (flatten es) \<subseteq> dom positions"
    and "in_order wr (flatten es) c = Inr rs"
  shows "\<exists>w'. run_entries wr fate ports job positions n flat es c pos w = (Inr COMPLETED, w') \<and>
    I (os_state.more w') \<and> obs (os_state.more w') = fold add rs (obs (os_state.more w))"
  using assms(4-7)
proof (induction es arbitrary: c pos rs w)
  case (Cons e es)
  obtain ps qs where rs: "rs = ps @ qs" "in_order wr (members e) c = Inr ps"
    "in_order wr (flatten es) (fold (\<lambda>r c. wr c r) ps c) = Inr qs"
    using in_order_append [of wr "members e" "flatten es" c rs] Cons.prems(4) by (auto simp: flatten_Cons_members simp del: flatten.simps)
  have e: "\<forall>s \<in> set (members e). deterministic s \<and> names_own_result s" "distinct (map stage_name (members e))"
      "(\<exists>s. e = Single s) \<or> independent wr e" and es: "parallel_safe wr es"
    using Cons.prems(2) by (auto simp: parallel_safe_def flatten_Cons_members simp del: flatten.simps)
  obtain R where R: "\<forall>s \<in> set (members e). settled s (isolated s c) = Inr (R s)" "ps = map R (members e)"
    using entry_results [OF rs(2) _ e(3) e(2)] e(1) by blast
  obtain w1 where w1: "should_stop ports w = (Inr False, w1)" "I (os_state.more w1)" "obs (os_state.more w1) = obs (os_state.more w)"
    using assms(1) Cons.prems(1) unfolding working_ports_def by blast
  have ps_dom: "stage_name ` set (members e) \<subseteq> dom positions" and es_dom: "stage_name ` set (flatten es) \<subseteq> dom positions"
    using Cons.prems(3) by (simp_all add: flatten_Cons_members image_Un del: flatten.simps)
  obtain w2 where w2: "for_each (\<lambda>s. bindp (lookup positions (stage_name s)) (\<lambda>i. publish_stage ports job (stage_name s) i n))
      (members e) w1 = (Inr (), w2)" "I (os_state.more w2)" "obs (os_state.more w2) = obs (os_state.more w)"
    using publish_members_working [OF assms(1) w1(2) ps_dom, of n] w1(3) by auto
  obtain results w3 where w3: "run_entry_with_retries fate e c w2 = (Inr results, w3)" "os_state.more w3 = os_state.more w2"
    and res: "\<forall>s \<in> set (members e). results (stage_name s) = Some (R s)"
    using run_entry_isolated [OF assms(2) e(2), of c R w2] e(1) R(1) by blast
  have "list_all2 (\<lambda>s r. results (stage_name s) = Some r) (members e) ps"
    using res by (auto simp: R(2) list_all2_conv_all_nth)
  then obtain w4 pos' where w4: "save_members wr ports positions n flat results (members e) c pos w3 =
      (Inr (fold (\<lambda>r c. wr c r) ps c, pos'), w4)" "I (os_state.more w4)" "obs (os_state.more w4) = fold add ps (obs (os_state.more w))"
    using save_members_working [OF assms(1) _ _ assms(3), of w3 results "members e" ps wr n c pos] w2 w3(2) by auto
  obtain w5 where "run_entries wr fate ports job positions n flat es (fold (\<lambda>r c. wr c r) ps c) pos' w4 = (Inr COMPLETED, w5)"
    "I (os_state.more w5)" "obs (os_state.more w5) = fold add qs (obs (os_state.more w4))"
    using Cons.IH [OF w4(2) es es_dom rs(3)] by blast
  with w1(1) w2(1) w3(1) w4 rs(1) show ?case by (simp add: thenp_def bindp_def)
qed simp

section \<open>The run\<close>

lemma independent_subset:
  "independent wr e \<Longrightarrow> set (members e') \<subseteq> set (members e) \<Longrightarrow> independent wr e'"
  unfolding independent_def by (meson image_mono subsetD)

lemma mode_entry_of:
  "e \<in> set (filter_mode es m) \<Longrightarrow> (\<exists>s. e = Single s) \<or> (\<exists>e' \<in> set es. (\<nexists>s. e' = Single s) \<and> set (members e) \<subseteq> set (members e'))"
  by (induction es m rule: filter_mode.induct) (fastforce simp: Let_def split: if_splits)+

lemma remaining_group_of:
  "e \<in> set (remaining_entries es ad) \<Longrightarrow>
     (\<exists>s. e = Single s) \<or> (\<exists>e' \<in> set es. (\<nexists>s. e' = Single s) \<and> set (members e) \<subseteq> set (members e'))"
  by (induction es ad rule: remaining_entries.induct) (fastforce simp: Let_def split: if_splits)+

lemma parallel_safe_remaining:
  assumes "parallel_safe wr es"
  shows "parallel_safe wr (remaining_entries es ad)"
  using assms remaining_group_of [of _ es ad] independent_subset [of wr]
  unfolding parallel_safe_def flatten_remaining by (auto simp: distinct_map_filter) blast

lemma parallel_safe_mode:
  assumes "parallel_safe wr es"
  shows "parallel_safe wr (filter_mode es m)"
  using assms mode_entry_of [of _ es m] independent_subset [of wr]
  unfolding parallel_safe_def flatten_mode by (auto simp: distinct_map_filter) blast

lemma dom_stage_positions: "dom (stage_positions ss) = stage_name ` set ss"
  by (simp add: stage_positions_def dom_map_of_conv_image_fst del: upt_Suc flip: set_map)

lemma run_in_order:
  assumes "working_ports I obs add job ports" and "all_finish fate" and "I (os_state.more w)"
    and "parallel_safe wr (stages_for_mode stages mode)"
    and "in_order wr (flatten (remaining_entries (stages_for_mode stages mode) ad)) (fold (\<lambda>r c. wr c r) (map snd ad) ctx) = Inr rs"
  shows "\<exists>w'. run wr fate stages ports job ctx ad mode w = (Inr COMPLETED, w') \<and>
    I (os_state.more w') \<and> obs (os_state.more w') = fold add rs (obs (os_state.more w))"
proof -
  let ?active = "stages_for_mode stages mode"
  let ?rest = "remaining_entries ?active ad" and ?pos = "stage_positions (flatten ?active)"
  have dom: "stage_name ` set (flatten ?rest) \<subseteq> dom ?pos"
    by (auto simp: dom_stage_positions flatten_remaining)
  have "\<exists>w1. (case flatten ?rest of [] \<Rightarrow> ret () | first # _ \<Rightarrow> bindp (lookup ?pos (stage_name first)) (\<lambda>i.
      mark_processing ports (stage_name first) i (length (flatten ?active)))) w = (Inr (), w1) \<and>
      I (os_state.more w1) \<and> obs (os_state.more w1) = obs (os_state.more w)"
  proof (cases "flatten ?rest")
    case (Cons first ss)
    then obtain i where "?pos (stage_name first) = Some i" using dom by auto
    moreover obtain w1 where "mark_processing ports (stage_name first) i (length (flatten ?active)) w = (Inr (), w1)"
      "I (os_state.more w1)" "obs (os_state.more w1) = obs (os_state.more w)"
      using assms(1,3) unfolding working_ports_def by blast
    ultimately show ?thesis using Cons by (simp add: lookup_def bindp_def)
  qed (use assms(3) in simp)
  then obtain w1 where w1: "(case flatten ?rest of [] \<Rightarrow> ret () | first # _ \<Rightarrow> bindp (lookup ?pos (stage_name first)) (\<lambda>i.
      mark_processing ports (stage_name first) i (length (flatten ?active)))) w = (Inr (), w1)"
      "I (os_state.more w1)" "obs (os_state.more w1) = obs (os_state.more w)" by blast
  obtain w' where "run_entries wr fate ports job ?pos (length (flatten ?active)) (flatten ?rest) ?rest
      (fold (\<lambda>r c. wr c r) (map snd ad) ctx) 0 w1 = (Inr COMPLETED, w')" "I (os_state.more w')"
      "obs (os_state.more w') = fold add rs (obs (os_state.more w1))"
    using run_entries_in_order [OF assms(1,2) dom w1(2) parallel_safe_remaining [OF assms(4)] dom assms(5)] by blast
  with w1 show ?thesis by (simp add: run_def Let_def thenp_def bindp_def)
qed

section \<open>Properties\<close>

text \<open>
  C15: When its children can run to the end and its stages are deterministic, named and, in a group,
  independent of each other, a run completes and saves exactly the results of its remaining stages run
  one after the other, each once, from the results already stored: processes, retries, groups and progress
  reports change nothing.
\<close>

theorem run_refines_sequence:
  assumes "working_ports I obs add job ports" and "all_finish fate" and "I (os_state.more w)"
    and "parallel_safe wr (stages_for_mode stages mode)"
    and "in_order wr (flatten (remaining_entries (stages_for_mode stages mode) ad)) (fold (\<lambda>r c. wr c r) (map snd ad) ctx) = Inr rs"
  shows "\<exists>w'. run wr fate stages ports job ctx ad mode w = (Inr COMPLETED, w') \<and>
    obs (os_state.more w') = fold add rs (obs (os_state.more w))"
  using run_in_order [OF assms] by blast

text \<open>A client whose state is the list of the saved results, and a pipeline with a group.\<close>

type_synonym logged_state = "stage_result list os_state_scheme"

definition log_ports :: "logged_state run_ports" where
  "log_ports =
     \<lparr>publish_stage = \<lambda>_ _ _ _. ret (), mark_processing = \<lambda>_ _ _. ret (),
      save_stage_progress = \<lambda>r _ _ _. modifyp (os_state.more_update (\<lambda>z. z @ [r])), should_stop = ret False\<rparr>"

definition demo_logged :: logged_state where
  "demo_logged = os_state.extend demo_os []"

lemma fold_snoc: "fold (\<lambda>x xs. xs @ [x]) ys xs = xs @ ys"
  by (induction ys arbitrary: xs) simp_all

lemma log_ports_work: "working_ports (\<lambda>_. True) (\<lambda>z. z) (\<lambda>r z. z @ [r]) job log_ports"
  by (simp add: working_ports_def log_ports_def modifyp_def)

lemma demo_parallel_safe: "parallel_safe (\<lambda>c r. c @ [r]) [Single (demo_stage ''a''), ParallelGroup [demo_stage ''b'', demo_stage ''c'']]"
  by (auto simp: parallel_safe_def deterministic_def names_own_result_def independent_def demo_stage_def)

lemma demo_isolated: "settled (demo_stage n) (isolated (demo_stage n) c) =
    Inr \<lparr>stage = n, status = DONE, duration_ms = 0, data = [], error_code = None, error_message = None\<rparr>"
  by (simp add: isolated_def stage_worker_def unpickle_def settled_def demo_stage_def)

theorem run_refines_sequence_witness:
  "\<exists>w'. run (\<lambda>c r. c @ [r]) (\<lambda>_. Finishes) [Single (demo_stage ''a''), ParallelGroup [demo_stage ''b'', demo_stage ''c'']]
      log_ports ''j'' [] [] None demo_logged = (Inr COMPLETED, w') \<and>
    map stage (os_state.more w') = [''a'', ''b'', ''c'']"
proof -
  let ?es = "[Single (demo_stage ''a''), ParallelGroup [demo_stage ''b'', demo_stage ''c'']]"
  let ?r = "\<lambda>n. \<lparr>stage = n, status = DONE, duration_ms = 0, data = [], error_code = None, error_message = None\<rparr> :: stage_result"
  have "in_order (\<lambda>c r. c @ [r]) (flatten (remaining_entries (stages_for_mode ?es None) []))
      (fold (\<lambda>r c. c @ [r]) (map snd []) []) = Inr [?r ''a'', ?r ''b'', ?r ''c'']"
    by (simp add: stages_for_mode_def demo_isolated)
  note order = this
  have fin: "all_finish (\<lambda>_. Finishes)" and safe: "parallel_safe (\<lambda>c r. c @ [r]) (stages_for_mode ?es None)"
    using demo_parallel_safe by (simp_all add: all_finish_def stages_for_mode_def)
  obtain w' where "run (\<lambda>c r. c @ [r]) (\<lambda>_. Finishes) ?es log_ports ''j'' [] [] None demo_logged = (Inr COMPLETED, w')"
    "os_state.more w' = os_state.more demo_logged @ [?r ''a'', ?r ''b'', ?r ''c'']"
    using run_refines_sequence [OF log_ports_work fin TrueI safe order, of "''j''" demo_logged] by (auto simp: fold_snoc)
  then show ?thesis by (simp add: demo_logged_def os_state.defs)
qed

end
