(* ===== verification/Stages.thy ===== *)
theory Stages
  imports Aggregate AudioStages Config
begin

text \<open>
  \<open>build_stages\<close> and \<open>build_prep_stages\<close> of \<open>worker.py\<close>, with the stage classes they instantiate: the
  name, timeout, modes and \<open>required\<close> flag of each class, around the \<open>run\<close> of the theory that models it.
  The libraries are one record of parameters. The child process of a stage starts on whatever files are on
  the disk then, so the files it finds and the time it measures are functions of the stage and the child's number. The lemmas show
  which earlier results a stage reads and that no stage reads a result of its own entry or of a later one.
\<close>

section \<open>What the stages are given\<close>

record worker_disk = audio_files +
  npz :: npz_files

record worker_lib =
  wl_disk :: "string \<Rightarrow> nat \<Rightarrow> worker_disk"
  wl_clock :: "string \<Rightarrow> nat \<Rightarrow> int"
  wl_exec :: exec
  wl_audio :: audio_lib
  wl_librosa :: librosa
  wl_interp :: interp
  wl_argsort :: "cost list \<Rightarrow> nat list"
  wl_median :: np_median
  wl_percentile :: np_percentile
  wl_std :: np_std
  wl_corrcoef :: np_corrcoef
  wl_vibrato :: vibrato_lib
  wl_separate :: "real list \<Rightarrow> nat \<Rightarrow> exn + real list"
  wl_transcribe :: "real list \<Rightarrow> nat \<Rightarrow> exn + lyrics"
  wl_detect :: detect

definition separator_of :: "worker_lib \<Rightarrow> worker_disk separator" where
  "separator_of lib = \<lparr>separate_vocals = wl_separate lib, release_separator = ret ()\<rparr>"

definition reads_wav :: "worker_disk \<Rightarrow> read_mono" where
  "reads_wav d path = fst (read_wav path d)"

definition FFMPEG_PATH :: string where
  "FFMPEG_PATH = ''ffmpeg''"

section \<open>Timeouts\<close>

definition SEPARATE_RECORDING_TIMEOUT_SECONDS :: nat where "SEPARATE_RECORDING_TIMEOUT_SECONDS = 600"
definition FEATURES_TIMEOUT_SECONDS :: nat where "FEATURES_TIMEOUT_SECONDS = 30"
definition ALIGN_TIMEOUT_SECONDS :: nat where "ALIGN_TIMEOUT_SECONDS = 60"
definition PITCH_TIMEOUT_SECONDS :: nat where "PITCH_TIMEOUT_SECONDS = 180"
definition KEY_NORMALIZATION_TIMEOUT_SECONDS :: nat where "KEY_NORMALIZATION_TIMEOUT_SECONDS = 10"
definition RHYTHM_TIMEOUT_SECONDS :: nat where "RHYTHM_TIMEOUT_SECONDS = 30"
definition VIBRATO_TIMEOUT_SECONDS :: nat where "VIBRATO_TIMEOUT_SECONDS = 30"
definition DYNAMICS_TIMEOUT_SECONDS :: nat where "DYNAMICS_TIMEOUT_SECONDS = 30"
definition TIMBRE_TIMEOUT_SECONDS :: nat where "TIMBRE_TIMEOUT_SECONDS = 30"
definition BREATH_TIMEOUT_SECONDS :: nat where "BREATH_TIMEOUT_SECONDS = 30"
definition RECORDING_CONDITION_TIMEOUT_SECONDS :: nat where "RECORDING_CONDITION_TIMEOUT_SECONDS = 30"
definition AGGREGATE_TIMEOUT_SECONDS :: nat where "AGGREGATE_TIMEOUT_SECONDS = 10"
definition SEPARATE_REFERENCE_TIMEOUT_SECONDS :: nat where "SEPARATE_REFERENCE_TIMEOUT_SECONDS = 600"
definition TRANSCRIBE_TIMEOUT_SECONDS :: nat where "TRANSCRIBE_TIMEOUT_SECONDS = 240"
definition PREP_REFERENCE_PITCH_TIMEOUT_SECONDS :: nat where "PREP_REFERENCE_PITCH_TIMEOUT_SECONDS = 120"

section \<open>The stages of the warm path\<close>

definition preprocess_stage :: "worker_lib \<Rightarrow> string \<Rightarrow> analysis_context pipeline_stage" where
  "preprocess_stage lib ffmpeg_path =
     \<lparr>stage_name = ''preprocess'', timeout_seconds = PREPROCESS_TIMEOUT_SECONDS, required = True, modes = ALL_MODES,
      stage_run = \<lambda>pid env c.
        fst (preprocess_run (wl_audio lib) (wl_exec lib) ffmpeg_path (wl_clock lib ''preprocess'' pid) c (wl_disk lib ''preprocess'' pid))\<rparr>"

definition separate_recording_stage :: "worker_lib \<Rightarrow> analysis_context pipeline_stage" where
  "separate_recording_stage lib =
     \<lparr>stage_name = ''separate_recording'', timeout_seconds = SEPARATE_RECORDING_TIMEOUT_SECONDS, required = True,
      modes = {Mixed},
      stage_run = \<lambda>pid env c.
        fst (separate_recording_run (wl_audio lib) (separator_of lib) (wl_clock lib ''separate_recording'' pid) c (wl_disk lib ''separate_recording'' pid))\<rparr>"

definition features_stage :: "worker_lib \<Rightarrow> analysis_context pipeline_stage" where
  "features_stage lib =
     \<lparr>stage_name = ''features'', timeout_seconds = FEATURES_TIMEOUT_SECONDS, required = True, modes = ALL_MODES,
      stage_run = \<lambda>pid env c.
        fst (features_run PITCH_HOP_SECONDS (reads_wav (wl_disk lib ''features'' pid)) (wl_librosa lib) (wl_clock lib ''features'' pid) c
          (npz (wl_disk lib ''features'' pid)))\<rparr>"

definition align_stage :: "worker_lib \<Rightarrow> analysis_context pipeline_stage" where
  "align_stage lib =
     \<lparr>stage_name = ''align'', timeout_seconds = ALIGN_TIMEOUT_SECONDS, required = True, modes = ALL_MODES,
      stage_run = \<lambda>pid env c.
        fst (align_run (wl_interp lib) (wl_argsort lib) (reads_wav (wl_disk lib ''align'' pid))
          (load_shared_features (npz (wl_disk lib ''align'' pid))) (wl_detect lib) (ret ()) (wl_clock lib ''align'' pid) c (wl_disk lib ''align'' pid))\<rparr>"

definition pitch_stage :: "worker_lib \<Rightarrow> analysis_context pipeline_stage" where
  "pitch_stage lib =
     \<lparr>stage_name = ''pitch'', timeout_seconds = PITCH_TIMEOUT_SECONDS, required = True, modes = ALL_MODES,
      stage_run = \<lambda>pid env c. pitch_run (wl_interp lib) (wl_clock lib ''pitch'' pid) c\<rparr>"

definition key_normalization_stage :: "worker_lib \<Rightarrow> key_config \<Rightarrow> analysis_context pipeline_stage" where
  "key_normalization_stage lib cfg =
     \<lparr>stage_name = ''key_normalization'', timeout_seconds = KEY_NORMALIZATION_TIMEOUT_SECONDS, required = True,
      modes = ALL_MODES,
      stage_run = \<lambda>pid env c. key_run (wl_median lib) (wl_percentile lib) cfg (wl_clock lib ''key_normalization'' pid) c\<rparr>"

definition rhythm_stage :: "worker_lib \<Rightarrow> analysis_context pipeline_stage" where
  "rhythm_stage lib =
     \<lparr>stage_name = ''rhythm'', timeout_seconds = RHYTHM_TIMEOUT_SECONDS, required = True, modes = ALL_MODES,
      stage_run = \<lambda>pid env c.
        rhythm_run (wl_interp lib) (load_shared_features (npz (wl_disk lib ''rhythm'' pid))) (wl_clock lib ''rhythm'' pid) c\<rparr>"

definition vibrato_stage :: "worker_lib \<Rightarrow> analysis_context pipeline_stage" where
  "vibrato_stage lib =
     \<lparr>stage_name = ''vibrato'', timeout_seconds = VIBRATO_TIMEOUT_SECONDS, required = True, modes = ALL_MODES,
      stage_run = \<lambda>pid env c. vibrato_run (wl_vibrato lib) (wl_clock lib ''vibrato'' pid) c\<rparr>"

definition dynamics_stage :: "worker_lib \<Rightarrow> analysis_context pipeline_stage" where
  "dynamics_stage lib =
     \<lparr>stage_name = ''dynamics'', timeout_seconds = DYNAMICS_TIMEOUT_SECONDS, required = True, modes = ALL_MODES,
      stage_run = \<lambda>pid env c.
        dynamics_run (wl_interp lib) (wl_std lib) (wl_corrcoef lib) (load_shared_features (npz (wl_disk lib ''dynamics'' pid)))
          (wl_clock lib ''dynamics'' pid) c\<rparr>"

definition timbre_stage :: "worker_lib \<Rightarrow> analysis_context pipeline_stage" where
  "timbre_stage lib =
     \<lparr>stage_name = ''timbre'', timeout_seconds = TIMBRE_TIMEOUT_SECONDS, required = True, modes = {Clean},
      stage_run = \<lambda>pid env c.
        timbre_run (wl_interp lib) (load_shared_features (npz (wl_disk lib ''timbre'' pid))) (wl_clock lib ''timbre'' pid) c\<rparr>"

definition breath_stage :: "worker_lib \<Rightarrow> analysis_context pipeline_stage" where
  "breath_stage lib =
     \<lparr>stage_name = ''breath'', timeout_seconds = BREATH_TIMEOUT_SECONDS, required = True, modes = {Clean},
      stage_run = \<lambda>pid env c.
        breath_run (wl_interp lib) (load_shared_features (npz (wl_disk lib ''breath'' pid))) (wl_clock lib ''breath'' pid) c\<rparr>"

definition recording_condition_stage :: "worker_lib \<Rightarrow> real \<Rightarrow> analysis_context pipeline_stage" where
  "recording_condition_stage lib threshold =
     \<lparr>stage_name = ''recording_condition'', timeout_seconds = RECORDING_CONDITION_TIMEOUT_SECONDS, required = True,
      modes = ALL_MODES,
      stage_run = \<lambda>pid env c.
        recording_condition_run (wl_median lib) (reads_wav (wl_disk lib ''recording_condition'' pid)) (wl_librosa lib) threshold
          (wl_clock lib ''recording_condition'' pid) c\<rparr>"

definition aggregate_stage ::
  "worker_lib \<Rightarrow> (mode \<Rightarrow> scoring_weights) \<Rightarrow> string \<Rightarrow> analysis_context pipeline_stage" where
  "aggregate_stage lib weights_by_mode version =
     \<lparr>stage_name = ''aggregate'', timeout_seconds = AGGREGATE_TIMEOUT_SECONDS, required = True, modes = ALL_MODES,
      stage_run = \<lambda>pid env c. aggregate_run weights_by_mode version (wl_clock lib ''aggregate'' pid) c\<rparr>"

section \<open>The stages of the cold path\<close>

definition prep_reference_stage :: "worker_lib \<Rightarrow> string \<Rightarrow> song_prep_context pipeline_stage" where
  "prep_reference_stage lib ffmpeg_path =
     \<lparr>stage_name = ''prep_reference'', timeout_seconds = PREP_REFERENCE_TIMEOUT_SECONDS, required = True,
      modes = ALL_MODES,
      stage_run = \<lambda>pid env c.
        fst (prep_reference_run (wl_audio lib) (wl_exec lib) ffmpeg_path (wl_clock lib ''prep_reference'' pid) c (wl_disk lib ''prep_reference'' pid))\<rparr>"

definition separate_reference_stage :: "worker_lib \<Rightarrow> song_prep_context pipeline_stage" where
  "separate_reference_stage lib =
     \<lparr>stage_name = ''separate_reference'', timeout_seconds = SEPARATE_REFERENCE_TIMEOUT_SECONDS, required = True,
      modes = ALL_MODES,
      stage_run = \<lambda>pid env c.
        fst (separate_reference_run (wl_audio lib) (separator_of lib) (wl_clock lib ''separate_reference'' pid) c (wl_disk lib ''separate_reference'' pid))\<rparr>"

definition transcribe_stage :: "worker_lib \<Rightarrow> song_prep_context pipeline_stage" where
  "transcribe_stage lib =
     \<lparr>stage_name = ''transcribe'', timeout_seconds = TRANSCRIBE_TIMEOUT_SECONDS, required = False,
      modes = ALL_MODES,
      stage_run = \<lambda>pid env c. fst (transcribe_run (wl_transcribe lib) (ret ()) (wl_clock lib ''transcribe'' pid) c (wl_disk lib ''transcribe'' pid))\<rparr>"

definition prep_reference_pitch_stage :: "worker_lib \<Rightarrow> song_prep_context pipeline_stage" where
  "prep_reference_pitch_stage lib =
     \<lparr>stage_name = ''prep_reference_pitch'', timeout_seconds = PREP_REFERENCE_PITCH_TIMEOUT_SECONDS, required = True,
      modes = ALL_MODES,
      stage_run = \<lambda>pid env c.
        fst (prep_reference_pitch_run (wl_librosa lib) (wl_detect lib) (ret ()) (wl_clock lib ''prep_reference_pitch'' pid) c (wl_disk lib ''prep_reference_pitch'' pid))\<rparr>"

section \<open>The two stage lists\<close>

definition aspect_stages :: "worker_lib \<Rightarrow> analysis_context pipeline_stage list" where
  "aspect_stages lib = [rhythm_stage lib, vibrato_stage lib, dynamics_stage lib, timbre_stage lib, breath_stage lib]"

definition key_config_of :: "settings \<Rightarrow> key_config" where
  "key_config_of st =
     \<lparr>min_semitones = key_shift_min_semitones st, max_iqr_semitones = key_shift_max_iqr st,
      max_semitones = max_key_shift_semitones st\<rparr>"

definition build_stages :: "settings \<Rightarrow> (mode \<Rightarrow> scoring_weights) \<Rightarrow> worker_lib \<Rightarrow> analysis_context entry list" where
  "build_stages st weights_by_mode lib =
     [Single (preprocess_stage lib FFMPEG_PATH),
      Single (separate_recording_stage lib),
      Single (features_stage lib),
      Single (align_stage lib),
      Single (pitch_stage lib),
      Single (key_normalization_stage lib (key_config_of st))] @
     (if pipeline_parallel_aspects st then [ParallelGroup (aspect_stages lib)] else map Single (aspect_stages lib)) @
     [Single (recording_condition_stage lib (accompaniment_detect_threshold st)),
      Single (aggregate_stage lib weights_by_mode (scoring_version st))]"

definition build_prep_stages :: "settings \<Rightarrow> worker_lib \<Rightarrow> song_prep_context entry list" where
  "build_prep_stages st lib =
     [Single (prep_reference_stage lib FFMPEG_PATH),
      Single (separate_reference_stage lib),
      Single (transcribe_stage lib),
      Single (prep_reference_pitch_stage lib)]"

section \<open>The results of a stage\<close>

lemmas warm_stage_defs = preprocess_stage_def separate_recording_stage_def features_stage_def align_stage_def
  pitch_stage_def key_normalization_stage_def rhythm_stage_def vibrato_stage_def dynamics_stage_def timbre_stage_def
  breath_stage_def recording_condition_stage_def aggregate_stage_def

lemmas cold_stage_defs = prep_reference_stage_def separate_reference_stage_def transcribe_stage_def
  prep_reference_pitch_stage_def

lemma fst_Inr: "fst x = Inr r \<longleftrightarrow> (\<exists>w. x = (Inr r, w))"
  by (cases x) auto

lemma flatten_map_Single [simp]: "flatten (map Single ss) = ss"
  by (induction ss) simp_all

lemma flatten_build_stages:
  "flatten (build_stages st w lib) =
     [preprocess_stage lib FFMPEG_PATH, separate_recording_stage lib, features_stage lib, align_stage lib,
      pitch_stage lib, key_normalization_stage lib (key_config_of st)] @ aspect_stages lib @
     [recording_condition_stage lib (accompaniment_detect_threshold st), aggregate_stage lib w (scoring_version st)]"
  by (simp add: build_stages_def)

lemma filter_mode_append: "filter_mode (es @ fs) m = filter_mode es m @ filter_mode fs m"
  by (induction es m rule: filter_mode.induct) (simp_all add: Let_def)

lemma preprocess_named: "preprocess_run lib exec p ms c w = (Inr r, w') \<Longrightarrow> stage r = ''preprocess'' \<and> status r = DONE"
  by (auto simp: preprocess_run_def thenp_eq_Inr bindp_eq_Inr Let_def)

lemma separate_recording_named:
  "separate_recording_run lib sep ms c w = (Inr r, w') \<Longrightarrow> stage r = ''separate_recording'' \<and> status r = DONE"
  by (auto simp: separate_recording_run_def thenp_eq_Inr bindp_eq_Inr Let_def)

lemma features_named: "features_run hop read lib ms c w = (Inr r, w') \<Longrightarrow> stage r = ''features'' \<and> status r = DONE"
  by (auto simp: features_run_def thenp_eq_Inr bindp_eq_Inr Let_def)

lemma align_named:
  "align_run i a read load d rel ms c w = (Inr r, w') \<Longrightarrow>
     \<exists>us k a. r = stage_done ''align'' ms (align_data us k a)"
  by (auto simp: align_run_def bindp_eq_Inr Let_def split: if_splits)

lemma key_named: "key_run md pc cfg ms c = Inr r \<Longrightarrow> stage r = ''key_normalization'' \<and> status r = DONE"
  by (auto simp: key_run_def and_then_eq_Inr key_of_cents_def key_result_def Let_def split: if_splits)

lemma aspects_named:
  "rhythm_run i load ms c = Inr r \<Longrightarrow> stage r = ''rhythm'' \<and> status r = DONE"
  "vibrato_run vl ms c = Inr r \<Longrightarrow> stage r = ''vibrato'' \<and> status r = DONE"
  "dynamics_run i sd cc load ms c = Inr r \<Longrightarrow> stage r = ''dynamics'' \<and> status r = DONE"
  "timbre_run i load ms c = Inr r \<Longrightarrow> stage r = ''timbre'' \<and> status r = DONE"
  "breath_run i load ms c = Inr r \<Longrightarrow> stage r = ''breath'' \<and> status r = DONE"
  by (auto simp: rhythm_run_def vibrato_run_def dynamics_run_def timbre_run_def breath_run_def and_then_eq_Inr Let_def
      case_prod_beta)

lemma pitch_named: "pitch_run i ms c = Inr r \<Longrightarrow> stage r = ''pitch'' \<and> status r = DONE"
  by (auto simp: pitch_run_def and_then_eq_Inr)

lemma recording_condition_named:
  "recording_condition_run md read lib t ms c = Inr r \<Longrightarrow> stage r = ''recording_condition'' \<and> status r = DONE"
  by (auto simp: recording_condition_run_def and_then_eq_Inr Let_def)

lemma aggregate_named: "aggregate_run w v ms c = Inr r \<Longrightarrow> stage r = ''aggregate'' \<and> status r = DONE"
  by (auto simp: aggregate_run_def and_then_eq_Inr Let_def)

lemmas named = preprocess_named separate_recording_named features_named key_named aspects_named pitch_named
  recording_condition_named aggregate_named

lemma warm_named:
  assumes "s \<in> set (flatten (build_stages st w lib))" and "stage_run s pid env c = Inr r"
  shows "stage r = stage_name s \<and> status r = DONE"
proof -
  from assms(1) have "s = preprocess_stage lib FFMPEG_PATH \<or> s = separate_recording_stage lib \<or> s = features_stage lib \<or>
    s = align_stage lib \<or> s = pitch_stage lib \<or> s = key_normalization_stage lib (key_config_of st) \<or>
    s = rhythm_stage lib \<or> s = vibrato_stage lib \<or> s = dynamics_stage lib \<or> s = timbre_stage lib \<or>
    s = breath_stage lib \<or> s = recording_condition_stage lib (accompaniment_detect_threshold st) \<or>
    s = aggregate_stage lib w (scoring_version st)"
    unfolding flatten_build_stages aspect_stages_def by auto
  then show ?thesis using assms(2)
    by (elim disjE; simp add: warm_stage_defs fst_Inr) (auto dest!: named align_named)
qed

section \<open>What a stage reads\<close>

text \<open>Two contexts of the same job that hold the same results under the names of \<open>N\<close>.\<close>

definition agree_on :: "string set \<Rightarrow> analysis_context \<Rightarrow> analysis_context \<Rightarrow> bool" where
  "agree_on N c c' \<longleftrightarrow> (\<exists>f. c' = c\<lparr>completed := f\<rparr>) \<and> (\<forall>n \<in> N. completed c' n = completed c n)"

lemma agree_on_fields:
  assumes "agree_on N c c'"
  shows "recording_path c' = recording_path c" "work_dir c' = work_dir c" "context_mode c' = context_mode c"
    "reference_vocal_stem_path c' = reference_vocal_stem_path c" "reference_pitch c' = reference_pitch c"
    "context_locale c' = context_locale c" "allow_transposition c' = allow_transposition c"
  using assms by (auto simp: agree_on_def)

lemma agree_on_result: "agree_on N c c' \<Longrightarrow> n \<in> N \<Longrightarrow> analysis_result c' n = analysis_result c n"
  by (simp add: agree_on_def analysis_result_def)

lemma agree_on_data: "agree_on N c c' \<Longrightarrow> n \<in> N \<Longrightarrow> stage_data c' n = stage_data c n"
  by (simp add: stage_data_def agree_on_result)

lemma agree_on_voice: "agree_on N c c' \<Longrightarrow> {''preprocess'', ''separate_recording''} \<subseteq> N \<Longrightarrow> voice_audio_path c' = voice_audio_path c"
proof -
  assume a: "agree_on N c c'" and N: "{''preprocess'', ''separate_recording''} \<subseteq> N"
  then have "completed c' ''separate_recording'' = completed c ''separate_recording''" by (simp add: agree_on_def)
  moreover have "stage_data c' ''preprocess'' = stage_data c ''preprocess''" using agree_on_data [OF a] N by simp
  ultimately show ?thesis by (simp add: voice_audio_path_def split: option.split)
qed

lemma agree_on_features: "agree_on N c c' \<Longrightarrow> ''features'' \<in> N \<Longrightarrow> cached_features load c' = cached_features load c"
  by (simp add: cached_features_def agree_on_data)

lemma agree_on_results_of: "agree_on N c c' \<Longrightarrow> set as \<subseteq> N \<Longrightarrow> results_of c' as = results_of c as"
  by (induction as) (simp_all add: agree_on_result)

definition reads_only :: "analysis_context pipeline_stage \<Rightarrow> string set \<Rightarrow> bool" where
  "reads_only s N \<longleftrightarrow> (\<forall>pid env c c'. agree_on N c c' \<longrightarrow> stage_run s pid env c' = stage_run s pid env c)"

definition dependency_table :: "(string \<times> string list) list" where
  "dependency_table =
     [(''preprocess'', []),
      (''separate_recording'', [''preprocess'']),
      (''features'', [''preprocess'', ''separate_recording'']),
      (''align'', [''preprocess'', ''separate_recording'', ''features'']),
      (''pitch'', [''align'']),
      (''key_normalization'', [''pitch'']),
      (''rhythm'', [''features'', ''align'']),
      (''vibrato'', [''pitch'']),
      (''dynamics'', [''features'', ''align'']),
      (''timbre'', [''features'', ''align'']),
      (''breath'', [''features'', ''align'']),
      (''recording_condition'', [''preprocess'', ''pitch'']),
      (''aggregate'', ASPECTS @ [''key_normalization'', ''recording_condition'', ''align''])]"

definition dependencies :: "string \<Rightarrow> string set" where
  "dependencies name = (case map_of dependency_table name of None \<Rightarrow> {} | Some ns \<Rightarrow> set ns)"

lemma dependencies_simps [simp]:
  "dependencies ''preprocess'' = {}"
  "dependencies ''separate_recording'' = {''preprocess''}"
  "dependencies ''features'' = {''preprocess'', ''separate_recording''}"
  "dependencies ''align'' = {''preprocess'', ''separate_recording'', ''features''}"
  "dependencies ''pitch'' = {''align''}"
  "dependencies ''key_normalization'' = {''pitch''}"
  "dependencies ''rhythm'' = {''features'', ''align''}"
  "dependencies ''vibrato'' = {''pitch''}"
  "dependencies ''dynamics'' = {''features'', ''align''}"
  "dependencies ''timbre'' = {''features'', ''align''}"
  "dependencies ''breath'' = {''features'', ''align''}"
  "dependencies ''recording_condition'' = {''preprocess'', ''pitch''}"
  "dependencies ''aggregate'' = set ASPECTS \<union> {''key_normalization'', ''recording_condition'', ''align''}"
  by (simp_all add: dependencies_def dependency_table_def insert_commute Un_commute)

lemma reads_only_stages:
  "reads_only (preprocess_stage lib p) (dependencies ''preprocess'')"
  "reads_only (separate_recording_stage lib) (dependencies ''separate_recording'')"
  "reads_only (features_stage lib) (dependencies ''features'')"
  "reads_only (align_stage lib) (dependencies ''align'')"
  "reads_only (pitch_stage lib) (dependencies ''pitch'')"
  "reads_only (key_normalization_stage lib cfg) (dependencies ''key_normalization'')"
  "reads_only (recording_condition_stage lib th) (dependencies ''recording_condition'')"
  by (auto simp: reads_only_def warm_stage_defs preprocess_run_def separate_recording_run_def features_run_def
      align_run_def extract_user_hz_def pitch_run_def key_run_def key_eligible_def recording_condition_run_def
      agree_on_fields agree_on_data agree_on_voice agree_on_features cong: if_cong)

lemma reads_only_aspects:
  "reads_only (rhythm_stage lib) (dependencies ''rhythm'')"
  "reads_only (vibrato_stage lib) (dependencies ''vibrato'')"
  "reads_only (dynamics_stage lib) (dependencies ''dynamics'')"
  "reads_only (timbre_stage lib) (dependencies ''timbre'')"
  "reads_only (breath_stage lib) (dependencies ''breath'')"
  by (auto simp: reads_only_def warm_stage_defs rhythm_run_def vibrato_run_def dynamics_run_def timbre_run_def
      breath_run_def agree_on_fields agree_on_data agree_on_features)

lemma reads_only_aggregate: "reads_only (aggregate_stage lib w v) (dependencies ''aggregate'')"
proof -
  have "set (MODE_ASPECTS m) \<subseteq> dependencies ''aggregate''" for m
    using set_MODE_ASPECTS_subset [of m] by auto
  moreover have "''pitch'' \<in> dependencies ''aggregate''" by (simp add: ASPECTS_def)
  ultimately show ?thesis
    by (simp add: reads_only_def aggregate_stage_def aggregate_run_def agree_on_fields agree_on_data agree_on_results_of
        Let_def del: dependencies_simps) (simp add: agree_on_data agree_on_fields)
qed

section \<open>The order of the entries\<close>

text \<open>
  No stage of an entry reads a result of its own entry or of a later one; the check, over the table, of a
  list of entries.
\<close>

fun well_ordered :: "analysis_context entry list \<Rightarrow> bool" where
  "well_ordered [] = True"
| "well_ordered (e # es) =
     ((\<forall>s \<in> set (members e). dependencies (stage_name s) \<inter> set (map stage_name (flatten (e # es))) = {}) \<and>
      well_ordered es)"

lemma well_ordered_split:
  "well_ordered (pre @ e # post) \<Longrightarrow> s \<in> set (members e) \<Longrightarrow>
     dependencies (stage_name s) \<inter> set (map stage_name (flatten (e # post))) = {}"
  by (induction pre) (auto simp del: flatten.simps)

lemma well_ordered_filter: "well_ordered es \<Longrightarrow> well_ordered (filter_mode es m)"
proof (induction es m rule: filter_mode.induct)
  case (2 ss es m)
  then show ?case by (auto simp: Let_def flatten_mode)
next
  case (3 s es m)
  then show ?case by (auto simp: flatten_mode)
qed simp

lemma well_ordered_build: "well_ordered (build_stages st w lib)"
  by (cases "pipeline_parallel_aspects st")
    (simp_all add: build_stages_def aspect_stages_def warm_stage_defs ASPECTS_def)

lemma reads_only_build:
  assumes "s \<in> set (flatten (build_stages st w lib))"
  shows "reads_only s (dependencies (stage_name s))"
proof -
  have names: "stage_name (preprocess_stage lib p) = ''preprocess''" "stage_name (separate_recording_stage lib) = ''separate_recording''"
    "stage_name (features_stage lib) = ''features''" "stage_name (align_stage lib) = ''align''"
    "stage_name (pitch_stage lib) = ''pitch''" "stage_name (key_normalization_stage lib cfg) = ''key_normalization''"
    "stage_name (rhythm_stage lib) = ''rhythm''" "stage_name (vibrato_stage lib) = ''vibrato''"
    "stage_name (dynamics_stage lib) = ''dynamics''" "stage_name (timbre_stage lib) = ''timbre''"
    "stage_name (breath_stage lib) = ''breath''" "stage_name (recording_condition_stage lib th) = ''recording_condition''"
    "stage_name (aggregate_stage lib w v) = ''aggregate''" for p cfg th v
    by (simp_all add: warm_stage_defs)
  show ?thesis using assms reads_only_stages reads_only_aspects reads_only_aggregate
    unfolding flatten_build_stages aspect_stages_def
    by (auto simp: names simp del: dependencies_simps)
qed

lemma filter_mode_subset: "set (flatten (filter_mode es m)) \<subseteq> set (flatten es)"
  by (auto simp: flatten_mode)

text \<open>A stage of an entry computes the same whatever its own entry and the later ones have recorded.\<close>

lemma reads_earlier:
  assumes es: "filter_mode (build_stages st w lib) m = pre @ e # post" and s: "s \<in> set (members e)"
    and f: "\<And>n. n \<notin> stage_name ` set (flatten (e # post)) \<Longrightarrow> f n = completed c n"
  shows "stage_run s pid env (c\<lparr>completed := f\<rparr>) = stage_run s pid env c"
proof -
  have "s \<in> set (flatten (filter_mode (build_stages st w lib) m))"
    using s by (cases e) (auto simp: es)
  then have "reads_only s (dependencies (stage_name s))"
    using reads_only_build filter_mode_subset by blast
  moreover have "dependencies (stage_name s) \<inter> stage_name ` set (flatten (e # post)) = {}"
    using well_ordered_split [of pre e post s] well_ordered_filter [OF well_ordered_build, of st w lib m] s es
    by (simp del: flatten.simps)
  then have "agree_on (dependencies (stage_name s)) c (c\<lparr>completed := f\<rparr>)"
    using f by (simp add: agree_on_def) blast
  ultimately show ?thesis by (auto simp: reads_only_def)
qed

section \<open>Properties\<close>

text \<open>
  C17: A stage of the warm path computes the same whatever the other stages of its parallel group and the
  later stages of its mode have recorded: it reads results of earlier entries only, in both modes and with
  or without the group.
\<close>

theorem stages_read_earlier_results:
  assumes "filter_mode (build_stages st w lib) m = pre @ e # post" and "s \<in> set (members e)"
    and "\<And>n. n \<notin> stage_name ` set (flatten (e # post)) \<Longrightarrow> f n = completed c n"
  shows "stage_run s pid env (c\<lparr>completed := f\<rparr>) = stage_run s pid env c"
  by (rule reads_earlier [OF assms])

text \<open>A concrete worker: the default settings, one-frame recordings and constant library functions.\<close>

definition demo_worker_disk :: worker_disk where
  "demo_worker_disk =
     \<lparr>wavs = (\<lambda>path. Some ([1], 22050)), dirs = {},
      npz = (\<lambda>path. Some
        \<lparr>user_side = \<lparr>mfcc = [[1]], rms_envelope = [1], rms_fine = [1], onset_times = []\<rparr>,
         reference_side = \<lparr>mfcc = [[1]], rms_envelope = [1], rms_fine = [1], onset_times = []\<rparr>\<rparr>)\<rparr>"

definition demo_lib :: worker_lib where
  "demo_lib =
     \<lparr>wl_disk = \<lambda>_ _. demo_worker_disk, wl_clock = \<lambda>_ _. 0, wl_exec = demo_exec, wl_audio = demo_audio,
      wl_librosa = demo_librosa, wl_interp = interp_step, wl_argsort = argsort_stable, wl_median = median_sorted,
      wl_percentile = \<lambda>xs q. hd xs, wl_std = \<lambda>xs. 1, wl_corrcoef = \<lambda>xs ys. 1, wl_vibrato = demo_vibrato_lib,
      wl_separate = \<lambda>s r. Inr s, wl_transcribe = \<lambda>s r. Inr \<lparr>language = ''en'', words = []\<rparr>,
      wl_detect = \<lambda>chunk rate hop. Inr (map (\<lambda>_. Some 110) chunk)\<rparr>"

definition demo_clean_profile :: "(string \<times> nat) list" where
  "demo_clean_profile =
     [(''pitch'', 35), (''rhythm'', 20), (''breath'', 15), (''dynamics'', 10), (''vibrato'', 10), (''timbre'', 10)]"

definition demo_mixed_profile :: "(string \<times> nat) list" where
  "demo_mixed_profile = [(''pitch'', 50), (''rhythm'', 30), (''dynamics'', 10), (''vibrato'', 10)]"

definition demo_settings :: settings where
  "demo_settings = default_settings (profile_text demo_clean_profile) (profile_text demo_mixed_profile) ''db'' ''u'' ''p'' ''r''"

definition demo_job :: analysis_context where
  "demo_job = demo_context [Some 110] Map.empty"

theorem stages_read_earlier_results_witness:
  "stage_run (rhythm_stage demo_lib) 0 Map.empty (demo_job\<lparr>completed := [''timbre'' \<mapsto> stage_done ''timbre'' 0 []]\<rparr>) =
   stage_run (rhythm_stage demo_lib) 0 Map.empty demo_job"
proof -
  let ?es = "build_stages demo_settings (\<lambda>m. []) demo_lib"
  have all: "filter (\<lambda>s. Clean \<in> modes s) (aspect_stages demo_lib) = aspect_stages demo_lib"
    by (simp add: aspect_stages_def warm_stage_defs)
  have nonempty: "aspect_stages demo_lib \<noteq> []" by (simp add: aspect_stages_def)
  have es: "filter_mode ?es Clean = filter_mode (take 6 ?es) Clean @ ParallelGroup (aspect_stages demo_lib) # filter_mode (drop 7 ?es) Clean"
    using nonempty by (simp add: build_stages_def demo_settings_def default_settings_def Let_def all)
  show ?thesis
    by (rule stages_read_earlier_results [OF es])
      (auto simp: aspect_stages_def warm_stage_defs demo_job_def demo_context_def)
qed

end
