(* ===== verification/WarmPath.thy ===== *)
theory WarmPath
  imports Stages Sequential
begin

text \<open>
  The warm path as a whole: the stage lists of \<open>worker.py\<close> run by \<open>pipeline/runner.py\<close>. The lemmas show that
  the parallel group computes what the flat list computes, that an admitted configuration gives the aggregation
  weights it can use, and that what the stages of a mode store is what the aggregation needs.
\<close>

section \<open>The group against the flat list\<close>

text \<open>What a stage finds on the disk, and its clock, do not depend on which child runs it.\<close>

definition steady :: "worker_lib \<Rightarrow> bool" where
  "steady lib \<longleftrightarrow>
     (\<forall>name pid. wl_disk lib name pid = wl_disk lib name 0 \<and> wl_clock lib name pid = wl_clock lib name 0)"

lemma build_deterministic:
  assumes "steady lib" and "s \<in> set (flatten (build_stages st w lib))"
  shows "deterministic s"
proof -
  have d: "wl_disk lib n pid = wl_disk lib n 0" "wl_clock lib n pid = wl_clock lib n 0" for n pid
    using assms(1) by (simp_all only: steady_def)
  have "stage_run s pid env c = stage_run s 0 Map.empty c" for pid env c
    using assms(2) unfolding flatten_build_stages aspect_stages_def
    by (auto simp: warm_stage_defs d [of _ pid])
  then show ?thesis unfolding deterministic_def by blast
qed

lemma build_names: "map stage_name (flatten (build_stages st w lib)) =
    [''preprocess'', ''separate_recording'', ''features'', ''align'', ''pitch'', ''key_normalization'',
     ''rhythm'', ''vibrato'', ''dynamics'', ''timbre'', ''breath'', ''recording_condition'', ''aggregate'']"
  by (simp add: flatten_build_stages aspect_stages_def warm_stage_defs)

lemma aspects_independent: "independent analysis_with_result (ParallelGroup (aspect_stages lib))"
  unfolding independent_def members.simps
proof (intro ballI allI impI)
  fix s pid env c and r :: stage_result
  assume s: "s \<in> set (aspect_stages lib)" and r: "stage r \<in> stage_name ` set (aspect_stages lib)"
  have names: "stage_name ` set (aspect_stages lib) = {''rhythm'', ''vibrato'', ''dynamics'', ''timbre'', ''breath''}"
    by (simp add: aspect_stages_def warm_stage_defs)
  have "s \<in> set (flatten (build_stages st w lib))" for st w using s by (simp add: flatten_build_stages)
  then have "reads_only s (dependencies (stage_name s))" by (rule reads_only_build)
  moreover have "stage r \<notin> dependencies (stage_name s)"
    using s r [unfolded names] by (auto simp: aspect_stages_def warm_stage_defs)
  then have "agree_on (dependencies (stage_name s)) c (analysis_with_result c r)"
    by (auto simp: agree_on_def analysis_with_result_def)
  ultimately show "stage_run s pid env (analysis_with_result c r) = stage_run s pid env c"
    by (auto simp: reads_only_def)
qed

lemma build_parallel_safe:
  assumes "steady lib"
  shows "parallel_safe analysis_with_result (build_stages st w lib)"
  unfolding parallel_safe_def
proof (intro conjI ballI)
  show "distinct (map stage_name (flatten (build_stages st w lib)))"
    unfolding build_names by simp
  show "deterministic s" if "s \<in> set (flatten (build_stages st w lib))" for s
    by (rule build_deterministic [OF assms that])
  show "names_own_result s" if "s \<in> set (flatten (build_stages st w lib))" for s
    using warm_named [OF that] by (simp add: names_own_result_def)
  show "(\<exists>s. e = Single s) \<or> independent analysis_with_result e" if "e \<in> set (build_stages st w lib)" for e
    using that aspects_independent by (auto simp: build_stages_def split: if_splits)
qed

section \<open>The weights of an admitted configuration\<close>

definition weight_value :: "pyfloat \<Rightarrow> real" where
  "weight_value x = (case x of Finite q \<Rightarrow> q | _ \<Rightarrow> 0)"

definition finite_weights :: "weights \<Rightarrow> scoring_weights" where
  "finite_weights ws = map (\<lambda>(a, x). (a, weight_value x)) ws"

definition nonnegative :: "weights \<Rightarrow> bool" where
  "nonnegative ws \<longleftrightarrow> (\<forall>(a, x) \<in> set ws. \<exists>q. x = Finite q \<and> 0 \<le> q)"

lemma sum_list_map_of:
  "distinct (map fst xs) \<Longrightarrow> (\<Sum>(a, x) \<leftarrow> xs. x) = (\<Sum>a \<in> set (map fst xs). the (map_of xs a))"
proof (induction xs)
  case (Cons p xs)
  have "(\<Sum>a \<in> set (map fst xs). the (map_of (p # xs) a)) = (\<Sum>a \<in> set (map fst xs). the (map_of xs a))"
  proof (rule sum.cong [OF refl])
    fix a assume "a \<in> set (map fst xs)"
    then have "a \<noteq> fst p" using Cons.prems by (metis distinct.simps(2) list.map(2))
    then show "the (map_of (p # xs) a) = the (map_of xs a)" by (cases p) simp
  qed
  then show ?case using Cons by (cases p) simp
qed simp

lemma admitted_weights_ok:
  assumes "parse_weights raw m = Inr ws" and "nonnegative ws"
  shows "weights_ok m (finite_weights ws)"
proof -
  let ?fw = "finite_weights ws"
  have f: "distinct (map fst ws)" "set (map fst ws) = set (MODE_ASPECTS m)"
    "\<not> off_one WEIGHTS_SUM_TOLERANCE (sum_values ws)"
    using parse_weights_facts [OF assms(1)] by auto
  have keys: "map fst ?fw = map fst ws" by (simp add: finite_weights_def case_prod_beta comp_def)
  have nonneg: "0 \<le> x" if "(a, x) \<in> set ?fw" for a x
    using that assms(2) by (auto simp: finite_weights_def nonnegative_def weight_value_def)
  have "sum_values ws = Finite (0 + (\<Sum>(_, x) \<leftarrow> ws. case x of Finite r \<Rightarrow> r | _ \<Rightarrow> 0))"
    unfolding sum_values_def by (rule sum_finite) (use assms(2) in \<open>force simp: nonnegative_def\<close>)
  also have "\<dots> = Finite (\<Sum>(a, x) \<leftarrow> ?fw. x)"
    by (simp add: finite_weights_def weight_value_def comp_def case_prod_unfold)
  also have "(\<Sum>(a, x) \<leftarrow> ?fw. x) = (\<Sum>a \<in> set (MODE_ASPECTS m). the (map_of ?fw a))"
    using sum_list_map_of [of ?fw] f(1,2) by (simp add: keys del: set_map)
  finally have "\<bar>(\<Sum>a \<leftarrow> MODE_ASPECTS m. the (map_of ?fw a)) - 1\<bar> \<le> 1 / 1000000"
    using f(3) by (simp add: WEIGHTS_SUM_TOLERANCE_def sum_list_distinct_conv_sum_set distinct_MODE_ASPECTS)
  moreover have "\<exists>x. map_of ?fw a = Some x \<and> 0 \<le> x" if "a \<in> set (MODE_ASPECTS m)" for a
  proof -
    have "a \<in> fst ` set ?fw" using that f(2) keys by (metis list.set_map)
    then obtain x where "map_of ?fw a = Some x" by (metis map_of_eq_None_iff not_None_eq)
    with nonneg show ?thesis by (auto dest: map_of_SomeD)
  qed
  ultimately show ?thesis by (force simp: weights_ok_def)
qed

text \<open>The profiles \<open>scoring_weights_for\<close> gives the stages.\<close>

lemma parsed_weights_ok:
  assumes "parse_scoring_weights st = Inr pw" and "nonnegative (pw m)"
  shows "weights_ok m (finite_weights (pw m))"
  using assms admitted_weights_ok
  by (cases m) (auto simp: parse_scoring_weights_def split: sum.splits)

section \<open>What the stages leave for the aggregation\<close>

lemma in_order_recorded:
  assumes "in_order analysis_with_result ss c = Inr rs" and "distinct (map stage_name ss)"
    and "\<forall>s \<in> set ss. names_own_result s \<and> required s"
  shows "map stage rs = map stage_name ss \<and>
    (\<forall>s \<in> set ss. \<exists>r c'. completed (fold (\<lambda>r c. analysis_with_result c r) rs c) (stage_name s) = Some r \<and>
       (\<exists>f. c' = c\<lparr>completed := f\<rparr>) \<and> stage_run s 0 Map.empty c' = Inr r)"
  using assms
proof (induction ss arbitrary: c rs)
  case (Cons s ss)
  from Cons.prems(1) obtain r rs' where r: "settled s (isolated s c) = Inr r"
    "in_order analysis_with_result ss (analysis_with_result c r) = Inr rs'" "rs = r # rs'"
    by (auto split: sum.splits)
  have run: "stage_run s 0 Map.empty c = Inr r"
    using r(1) Cons.prems(3)
    by (auto simp: settled_def isolated_def unpickle_def stage_worker_def split: sum.splits exn.splits if_splits)
  have own: "stage r = stage_name s" using run Cons.prems(3) by (auto simp: names_own_result_def)
  let ?c = "fold (\<lambda>r c. analysis_with_result c r) rs' (analysis_with_result c r)"
  have ih: "map stage rs' = map stage_name ss" "\<forall>t \<in> set ss. \<exists>q c'. completed ?c (stage_name t) = Some q \<and>
      (\<exists>f. c' = c\<lparr>completed := f\<rparr>) \<and> stage_run t 0 Map.empty c' = Inr q"
    using Cons.IH [OF r(2)] Cons.prems(2,3) by (auto simp: analysis_with_result_def)
  have "stage_name s \<notin> stage ` set rs'"
    using Cons.prems(2) arg_cong [OF ih(1), of set] by simp
  then have "analysis_result ?c (stage_name s) = analysis_result (analysis_with_result c r) (stage_name s)"
    by (rule analysis_ctx.result_fold_other)
  then have "completed ?c (stage_name s) = Some r"
    by (simp add: analysis_result_def analysis_with_result_def own split: option.splits)
  moreover have "\<exists>f. c = c\<lparr>completed := f\<rparr>" by (rule exI [of _ "completed c"]) simp
  ultimately show ?case
    using ih run own r(3) by auto
qed simp

text \<open>The stages of a mode, and those before the aggregation.\<close>

definition warm_stages :: "settings \<Rightarrow> (mode \<Rightarrow> scoring_weights) \<Rightarrow> worker_lib \<Rightarrow> mode \<Rightarrow> analysis_context pipeline_stage list" where
  "warm_stages st w lib m = filter (\<lambda>s. m \<in> modes s) (flatten (build_stages st w lib))"

definition scoring_stages :: "settings \<Rightarrow> worker_lib \<Rightarrow> mode \<Rightarrow> analysis_context pipeline_stage list" where
  "scoring_stages st lib m =
     filter (\<lambda>s. m \<in> modes s)
       ([preprocess_stage lib FFMPEG_PATH, separate_recording_stage lib, features_stage lib, align_stage lib,
         pitch_stage lib, key_normalization_stage lib (key_config_of st)] @ aspect_stages lib @
        [recording_condition_stage lib (accompaniment_detect_threshold st)])"

lemma warm_stages_eq: "warm_stages st w lib m = scoring_stages st lib m @ [aggregate_stage lib w (scoring_version st)]"
  by (simp add: warm_stages_def scoring_stages_def flatten_build_stages) (simp add: aggregate_stage_def)

lemma scoring_stages_in_build: "set (scoring_stages st lib m) \<subseteq> set (flatten (build_stages st w lib))"
  by (auto simp: scoring_stages_def flatten_build_stages)

lemma build_required: "s \<in> set (flatten (build_stages st w lib)) \<Longrightarrow> required s"
  by (auto simp: flatten_build_stages aspect_stages_def warm_stage_defs)

lemma scoring_stages_distinct: "distinct (map stage_name (scoring_stages st lib m))"
proof -
  have "distinct (map stage_name (warm_stages st w lib m))" for w
    unfolding warm_stages_def by (rule distinct_map_filter) (simp add: build_names)
  then show ?thesis by (simp add: warm_stages_eq)
qed

lemma scoring_stages_members:
  "align_stage lib \<in> set (scoring_stages st lib m)" "pitch_stage lib \<in> set (scoring_stages st lib m)"
  "key_normalization_stage lib (key_config_of st) \<in> set (scoring_stages st lib m)"
  "rhythm_stage lib \<in> set (scoring_stages st lib m)" "vibrato_stage lib \<in> set (scoring_stages st lib m)"
  "dynamics_stage lib \<in> set (scoring_stages st lib m)"
  "recording_condition_stage lib (accompaniment_detect_threshold st) \<in> set (scoring_stages st lib m)"
  "m = Clean \<Longrightarrow> timbre_stage lib \<in> set (scoring_stages st lib m)"
  "m = Clean \<Longrightarrow> breath_stage lib \<in> set (scoring_stages st lib m)"
  by (simp_all add: scoring_stages_def aspect_stages_def warm_stage_defs)

lemma scored_in_order:
  assumes "in_order analysis_with_result (scoring_stages st lib (context_mode c)) c = Inr rs"
    and "\<And>xs ys. wl_corrcoef lib xs ys \<le> 1"
  shows "scored_by_stages (fold (\<lambda>r c. analysis_with_result c r) rs c)"
proof -
  let ?c = "fold (\<lambda>r c. analysis_with_result c r) rs c" and ?ss = "scoring_stages st lib (context_mode c)"
  have "names_own_result s \<and> required s" if "s \<in> set ?ss" for s
  proof -
    have "s \<in> set (flatten (build_stages st w lib))" for w using that scoring_stages_in_build by blast
    then show ?thesis using warm_named build_required by (fastforce simp: names_own_result_def)
  qed
  then have all: "\<forall>s \<in> set ?ss. names_own_result s \<and> required s" by blast
  have rec: "recorded ?c (stage_name s) (\<lambda>r. \<exists>c'. context_mode c' = context_mode c \<and> stage_run s 0 Map.empty c' = Inr r)"
    if "s \<in> set ?ss" for s
  proof -
    have "\<exists>r c'. completed ?c (stage_name s) = Some r \<and> (\<exists>f. c' = c\<lparr>completed := f\<rparr>) \<and> stage_run s 0 Map.empty c' = Inr r"
      by (rule bspec [OF conjunct2 [OF in_order_recorded [OF assms(1) scoring_stages_distinct all]] that])
    then obtain r c' f where r: "completed ?c (stage_name s) = Some r" "c' = c\<lparr>completed := f\<rparr>" "stage_run s 0 Map.empty c' = Inr r"
      by (elim exE conjE)
    then have "context_mode c' = context_mode c" by simp
    with r(1,3) show ?thesis unfolding recorded_def by blast
  qed
  have mode: "context_mode ?c = context_mode c"
    by (induction rs arbitrary: c) (simp_all add: analysis_with_result_def)
  note R = scoring_stages_members [where lib = lib and st = st and m = "context_mode c", THEN rec]
  have mono: "recorded ?c n P \<Longrightarrow> (\<And>r. P r \<Longrightarrow> Q r) \<Longrightarrow> recorded ?c n Q" for n P Q
    by (auto simp: recorded_def)
  have "recorded ?c ''align'' (\<lambda>r. \<exists>us k a ms. r = stage_done ''align'' ms (align_data us k a))"
    using R(1) by (auto simp: align_stage_def fst_Inr elim!: mono dest!: align_named)
  moreover have "recorded ?c ''pitch'' (\<lambda>r. \<exists>np_interp ms c'. pitch_run np_interp ms c' = Inr r)"
    using R(2) by (auto simp: pitch_stage_def elim!: mono)
  moreover have "recorded ?c ''rhythm'' (\<lambda>r. \<exists>np_interp load ms c'. rhythm_run np_interp load ms c' = Inr r)"
    using R(4) by (auto simp: rhythm_stage_def elim!: mono)
  moreover have "recorded ?c ''dynamics'' (\<lambda>r. \<exists>np_interp std corrcoef load ms c'. (\<forall>a b. corrcoef a b \<le> 1) \<and>
      dynamics_run np_interp std corrcoef load ms c' = Inr r)"
    using R(6) assms(2) by (auto simp: dynamics_stage_def elim!: mono) blast
  moreover have "recorded ?c ''vibrato'' (\<lambda>r. \<exists>lib ms c'. vibrato_run lib ms c' = Inr r)"
    using R(5) by (auto simp: vibrato_stage_def elim!: mono)
  moreover have "recorded ?c ''timbre'' (\<lambda>r. \<exists>np_interp load ms c'. timbre_run np_interp load ms c' = Inr r)"
    "recorded ?c ''breath'' (\<lambda>r. \<exists>np_interp load ms c'. breath_run np_interp load ms c' = Inr r)" if "context_mode c = Clean"
    using R(8) [OF that] R(9) [OF that] by (auto simp: timbre_stage_def breath_stage_def elim!: mono)
  moreover have "recorded ?c ''key_normalization'' (\<lambda>r. \<exists>np_median np_percentile cfg ms c'. key_run np_median np_percentile cfg ms c' = Inr r)"
    using R(3) by (auto simp: key_normalization_stage_def elim!: mono) blast
  moreover have "recorded ?c ''recording_condition'' (\<lambda>r. \<exists>np_median read lib threshold ms c'. context_mode c' = context_mode c \<and>
      recording_condition_run np_median read lib threshold ms c' = Inr r)"
    using R(7) by (auto simp: recording_condition_stage_def elim!: mono) blast
  ultimately show ?thesis unfolding scored_by_stages_def mode by blast
qed

lemma in_order_snoc:
  assumes "in_order wr ss c = Inr rs" and "settled s (isolated s (fold (\<lambda>r c. wr c r) rs c)) = Inr r"
  shows "in_order wr (ss @ [s]) c = Inr (rs @ [r])"
  using assms
  by (induction ss arbitrary: c rs) (auto split: sum.splits)

lemma settled_Inr: "(\<And>pid env. stage_run s pid env c = Inr r) \<Longrightarrow> settled s (isolated s c) = Inr r"
  by (simp add: settled_def isolated_def unpickle_def stage_worker_def)

lemma warm_path_scored:
  assumes "in_order analysis_with_result (scoring_stages st lib (context_mode c)) c = Inr rs" and "steady lib"
    and "\<And>xs ys. wl_corrcoef lib xs ys \<le> 1"
    and "weights_ok (context_mode c) (w (context_mode c))"
  shows "\<exists>r score cols. in_order analysis_with_result (warm_stages st w lib (context_mode c)) c = Inr (rs @ [r]) \<and>
    stage r = ''aggregate'' \<and> map_of (data r) ''overall_score'' = Some (PFloat score) \<and> 0 \<le> score \<and> score \<le> 100 \<and>
    scoring_columns_of (data r) = Inr cols"
proof -
  let ?c = "fold (\<lambda>r c. analysis_with_result c r) rs c"
  have mode: "context_mode ?c = context_mode c"
    by (induction rs arbitrary: c) (simp_all add: analysis_with_result_def)
  obtain r score cols where r: "aggregate_run w (scoring_version st) (wl_clock lib ''aggregate'' 0) ?c = Inr r"
    "map_of (data r) ''overall_score'' = Some (PFloat score)" "0 \<le> score" "score \<le> 100" "scoring_columns_of (data r) = Inr cols"
    using aggregate_facts [of ?c w "scoring_version st" "wl_clock lib ''aggregate'' 0",
        OF scored_by_stages_scored [OF scored_in_order [OF assms(1,3)]]] assms(4) mode
    by auto
  have clock: "wl_clock lib ''aggregate'' pid = wl_clock lib ''aggregate'' 0" for pid
    using assms(2) by (simp only: steady_def)
  have "stage_run (aggregate_stage lib w (scoring_version st)) pid env ?c = Inr r" for pid env
    unfolding aggregate_stage_def pipeline_stage.simps by (subst clock) (rule r(1))
  then have "in_order analysis_with_result (warm_stages st w lib (context_mode c)) c = Inr (rs @ [r])"
    unfolding warm_stages_eq by (intro in_order_snoc [OF assms(1)] settled_Inr)
  with r aggregate_named [OF r(1)] show ?thesis by blast
qed

section \<open>Nothing fails after the alignment\<close>

text \<open>What is relied on of the libraries: documented behaviour of the detector, of a full autocorrelation, of RMS.\<close>

definition libraries_ok :: "worker_lib \<Rightarrow> bool" where
  "libraries_ok lib \<longleftrightarrow>
     detects_positive (wl_detect lib) \<and>
     (\<forall>xs. xs \<noteq> [] \<longrightarrow> lib_autocorr (wl_vibrato lib) xs \<noteq> []) \<and>
     (\<forall>samples hop. \<exists>ys. librosa_rms (wl_librosa lib) samples hop = Inr ys) \<and>
     (\<forall>xs ys. wl_corrcoef lib xs ys \<le> 1)"

lemma oscillation_total:
  assumes "\<And>xs. xs \<noteq> [] \<Longrightarrow> lib_autocorr lib xs \<noteq> []"
  shows "\<exists>x. dominant_oscillation lib cents hop = Inr x"
proof (cases "length cents < 4")
  case False
  let ?full = "lib_autocorr lib (map (\<lambda>c. c - mean cents) cents)"
  have "?full \<noteq> []" using False by (intro assms) auto
  then have "0 < length (drop (length ?full div 2) ?full)" by simp
  then have "np_index (drop (length ?full div 2) ?full) 0 = Inr (drop (length ?full div 2) ?full ! 0)"
    using np_index_in_range [of 0 "drop (length ?full div 2) ?full"] by simp
  then show ?thesis by (simp add: dominant_oscillation_def Let_def)
qed (simp add: dominant_oscillation_def Let_def)

lemma profile_total:
  assumes "\<And>xs. xs \<noteq> [] \<Longrightarrow> lib_autocorr lib xs \<noteq> []" and "hop_seconds curve \<noteq> 0"
  shows "\<exists>p. profile lib curve = Inr p"
proof -
  have "\<exists>ds. detections_of lib hop runs = Inr ds" for hop runs
  proof (induction runs)
    case (Cons r runs)
    then show ?case using oscillation_total [of lib, OF assms(1), of "run_cents lib r" hop] by auto
  qed simp
  then obtain ds where "detections_of lib (hop_seconds curve)
      (run_loop (nat (max 1 (py_round (VIBRATO_MIN_SEGMENT_SECONDS / hop_seconds curve)))) [] (hz curve)) = Inr ds" by blast
  then show ?thesis using assms(2) by (simp add: profile_def sustained_runs_def)
qed

lemma vibrato_total:
  assumes "stage_data c ''pitch'' = Inr (pitch_data us rs ds)" and "\<And>xs. xs \<noteq> [] \<Longrightarrow> lib_autocorr lib xs \<noteq> []"
    and "hop_seconds (reference_pitch c) \<noteq> 0"
  shows "\<exists>r. vibrato_run lib ms c = Inr r"
proof -
  have curve: "map_of (pitch_data us rs ds) ''user_pitch_curve'' = Some (dump_curve \<lparr>hop_seconds = PITCH_HOP_SECONDS, hz = us\<rparr>)"
    by (simp add: pitch_data_def Let_def)
  obtain p q where "profile lib \<lparr>hop_seconds = PITCH_HOP_SECONDS, hz = us\<rparr> = Inr p" "profile lib (reference_pitch c) = Inr q"
    using profile_total [of lib, OF assms(2)] assms(3) by (fastforce simp: PITCH_HOP_SECONDS_def)
  then show ?thesis using curve assms(1) by (simp add: vibrato_run_def getitem_of_map)
qed

lemma aspects_total:
  assumes "cached_features load c = Inr f" and "stage_data c ''align'' = Inr (align_data us k a)"
    and "rms_envelope (reference_side f) \<noteq> []" and "mfcc (reference_side f) \<noteq> []"
  shows "\<exists>r. rhythm_run np_interp load ms c = Inr r" "\<exists>r. dynamics_run np_interp std corrcoef load ms c = Inr r"
    "\<exists>r. timbre_run np_interp load ms c = Inr r" "\<exists>r. breath_run np_interp load ms c = Inr r"
proof -
  show "\<exists>r. rhythm_run np_interp load ms c = Inr r"
    by (simp add: rhythm_run_def assms(1,2) Let_def)
  show "\<exists>r. breath_run np_interp load ms c = Inr r"
    by (simp add: breath_run_def assms(1,2) Let_def case_prod_beta)
  obtain xs where "similarities_from np_interp (from_warping_path (index1 (fine a)) (index2 (fine a)) PITCH_HOP_SECONDS)
      (mfcc (reference_side f)) 0 (mfcc (user_side f)) = Inr xs"
    using similarities_total [OF assms(4)] by blast
  then show "\<exists>r. timbre_run np_interp load ms c = Inr r"
    by (simp add: timbre_run_def assms(1,2) Let_def)
  obtain ys where "resample_reference_onto_user_grid np_interp (from_warping_path (index1 (fine a)) (index2 (fine a)) PITCH_HOP_SECONDS)
      (rms_envelope (user_side f)) (rms_envelope (reference_side f)) FEATURES_HOP_SECONDS = Inr ys"
    using resample_from_ok [OF assms(3)] unfolding resample_reference_onto_user_grid_def by blast
  then show "\<exists>r. dynamics_run np_interp std corrcoef load ms c = Inr r"
    by (simp add: dynamics_run_def assms(1,2) Let_def)
qed

lemma recording_condition_total:
  assumes "stage_data c ''preprocess'' = Inr d" and "read_as py_str d ''recording_path'' = Inr path"
    and "read path = Inr (samples, rate)" and "\<And>samples hop. \<exists>ys. librosa_rms lib samples hop = Inr ys"
    and "stage_data c ''pitch'' = Inr (pitch_data us rs ds)"
  shows "\<exists>r. recording_condition_run np_median read lib threshold ms c = Inr r"
proof -
  obtain ys where "librosa_rms lib samples (hop_length rate PITCH_HOP_SECONDS) = Inr ys" using assms(4) by blast
  moreover have "user_hz_of (pitch_data us rs ds) = Inr us"
    by (simp add: user_hz_of_def pitch_data_def read_as_def dump_curve_def Let_def)
  ultimately show ?thesis
    by (simp add: recording_condition_run_def assms(1,2,3,5) compute_rms_envelope_def rms_envelope_of_def Let_def)
qed

text \<open>Stages that read only what all of them share can run in any order.\<close>

lemma in_order_on:
  assumes "\<And>s. s \<in> set ss \<Longrightarrow> reads_only s N \<and> names_own_result s \<and> stage_name s \<notin> N \<and> (\<exists>r. stage_run s 0 Map.empty c = Inr r)"
    and "agree_on N c c'"
  shows "\<exists>rs. in_order analysis_with_result ss c' = Inr rs"
  using assms
proof (induction ss arbitrary: c')
  case (Cons s ss)
  obtain r where r: "stage_run s 0 Map.empty c = Inr r" "reads_only s N" "names_own_result s" "stage_name s \<notin> N"
    using Cons.prems(1) [of s] by auto
  have run: "stage_run s 0 Map.empty c' = Inr r" using r(1,2) Cons.prems(2) unfolding reads_only_def by metis
  then have "settled s (isolated s c') = Inr r"
    by (simp add: settled_def isolated_def unpickle_def stage_worker_def)
  moreover have "stage r = stage_name s" using r(3) run by (auto simp: names_own_result_def)
  then have "agree_on N c (analysis_with_result c' r)"
    using Cons.prems(2) r(4) by (auto simp: agree_on_def analysis_with_result_def)
  then obtain rs where "in_order analysis_with_result ss (analysis_with_result c' r) = Inr rs"
    using Cons.IH [of "analysis_with_result c' r"] Cons.prems(1) by auto
  ultimately show ?case by simp
qed simp

definition alignment_stages :: "worker_lib \<Rightarrow> mode \<Rightarrow> analysis_context pipeline_stage list" where
  "alignment_stages lib m =
     filter (\<lambda>s. m \<in> modes s)
       [preprocess_stage lib FFMPEG_PATH, separate_recording_stage lib, features_stage lib, align_stage lib]"

definition later_stages :: "settings \<Rightarrow> worker_lib \<Rightarrow> mode \<Rightarrow> analysis_context pipeline_stage list" where
  "later_stages st lib m =
     filter (\<lambda>s. m \<in> modes s)
       (key_normalization_stage lib (key_config_of st) # aspect_stages lib @
        [recording_condition_stage lib (accompaniment_detect_threshold st)])"

lemma scoring_stages_eq: "scoring_stages st lib m = alignment_stages lib m @ pitch_stage lib # later_stages st lib m"
  by (simp add: scoring_stages_def alignment_stages_def later_stages_def) (simp add: pitch_stage_def)

text \<open>The files the stages before left are still there: the cached features, with a reference side, and the WAV file.\<close>

definition disk_ready :: "worker_lib \<Rightarrow> analysis_context \<Rightarrow> bool" where
  "disk_ready lib c \<longleftrightarrow>
     (\<forall>n \<in> {''rhythm'', ''dynamics'', ''timbre'', ''breath''}.
        \<exists>f. npz (wl_disk lib n 0) (path_join (work_dir c) ''features.npz'') = Some f \<and>
          rms_envelope (reference_side f) \<noteq> [] \<and> mfcc (reference_side f) \<noteq> []) \<and>
     wavs (wl_disk lib ''recording_condition'' 0) (path_join (work_dir c) ''recording.wav'') \<noteq> None"

text \<open>What the stages up to the alignment have stored.\<close>

lemma alignment_stored:
  assumes "in_order analysis_with_result (alignment_stages lib (context_mode c)) c = Inr ps" and "libraries_ok lib"
  defines "c1 \<equiv> fold (\<lambda>r c. analysis_with_result c r) ps c"
  shows "\<exists>us k a d. stage_data c1 ''preprocess'' = Inr d \<and>
      read_as py_str d ''recording_path'' = Inr (path_join (work_dir c) ''recording.wav'') \<and>
    and_then (stage_data c1 ''features'') (\<lambda>d. read_as py_str d ''features_path'') = Inr (path_join (work_dir c) ''features.npz'') \<and>
    stage_data c1 ''align'' = Inr (align_data us k a) \<and> (\<forall>v. Some v \<in> set us \<longrightarrow> 0 < v)"
proof -
  let ?ss = "alignment_stages lib (context_mode c)"
  have in_build: "set ?ss \<subseteq> set (flatten (build_stages st w lib))" for st w
    by (auto simp: alignment_stages_def flatten_build_stages)
  have all: "\<forall>s \<in> set ?ss. names_own_result s \<and> required s"
    using in_build warm_named build_required by (fastforce simp: names_own_result_def)
  have distinct: "distinct (map stage_name ?ss)"
    by (cases "context_mode c") (simp_all add: alignment_stages_def warm_stage_defs)
  have rec: "\<exists>r f. completed c1 (stage_name s) = Some r \<and> stage_run s 0 Map.empty (c\<lparr>completed := f\<rparr>) = Inr r"
    if "s \<in> set ?ss" for s
    using bspec [OF conjunct2 [OF in_order_recorded [OF assms(1) distinct all]] that] unfolding c1_def
    by (elim exE conjE) (intro exI conjI, assumption, simp)
  have members: "preprocess_stage lib FFMPEG_PATH \<in> set ?ss" "features_stage lib \<in> set ?ss" "align_stage lib \<in> set ?ss"
    by (simp_all add: alignment_stages_def preprocess_stage_def features_stage_def align_stage_def)
  obtain p fp where p: "completed c1 ''preprocess'' = Some p" "stage_run (preprocess_stage lib FFMPEG_PATH) 0 Map.empty (c\<lparr>completed := fp\<rparr>) = Inr p"
    using rec [OF members(1)] by (auto simp: preprocess_stage_def)
  obtain q fq where q: "completed c1 ''features'' = Some q" "stage_run (features_stage lib) 0 Map.empty (c\<lparr>completed := fq\<rparr>) = Inr q"
    using rec [OF members(2)] by (auto simp: features_stage_def)
  obtain r fr where r: "completed c1 ''align'' = Some r" "stage_run (align_stage lib) 0 Map.empty (c\<lparr>completed := fr\<rparr>) = Inr r"
    using rec [OF members(3)] by (auto simp: align_stage_def)
  have P: "map_of (data p) ''recording_path'' = Some (PStr (path_join (work_dir c) ''recording.wav''))"
    using p(2) by (auto simp: preprocess_stage_def fst_Inr preprocess_run_def thenp_eq_Inr bindp_eq_Inr Let_def)
  have Q: "map_of (data q) ''features_path'' = Some (PStr (path_join (work_dir c) ''features.npz''))"
    using q(2) by (auto simp: features_stage_def fst_Inr features_run_def thenp_eq_Inr bindp_eq_Inr Let_def)
  obtain w' where "align_run (wl_interp lib) (wl_argsort lib) (reads_wav (wl_disk lib ''align'' 0))
      (load_shared_features (npz (wl_disk lib ''align'' 0))) (wl_detect lib) (ret ()) (wl_clock lib ''align'' 0)
      (c\<lparr>completed := fr\<rparr>) (wl_disk lib ''align'' 0) = (Inr r, w')"
    using r(2) by (auto simp: align_stage_def fst_Inr)
  from align_run_Inr [OF this] obtain us k a samples rate and f :: loaded_features where
    us: "detect_gated (wl_detect lib) samples rate PITCH_HOP_SECONDS (rms_fine (user_side f)) = Inr us"
    and R: "r = stage_done ''align'' (wl_clock lib ''align'' 0) (align_data us k a)" by blast
  have "\<forall>v. Some v \<in> set us \<longrightarrow> 0 < v"
    using detect_gated_positive [OF _ us] assms(2) by (auto simp: libraries_ok_def)
  moreover have "stage_data c1 ''preprocess'' = Inr (data p)" "stage_data c1 ''features'' = Inr (data q)"
    "stage_data c1 ''align'' = Inr (align_data us k a)"
    using p(1) q(1) r(1) R by (simp_all add: stage_data_recorded)
  ultimately show ?thesis using P Q by (auto simp: read_as_def getitem_of_map)
qed

lemma reads_only_mono: "reads_only s M \<Longrightarrow> M \<subseteq> N \<Longrightarrow> reads_only s N"
  unfolding reads_only_def agree_on_def by blast

lemma in_order_join:
  "in_order wr ss c = Inr ps \<Longrightarrow> in_order wr ts (fold (\<lambda>r c. wr c r) ps c) = Inr qs \<Longrightarrow> in_order wr (ss @ ts) c = Inr (ps @ qs)"
  by (induction ss arbitrary: c ps) (auto split: sum.splits)

text \<open>Each later stage on the data that the alignment and the pitch comparison have stored.\<close>

lemma later_stage_total:
  assumes "s \<in> set (later_stages st lib m)" and "libraries_ok lib" and "disk_ready lib c"
    and "stage_data c ''preprocess'' = Inr d" "read_as py_str d ''recording_path'' = Inr (path_join (work_dir c) ''recording.wav'')"
    and "and_then (stage_data c ''features'') (\<lambda>d. read_as py_str d ''features_path'') = Inr (path_join (work_dir c) ''features.npz'')"
    and "stage_data c ''align'' = Inr (align_data us k a)" and "stage_data c ''pitch'' = Inr (pitch_data us rs ds)"
    and "hop_seconds (reference_pitch c) \<noteq> 0"
  shows "\<exists>r. stage_run s 0 Map.empty c = Inr r"
proof -
  have aspect: "\<exists>r. rhythm_run i (load_shared_features (npz (wl_disk lib n 0))) ms c = Inr r"
      "\<exists>r. dynamics_run i sd cc (load_shared_features (npz (wl_disk lib n 0))) ms c = Inr r"
      "\<exists>r. timbre_run i (load_shared_features (npz (wl_disk lib n 0))) ms c = Inr r"
      "\<exists>r. breath_run i (load_shared_features (npz (wl_disk lib n 0))) ms c = Inr r"
    if "n \<in> {''rhythm'', ''dynamics'', ''timbre'', ''breath''}" for n i sd cc ms
  proof -
    note n = that
    obtain f where f: "npz (wl_disk lib n 0) (path_join (work_dir c) ''features.npz'') = Some f"
      "rms_envelope (reference_side f) \<noteq> []" "mfcc (reference_side f) \<noteq> []"
      using bspec [OF conjunct1 [OF assms(3) [unfolded disk_ready_def]] n] by (elim exE conjE)
    then have "cached_features (load_shared_features (npz (wl_disk lib n 0))) c = Inr f"
      using assms(6) by (auto simp: cached_features_def and_then_eq_Inr load_shared_features_def)
    note t = aspects_total [OF this assms(7) f(2,3)]
    show "\<exists>r. rhythm_run i (load_shared_features (npz (wl_disk lib n 0))) ms c = Inr r"
      "\<exists>r. dynamics_run i sd cc (load_shared_features (npz (wl_disk lib n 0))) ms c = Inr r"
      "\<exists>r. timbre_run i (load_shared_features (npz (wl_disk lib n 0))) ms c = Inr r"
      "\<exists>r. breath_run i (load_shared_features (npz (wl_disk lib n 0))) ms c = Inr r"
      by (rule t)+
  qed
  have vibrato: "\<exists>r. vibrato_run (wl_vibrato lib) ms c = Inr r" for ms
    by (rule vibrato_total [OF assms(8) _ assms(9)]) (use assms(2) in \<open>simp add: libraries_ok_def\<close>)
  have key: "\<exists>r. key_run md pc cfg ms c = Inr r" for md pc cfg ms
    by (simp add: key_run_of_pitch [OF assms(8)])
  obtain samples rate where "wavs (wl_disk lib ''recording_condition'' 0) (path_join (work_dir c) ''recording.wav'') = Some (samples, rate)"
    using assms(3) unfolding disk_ready_def by auto
  then have "reads_wav (wl_disk lib ''recording_condition'' 0) (path_join (work_dir c) ''recording.wav'') = Inr (samples, rate)"
    by (simp add: reads_wav_def read_wav_def)
  note wav = this
  have rms: "\<exists>ys. librosa_rms (wl_librosa lib) samples hop = Inr ys" for samples hop
    using assms(2) by (simp add: libraries_ok_def)
  have rc: "\<exists>r. recording_condition_run md (reads_wav (wl_disk lib ''recording_condition'' 0)) (wl_librosa lib) t ms c = Inr r" for md t ms
    by (rule recording_condition_total [where d = d and us = us and rs = rs and ds = ds and samples = samples
          and rate = rate and path = "path_join (work_dir c) ''recording.wav''"]) (simp_all add: assms(4,5,8) wav rms)
  from assms(1) have "s = key_normalization_stage lib (key_config_of st) \<or> s = rhythm_stage lib \<or> s = vibrato_stage lib \<or>
      s = dynamics_stage lib \<or> s = timbre_stage lib \<or> s = breath_stage lib \<or>
      s = recording_condition_stage lib (accompaniment_detect_threshold st)"
    by (auto simp: later_stages_def aspect_stages_def split: if_splits)
  then show ?thesis
    by (elim disjE; simp add: key_normalization_stage_def rhythm_stage_def vibrato_stage_def dynamics_stage_def timbre_stage_def
        breath_stage_def recording_condition_stage_def aspect vibrato key rc)
qed

lemma context_fold: "\<exists>f. fold (\<lambda>r c. analysis_with_result c r) ps c = c\<lparr>completed := f\<rparr>"
proof (induction ps arbitrary: c)
  case (Cons r ps)
  then show ?case using Cons.IH [of "analysis_with_result c r"] by (auto simp: analysis_with_result_def)
next
  case Nil
  show ?case by (rule exI [of _ "completed c"]) simp
qed

lemma after_alignment:
  assumes ps: "in_order analysis_with_result (alignment_stages lib (context_mode c)) c = Inr ps"
    and lib: "libraries_ok lib" and disk: "disk_ready lib c" and hop: "hop_seconds (reference_pitch c) \<noteq> 0"
    and pos: "\<And>v. Some v \<in> set (hz (reference_pitch c)) \<Longrightarrow> 0 < v"
  shows "\<exists>rs. in_order analysis_with_result (scoring_stages st lib (context_mode c)) c = Inr rs"
proof -
  define c1 where "c1 = fold (\<lambda>r c. analysis_with_result c r) ps c"
  have c1: "\<exists>f. c1 = c\<lparr>completed := f\<rparr>" unfolding c1_def by (rule context_fold)
  obtain us k a d where st: "stage_data c1 ''preprocess'' = Inr d"
      "read_as py_str d ''recording_path'' = Inr (path_join (work_dir c) ''recording.wav'')"
      "and_then (stage_data c1 ''features'') (\<lambda>d. read_as py_str d ''features_path'') = Inr (path_join (work_dir c) ''features.npz'')"
      "stage_data c1 ''align'' = Inr (align_data us k a)" "\<forall>v. Some v \<in> set us \<longrightarrow> 0 < v"
    using alignment_stored [OF ps lib] unfolding c1_def by blast
  have fields: "reference_pitch c1 = reference_pitch c" "work_dir c1 = work_dir c" using c1 by auto
  have "\<exists>p. compare_from (wl_interp lib) (from_warping_path (index1 (fine a)) (index2 (fine a)) PITCH_HOP_SECONDS)
      PITCH_HOP_SECONDS (hz (reference_pitch c1)) 0 us = Inr p"
    by (rule compare_from_total) (use st(5) pos fields(1) in auto)
  then obtain rs ds where run: "pitch_run (wl_interp lib) (wl_clock lib ''pitch'' 0) c1 =
      Inr (stage_done ''pitch'' (wl_clock lib ''pitch'' 0) (pitch_data us rs ds))"
    by (auto simp: pitch_run_def st(4) align_and_compare_def)
  define r where "r = stage_done ''pitch'' (wl_clock lib ''pitch'' 0) (pitch_data us rs ds)"
  define c2 where "c2 = analysis_with_result c1 r"
  have pitch: "settled (pitch_stage lib) (isolated (pitch_stage lib) c1) = Inr r"
    using run by (simp add: settled_def isolated_def unpickle_def stage_worker_def pitch_stage_def r_def)
  have other: "stage_data c2 n = stage_data c1 n" if "n \<noteq> ''pitch''" for n
    using that by (simp add: c2_def stage_data_def analysis_ctx.result_with r_def)
  have own: "stage_data c2 ''pitch'' = Inr (pitch_data us rs ds)"
    by (simp add: c2_def stage_data_def analysis_ctx.result_with r_def)
  have disk2: "disk_ready lib c2" and hop2: "hop_seconds (reference_pitch c2) \<noteq> 0"
      and path: "work_dir c2 = work_dir c"
    using disk hop fields by (simp_all add: disk_ready_def c2_def analysis_with_result_def)
  have total: "\<exists>r. stage_run s 0 Map.empty c2 = Inr r" if "s \<in> set (later_stages st lib (context_mode c))" for s
    by (rule later_stage_total [where d = d and k = k and a = a, OF that lib disk2 _ _ _ _ own hop2])
      (simp_all add: other path st)
  let ?N = "{''preprocess'', ''features'', ''align'', ''pitch''}"
  have "reads_only s ?N \<and> names_own_result s \<and> stage_name s \<notin> ?N" if "s \<in> set (later_stages st lib (context_mode c))" for s
  proof -
    have "s \<in> set (flatten (build_stages st w lib))" for w
      using that by (auto simp: later_stages_def flatten_build_stages split: if_splits)
    then have "reads_only s (dependencies (stage_name s))" "names_own_result s"
      using reads_only_build warm_named by (fastforce simp: names_own_result_def)+
    moreover have "dependencies (stage_name s) \<subseteq> ?N \<and> stage_name s \<notin> ?N"
      using that by (auto simp: later_stages_def aspect_stages_def warm_stage_defs split: if_splits)
    ultimately show ?thesis using reads_only_mono by blast
  qed
  moreover have "agree_on ?N c2 c2" by (auto simp: agree_on_def intro: exI [of _ "completed c2"])
  ultimately obtain qs where "in_order analysis_with_result (later_stages st lib (context_mode c)) c2 = Inr qs"
    using in_order_on [of "later_stages st lib (context_mode c)" ?N c2 c2] total by blast
  then have "in_order analysis_with_result (pitch_stage lib # later_stages st lib (context_mode c)) c1 = Inr (r # qs)"
    using pitch by (simp add: c2_def)
  then show ?thesis
    unfolding scoring_stages_eq c1_def using in_order_join [OF ps] by blast
qed

lemma warm_stages_flag: "warm_stages (st\<lparr>pipeline_parallel_aspects := parallel\<rparr>) w lib m = warm_stages st w lib m"
  by (simp add: warm_stages_def flatten_build_stages key_config_of_def)

lemma run_warm_in_order:
  assumes "steady lib" and "all_finish fate" and "working_ports I obs add job ports" and "I (os_state.more v)"
    and "in_order analysis_with_result (warm_stages st w lib m) c = Inr rs"
  shows "\<exists>v'. run analysis_with_result fate (build_stages st w lib) ports job c [] (Some m) v = (Inr COMPLETED, v') \<and>
    I (os_state.more v') \<and> obs (os_state.more v') = fold add rs (obs (os_state.more v))"
proof -
  let ?es = "build_stages st w lib"
  have "flatten (remaining_entries (stages_for_mode ?es (Some m)) []) = warm_stages st w lib m"
    by (simp add: flatten_remaining stages_for_mode_def flatten_mode warm_stages_def)
  moreover have "parallel_safe analysis_with_result (stages_for_mode ?es (Some m))"
    by (simp add: stages_for_mode_def parallel_safe_mode build_parallel_safe [OF assms(1)])
  ultimately show ?thesis
    using run_in_order [OF assms(3,2,4), of analysis_with_result ?es "Some m" "[]" c rs] assms(5) by auto
qed

lemma warm_stages_distinct: "distinct (map stage_name (warm_stages st w lib m))"
  unfolding warm_stages_def by (rule distinct_map_filter) (simp add: build_names)

lemma warm_stages_ok: "\<forall>s \<in> set (warm_stages st w lib m). names_own_result s \<and> required s"
proof
  fix s assume "s \<in> set (warm_stages st w lib m)"
  then have "s \<in> set (flatten (build_stages st w lib))" by (simp add: warm_stages_def)
  then show "names_own_result s \<and> required s"
    using warm_named build_required by (fastforce simp: names_own_result_def)
qed

text \<open>What the stages compute in order, whatever runs them.\<close>

lemma warm_path_target:
  assumes "parse_scoring_weights st = Inr pw" and "nonnegative (pw (context_mode c))"
    and "libraries_ok lib" and "steady lib" and "disk_ready lib c"
    and "hop_seconds (reference_pitch c) \<noteq> 0" and "\<And>v. Some v \<in> set (hz (reference_pitch c)) \<Longrightarrow> 0 < v"
    and "in_order analysis_with_result (alignment_stages lib (context_mode c)) c = Inr ps"
  shows "\<exists>rs r score cols.
    in_order analysis_with_result (warm_stages st (\<lambda>m. finite_weights (pw m)) lib (context_mode c)) c = Inr (rs @ [r]) \<and>
    stages_scored (fold (\<lambda>r c. analysis_with_result c r) rs c) \<and>
    map stage (rs @ [r]) = map stage_name (warm_stages st (\<lambda>m. finite_weights (pw m)) lib (context_mode c)) \<and>
    stage r = ''aggregate'' \<and> map_of (data r) ''overall_score'' = Some (PFloat score) \<and> 0 \<le> score \<and> score \<le> 100 \<and>
    scoring_columns_of (data r) = Inr cols"
proof -
  let ?w = "\<lambda>m. finite_weights (pw m)" and ?m = "context_mode c"
  let ?ss = "warm_stages st ?w lib ?m"
  obtain rs where rs: "in_order analysis_with_result (scoring_stages st lib ?m) c = Inr rs"
    using after_alignment [OF assms(8,3,5,6,7)] by blast
  have corr: "\<And>xs ys. wl_corrcoef lib xs ys \<le> 1" using assms(3) by (simp add: libraries_ok_def)
  obtain r score cols where r: "in_order analysis_with_result ?ss c = Inr (rs @ [r])"
    "stage r = ''aggregate''" "map_of (data r) ''overall_score'' = Some (PFloat score)" "0 \<le> score" "score \<le> 100"
    "scoring_columns_of (data r) = Inr cols"
    using warm_path_scored [of st lib c rs ?w, OF rs assms(4) corr parsed_weights_ok [OF assms(1,2)]] by blast
  moreover have "stages_scored (fold (\<lambda>r c. analysis_with_result c r) rs c)"
    by (rule scored_by_stages_scored [OF scored_in_order [OF rs corr]])
  moreover have "map stage (rs @ [r]) = map stage_name ?ss"
    using in_order_recorded [OF r(1) warm_stages_distinct] warm_stages_ok by blast
  ultimately show ?thesis by blast
qed

lemma warm_path_run:
  assumes "parse_scoring_weights st = Inr pw" and "nonnegative (pw (context_mode c))"
    and "libraries_ok lib" and "steady lib" and "disk_ready lib c"
    and "hop_seconds (reference_pitch c) \<noteq> 0" and "\<And>v. Some v \<in> set (hz (reference_pitch c)) \<Longrightarrow> 0 < v"
    and "all_finish fate" and "working_ports I obs add job ports" and "I (os_state.more v)"
    and "in_order analysis_with_result (alignment_stages lib (context_mode c)) c = Inr ps"
  shows "\<exists>v' rs r score cols. run analysis_with_result fate (build_stages st (\<lambda>m. finite_weights (pw m)) lib) ports job c []
      (Some (context_mode c)) v = (Inr COMPLETED, v') \<and>
    I (os_state.more v') \<and> obs (os_state.more v') = fold add (rs @ [r]) (obs (os_state.more v)) \<and>
    stages_scored (fold (\<lambda>r c. analysis_with_result c r) rs c) \<and>
    map stage (rs @ [r]) = map stage_name (warm_stages st (\<lambda>m. finite_weights (pw m)) lib (context_mode c)) \<and>
    stage r = ''aggregate'' \<and> map_of (data r) ''overall_score'' = Some (PFloat score) \<and> 0 \<le> score \<and> score \<le> 100 \<and>
    scoring_columns_of (data r) = Inr cols"
proof -
  let ?es = "build_stages st (\<lambda>m. finite_weights (pw m)) lib"
  from warm_path_target [OF assms(1-6) _ assms(11)] assms(7) obtain rs r score cols where
    r: "in_order analysis_with_result (warm_stages st (\<lambda>m. finite_weights (pw m)) lib (context_mode c)) c = Inr (rs @ [r])"
      "stages_scored (fold (\<lambda>r c. analysis_with_result c r) rs c)"
      "map stage (rs @ [r]) = map stage_name (warm_stages st (\<lambda>m. finite_weights (pw m)) lib (context_mode c))"
      "stage r = ''aggregate''" "map_of (data r) ''overall_score'' = Some (PFloat score)" "0 \<le> score" "score \<le> 100"
      "scoring_columns_of (data r) = Inr cols" by blast
  obtain v' where "run analysis_with_result fate ?es ports job c [] (Some (context_mode c)) v = (Inr COMPLETED, v')"
    "I (os_state.more v')" "obs (os_state.more v') = fold add (rs @ [r]) (obs (os_state.more v))"
    using run_warm_in_order [OF assms(4,8,9,10) r(1)] by auto
  with r show ?thesis by blast
qed

section \<open>Properties\<close>

text \<open>
  C16: \<open>PIPELINE_PARALLEL_ASPECTS\<close> changes nothing in what an analysis stores: where the stages of the mode,
  run one after the other, return results, a run with the group and a run of the flat list both
  complete and save exactly these results in this order.
\<close>

theorem parallel_aspects_equivalent:
  assumes "steady lib" and "all_finish fate" and "working_ports I obs add job ports" and "I (os_state.more v)"
    and "in_order analysis_with_result (warm_stages st w lib m) c = Inr rs"
  shows "\<exists>v'. run analysis_with_result fate (build_stages (st\<lparr>pipeline_parallel_aspects := parallel\<rparr>) w lib) ports job c []
      (Some m) v = (Inr COMPLETED, v') \<and>
    obs (os_state.more v') = fold add rs (obs (os_state.more v))"
proof -
  have "in_order analysis_with_result (warm_stages (st\<lparr>pipeline_parallel_aspects := parallel\<rparr>) w lib m) c = Inr rs"
    by (simp add: warm_stages_flag assms(5))
  from run_warm_in_order [OF assms(1-4) this] show ?thesis by blast
qed

text \<open>
  C4: The warm path as a whole: with an admitted non-negative configuration, once preprocessing, separation,
  feature extraction and alignment have returned results, nothing after them can fail. A run whose
  children can finish completes, grouped or flat; it saves one result for each stage of the mode, in
  order, the last is the aggregation's, its overall score is within 0 and 100 and the job handler
  can write its columns.
\<close>

theorem warm_path_completes:
  assumes "parse_scoring_weights st = Inr pw" and "nonnegative (pw (context_mode c))"
    and "libraries_ok lib" and "steady lib" and "disk_ready lib c"
    and "hop_seconds (reference_pitch c) \<noteq> 0" and "\<And>v. Some v \<in> set (hz (reference_pitch c)) \<Longrightarrow> 0 < v"
    and "all_finish fate" and "working_ports I obs add job ports" and "I (os_state.more v)"
    and "in_order analysis_with_result (alignment_stages lib (context_mode c)) c = Inr ps"
  shows "\<exists>v' rs r score cols. run analysis_with_result fate (build_stages st (\<lambda>m. finite_weights (pw m)) lib) ports job c []
      (Some (context_mode c)) v = (Inr COMPLETED, v') \<and>
    obs (os_state.more v') = fold add (rs @ [r]) (obs (os_state.more v)) \<and>
    map stage (rs @ [r]) = map stage_name (warm_stages st (\<lambda>m. finite_weights (pw m)) lib (context_mode c)) \<and>
    stage r = ''aggregate'' \<and> map_of (data r) ''overall_score'' = Some (PFloat score) \<and> 0 \<le> score \<and> score \<le> 100 \<and>
    scoring_columns_of (data r) = Inr cols"
  using warm_path_run [OF assms(1-6) _ assms(8-11)] assms(7) by blast

text \<open>The concrete worker with its profiles and a clean job.\<close>

definition demo_profiles :: "mode \<Rightarrow> weights" where
  "demo_profiles m = (case m of Clean \<Rightarrow> profile_weights demo_clean_profile | Mixed \<Rightarrow> profile_weights demo_mixed_profile)"

lemma demo_profiles_parsed: "parse_scoring_weights demo_settings = Inr demo_profiles"
proof -
  have "parse_weights (profile_text demo_clean_profile) Clean = Inr (profile_weights demo_clean_profile)"
    by (rule percent_profile_parsed) (auto simp: demo_clean_profile_def ASPECTS_def)
  moreover have "parse_weights (profile_text demo_mixed_profile) Mixed = Inr (profile_weights demo_mixed_profile)"
    by (rule percent_profile_parsed) (auto simp: demo_mixed_profile_def)
  ultimately show ?thesis
    by (simp add: parse_scoring_weights_def demo_settings_def default_settings_def demo_profiles_def fun_eq_iff)
qed

lemma demo_profiles_nonnegative: "nonnegative (demo_profiles m)"
proof -
  have "nonnegative (profile_weights ps)" for ps
    unfolding nonnegative_def profile_weights_def by (auto intro: exI [of _ "real _ / 100"])
  then show ?thesis by (cases m) (simp_all add: demo_profiles_def)
qed

lemma demo_lib_ok: "steady demo_lib" "libraries_ok demo_lib" "disk_ready demo_lib c"
  by (auto simp: steady_def libraries_ok_def detects_positive_def disk_ready_def demo_lib_def demo_vibrato_lib_def
      demo_librosa_def demo_worker_disk_def)

lemma demo_preprocess_stage:
  "stage_run (preprocess_stage demo_lib p) pid env c =
     Inr (stage_done ''preprocess'' 0 [(''recording_path'', PStr (path_join (work_dir c) ''recording.wav'')), (''sample_rate_hz'', PInt 22050),
       (''recording_loudness_lufs'', PFloat (- 20))])"
  by (simp add: preprocess_stage_def preprocess_run_def decode_and_normalize_def thenp_def bindp_def resampled_path
      canonicalize_for_pipeline_def run_ffmpeg_def demo_exec_def read_wav_def measure_and_normalize_def demo_audio_def
      demo_lib_def demo_worker_disk_def PIPELINE_SAMPLE_RATE_HZ_def Let_def)

lemma demo_features_stage:
  assumes "completed c ''preprocess'' = Some (stage_done ''preprocess'' 0 (( ''recording_path'', PStr path) # d))"
    and "completed c ''separate_recording'' = None"
  shows "stage_run (features_stage demo_lib) pid env c =
    Inr (stage_done ''features'' 0 [(''features_path'', PStr (path_join (work_dir c) ''features.npz''))])"
  using assms
  by (simp add: features_stage_def features_run_def bindp_def thenp_def voice_audio_path_def stage_data_def analysis_result_def
      read_as_def compute_shared_features_def reads_wav_def read_wav_def demo_lib_def demo_worker_disk_def demo_librosa_def
      rms_envelope_of_def save_shared_features_def Let_def)

lemma demo_align_stage:
  assumes "completed c ''preprocess'' = Some (stage_done ''preprocess'' 0
      ((''recording_path'', PStr path) # (''sample_rate_hz'', PInt 22050) # d))"
    and "completed c ''features'' = Some (stage_done ''features'' 0 [(''features_path'', PStr npz_path)])"
    and "completed c ''separate_recording'' = None" and "hz (reference_pitch c) = [Some 110]"
  shows "\<exists>r. stage_run (align_stage demo_lib) pid env c = Inr r"
proof -
  have detected: "detect_gated (\<lambda>chunk rate hop. Inr (map (\<lambda>_. Some 110) chunk)) [1] 22050 PITCH_HOP_SECONDS [1] = Inr [Some 110]"
    using loud_peak [of 1]
    by (simp add: detect_gated_def voiced_mask_def voiced_spans_def min_silent_run_def slice_def write_at_def
        VAD_MIN_SILENT_RUN_SECONDS_def PITCH_HOP_SECONDS_def)
  obtain a where "attempt_at interp_step [Some 110] [Some 110] 0 = Inr a" "normalized_distance (fine a) = 0"
    using attempt_single [of 0 "[Some 110]" "Some 110" interp_step "Some 110"] by auto
  then have "align_curves interp_step argsort_stable [Some 110] [Some 110] = Inr (0, a)"
    by (intro align_curves_direct) (simp_all add: within_ceiling_def ALIGN_PITCH_MAX_NORMALIZED_DISTANCE_def)
  then show ?thesis
    using assms detected
    by (simp add: align_stage_def align_run_def bindp_def stage_data_def analysis_result_def read_as_def cached_features_def
        extract_user_hz_def finallyp_def voice_audio_path_def load_shared_features_def demo_lib_def demo_worker_disk_def
        reads_wav_def read_wav_def voiced_fraction_def MIN_VOICED_FRACTION_def)
qed

lemma settled_pure: "stage_run s 0 Map.empty c = Inr r \<Longrightarrow> settled s (isolated s c) = Inr r"
  by (simp add: settled_def isolated_def unpickle_def stage_worker_def)

text \<open>The stages up to the alignment return results for every clean job of a one-frame reference.\<close>

lemma demo_alignment_returns:
  assumes "completed c = Map.empty" and "hz (reference_pitch c) = [Some 110]"
  shows "\<exists>ps. in_order analysis_with_result (alignment_stages demo_lib Clean) c = Inr ps"
proof -
  let ?p = "stage_done ''preprocess'' 0 [(''recording_path'', PStr (path_join (work_dir c) ''recording.wav'')), (''sample_rate_hz'', PInt 22050),
       (''recording_loudness_lufs'', PFloat (- 20))]"
    and ?f = "stage_done ''features'' 0 [(''features_path'', PStr (path_join (work_dir c) ''features.npz''))]"
  let ?c1 = "analysis_with_result c ?p"
  let ?c2 = "analysis_with_result ?c1 ?f"
  have stages: "alignment_stages demo_lib Clean = [preprocess_stage demo_lib FFMPEG_PATH, features_stage demo_lib, align_stage demo_lib]"
    by (simp add: alignment_stages_def) (simp add: warm_stage_defs)
  have "settled (preprocess_stage demo_lib FFMPEG_PATH) (isolated (preprocess_stage demo_lib FFMPEG_PATH) c) = Inr ?p"
    by (rule settled_pure) (rule demo_preprocess_stage)
  moreover have work: "work_dir ?c1 = work_dir c" by (simp add: analysis_with_result_def)
  have "stage_run (features_stage demo_lib) 0 Map.empty ?c1 = Inr ?f"
    by (subst demo_features_stage [where c = ?c1]) (simp_all add: analysis_with_result_def assms(1))
  then have "settled (features_stage demo_lib) (isolated (features_stage demo_lib) ?c1) = Inr ?f" by (rule settled_pure)
  moreover have "\<exists>r. stage_run (align_stage demo_lib) 0 Map.empty ?c2 = Inr r"
    by (rule demo_align_stage [where d = "[(''recording_loudness_lufs'', PFloat (- 20))]"])
      (simp_all add: analysis_with_result_def assms)
  then obtain r where "stage_run (align_stage demo_lib) 0 Map.empty ?c2 = Inr r" by blast
  then have "settled (align_stage demo_lib) (isolated (align_stage demo_lib) ?c2) = Inr r" by (rule settled_pure)
  ultimately show ?thesis unfolding stages by simp
qed

lemma demo_job_aligned: "\<exists>ps. in_order analysis_with_result (alignment_stages demo_lib Clean) demo_job = Inr ps"
  by (rule demo_alignment_returns) (simp_all add: demo_job_def demo_context_def)

theorem warm_path_completes_witness:
  "\<exists>v'. run analysis_with_result (\<lambda>_. Finishes) (build_stages demo_settings (\<lambda>m. finite_weights (demo_profiles m)) demo_lib)
      log_ports ''j'' demo_job [] (Some Clean) demo_logged = (Inr COMPLETED, v') \<and>
    map stage (os_state.more v') =
      [''preprocess'', ''features'', ''align'', ''pitch'', ''key_normalization'', ''rhythm'', ''vibrato'', ''dynamics'',
       ''timbre'', ''breath'', ''recording_condition'', ''aggregate'']"
proof -
  have m: "context_mode demo_job = Clean" and hop: "hop_seconds (reference_pitch demo_job) \<noteq> 0"
    and pos: "\<And>v. Some v \<in> set (hz (reference_pitch demo_job)) \<Longrightarrow> 0 < v"
    by (simp_all add: demo_job_def demo_context_def PITCH_HOP_SECONDS_def)
  have fin: "all_finish (\<lambda>_. Finishes)" by (simp add: all_finish_def)
  obtain ps where ps: "in_order analysis_with_result (alignment_stages demo_lib (context_mode demo_job)) demo_job = Inr ps"
    using demo_job_aligned m by auto
  obtain v' rs r where run: "run analysis_with_result (\<lambda>_. Finishes) (build_stages demo_settings (\<lambda>m. finite_weights (demo_profiles m)) demo_lib)
      log_ports ''j'' demo_job [] (Some (context_mode demo_job)) demo_logged = (Inr COMPLETED, v')"
    "os_state.more v' = os_state.more demo_logged @ rs @ [r]"
    "map stage (rs @ [r]) = map stage_name (warm_stages demo_settings (\<lambda>m. finite_weights (demo_profiles m)) demo_lib (context_mode demo_job))"
    using warm_path_completes [OF demo_profiles_parsed demo_profiles_nonnegative demo_lib_ok(2,1,3) hop pos fin
        log_ports_work TrueI ps, of "''j''" demo_logged] by (auto simp: fold_snoc)
  have "map stage (rs @ [r]) = [''preprocess'', ''features'', ''align'', ''pitch'', ''key_normalization'', ''rhythm'', ''vibrato'',
      ''dynamics'', ''timbre'', ''breath'', ''recording_condition'', ''aggregate'']"
    unfolding run(3) m by (simp add: warm_stages_def flatten_build_stages aspect_stages_def warm_stage_defs)
  with run(1,2) show ?thesis by (simp add: m demo_logged_def os_state.defs)
qed

theorem parallel_aspects_equivalent_witness:
  "\<exists>v1 v2. run analysis_with_result (\<lambda>_. Finishes)
      (build_stages (demo_settings\<lparr>pipeline_parallel_aspects := True\<rparr>) (\<lambda>m. finite_weights (demo_profiles m)) demo_lib)
      log_ports ''j'' demo_job [] (Some Clean) demo_logged = (Inr COMPLETED, v1) \<and>
    run analysis_with_result (\<lambda>_. Finishes)
      (build_stages (demo_settings\<lparr>pipeline_parallel_aspects := False\<rparr>) (\<lambda>m. finite_weights (demo_profiles m)) demo_lib)
      log_ports ''j'' demo_job [] (Some Clean) demo_logged = (Inr COMPLETED, v2) \<and>
    os_state.more v1 = os_state.more v2"
proof -
  let ?w = "\<lambda>m. finite_weights (demo_profiles m)"
  have m: "context_mode demo_job = Clean" and hop: "hop_seconds (reference_pitch demo_job) \<noteq> 0"
    and pos: "\<And>v. Some v \<in> set (hz (reference_pitch demo_job)) \<Longrightarrow> 0 < v"
    by (simp_all add: demo_job_def demo_context_def PITCH_HOP_SECONDS_def)
  have fin: "all_finish (\<lambda>_. Finishes)" by (simp add: all_finish_def)
  have corr: "\<And>xs ys. wl_corrcoef demo_lib xs ys \<le> 1" using demo_lib_ok(2) by (simp add: libraries_ok_def)
  obtain ps where "in_order analysis_with_result (alignment_stages demo_lib (context_mode demo_job)) demo_job = Inr ps"
    using demo_job_aligned m by auto
  then obtain rs where "in_order analysis_with_result (scoring_stages demo_settings demo_lib (context_mode demo_job)) demo_job = Inr rs"
    using after_alignment [OF _ demo_lib_ok(2,3) hop pos] by blast
  from warm_path_scored [of demo_settings demo_lib demo_job rs ?w, OF this demo_lib_ok(1) corr
      parsed_weights_ok [OF demo_profiles_parsed demo_profiles_nonnegative]]
  obtain r where "in_order analysis_with_result (warm_stages demo_settings ?w demo_lib (context_mode demo_job)) demo_job = Inr (rs @ [r])"
    by blast
  note order = this [unfolded m]
  from parallel_aspects_equivalent [OF demo_lib_ok(1) fin log_ports_work TrueI order, of True "''j''" demo_logged]
    parallel_aspects_equivalent [OF demo_lib_ok(1) fin log_ports_work TrueI order, of False "''j''" demo_logged]
  show ?thesis by auto
qed

end
