(* ===== verification/Timing.thy ===== *)
theory Timing
  imports Stages Consumer
begin

text \<open>
  The time a stage can take against the thresholds of the queue: \<open>run_stage_with_retries\<close> of \<open>runner.py\<close> with
  the timeouts of the stages and the reclaim thresholds of \<open>constants.py\<close>. A child takes at most the
  timeout of its stage; the waits between attempts are the runner's own.
\<close>

text \<open>The children a stage run started and the waits it made.\<close>

definition children_and_waits ::
  "(nat \<Rightarrow> child_fate) \<Rightarrow> 'c pipeline_stage \<Rightarrow> 'c \<Rightarrow> 'z os_state_scheme \<Rightarrow> nat \<times> nat" where
  "children_and_waits fate s c w =
     (let w' = snd (run_stage_with_retries fate s c w)
      in (length (spawned w') - length (spawned w), sum_list (slept w') - sum_list (slept w)))"

definition worst_seconds :: "(nat \<Rightarrow> child_fate) \<Rightarrow> 'c pipeline_stage \<Rightarrow> 'c \<Rightarrow> 'z os_state_scheme \<Rightarrow> nat" where
  "worst_seconds fate s c w =
     (let (children, waits) = children_and_waits fate s c w in children * timeout_seconds s + waits)"

lemma children_and_waits_eq:
  "children_and_waits fate s c w =
     (let k = deciding (\<lambda>i. transient_failure (attempts fate s c w i)) MAX_STAGE_RETRIES in (k + 1, sum_list (backoffs k)))"
  by (simp add: children_and_waits_def run_stage_with_retries_eq Let_def)

lemma backoffs_sum: "sum_list (backoffs 0) = 0" "sum_list (backoffs 1) = 2" "sum_list (backoffs 2) = 6"
  by (simp_all add: backoffs_def RETRY_BACKOFF_BASE_SECONDS_def upt_rec numeral_2_eq_2)

lemma hanging_attempt: "fate pid = Hangs \<Longrightarrow> transient_failure (attempt_outcome fate s c e pid)"
  by (simp add: attempt_outcome_def join_subprocess_def transient_failure_def pipeline_error_init_def is_transient_def)

lemma deciding_always: "(\<And>i. again i) \<Longrightarrow> deciding again n = n"
  by (induction again n rule: deciding.induct) auto

section \<open>Properties\<close>


end
