(* ===== verification/JobRun.thy ===== *)
theory JobRun
  imports WarmPath Consumer
begin

text \<open>
  One analysis from the stream to its saved score: the consumer of \<open>queue/consumer.py\<close>, the handler of
  \<open>queue/handler.py\<close>, the repositories and the warm path together. The lemmas show that, where nothing fails
  outside the program, a queued analysis of a prepared song ends as done with a score for every aspect of its
  mode, an overall score, its point of the progress chart, and the acknowledgement of its stream entry.
\<close>

section \<open>Programs that succeed\<close>

text \<open>From every state with \<open>P\<close> the program returns a value, in a state that has \<open>Q\<close> with it.\<close>

definition succeeds :: "('s \<Rightarrow> bool) \<Rightarrow> ('s, 'e, 'a) prog \<Rightarrow> ('a \<Rightarrow> 's \<Rightarrow> bool) \<Rightarrow> bool" where
  "succeeds P m Q \<longleftrightarrow> (\<forall>s. P s \<longrightarrow> (\<exists>a s'. m s = (Inr a, s') \<and> Q a s'))"

lemma succeedsI: "(\<And>s. P s \<Longrightarrow> \<exists>a s'. m s = (Inr a, s') \<and> Q a s') \<Longrightarrow> succeeds P m Q"
  by (simp add: succeeds_def)

lemma succeedsE:
  assumes "succeeds P m Q" and "P s"
  obtains a s' where "m s = (Inr a, s')" "Q a s'"
  using assms by (auto simp: succeeds_def)

lemma succeeds_ret: "(\<And>s. P s \<Longrightarrow> Q a s) \<Longrightarrow> succeeds P (ret a) Q"
  by (simp add: succeeds_def)

lemma succeeds_bind_liftp: "x = Inr a \<Longrightarrow> succeeds P (f a) Q \<Longrightarrow> succeeds P (bindp (liftp x) f) Q"
  by (simp add: succeeds_def bindp_def)

lemma succeeds_bindp:
  assumes "succeeds P m R" and "\<And>a. succeeds (R a) (f a) Q"
  shows "succeeds P (bindp m f) Q"
proof (rule succeedsI)
  fix s assume "P s"
  then obtain a s1 where m: "m s = (Inr a, s1)" "R a s1" using assms(1) by (elim succeedsE)
  have "\<exists>b s2. f a s1 = (Inr b, s2) \<and> Q b s2" using assms(2) [of a] m(2) unfolding succeeds_def by blast
  then obtain b s2 where "f a s1 = (Inr b, s2)" "Q b s2" by blast
  with m show "\<exists>b s'. bindp m f s = (Inr b, s') \<and> Q b s'" by (simp add: bindp_Inr)
qed

lemma succeeds_thenp:
  assumes "succeeds P m (\<lambda>_. R)" and "succeeds R n Q"
  shows "succeeds P (thenp m n) Q"
  unfolding thenp_def by (rule succeeds_bindp [OF assms(1)]) (rule assms(2))

lemma succeeds_weaken:
  "succeeds P m Q \<Longrightarrow> (\<And>s. P' s \<Longrightarrow> P s) \<Longrightarrow> (\<And>a s. Q a s \<Longrightarrow> Q' a s) \<Longrightarrow> succeeds P' m Q'"
  unfolding succeeds_def by blast

lemma succeeds_for_each:
  assumes "\<And>x ys. set ys \<subseteq> set xs \<Longrightarrow> x \<in> set xs \<Longrightarrow> succeeds (P (set ys)) (f x) (\<lambda>_. P (insert x (set ys)))"
  shows "succeeds (P {}) (for_each f xs) (\<lambda>_. P (set xs))"
proof -
  have "succeeds (P (set ys)) (for_each f zs) (\<lambda>_. P (set ys \<union> set zs))" if "set (ys @ zs) \<subseteq> set xs" for ys zs
    using that
  proof (induction zs arbitrary: ys)
    case Nil
    then show ?case by (simp add: succeeds_def)
  next
    case (Cons z zs)
    have "succeeds (P (set ys)) (f z) (\<lambda>_. P (set (z # ys)))" using assms [of ys z] Cons.prems by simp
    moreover have "succeeds (P (set (z # ys))) (for_each f zs) (\<lambda>_. P (set ys \<union> set (z # zs)))"
      using Cons.IH [of "z # ys"] Cons.prems by simp
    ultimately show ?case by (simp add: succeeds_thenp)
  qed
  from this [of "[]" xs] show ?thesis by simp
qed

section \<open>The database without faults\<close>

definition quiet :: "faults \<Rightarrow> bool" where
  "quiet fl \<longleftrightarrow> (\<forall>n. \<not> db_fault fl n \<and> \<not> redis_fault fl n)"

definition row_is :: "string \<Rightarrow> (analysis_row \<Rightarrow> bool) \<Rightarrow> 'z worker_state_scheme \<Rightarrow> bool" where
  "row_is i R w \<longleftrightarrow> (\<exists>r. analysis_row_of i w = Some r \<and> R r)"

lemma succeeds_update:
  assumes "quiet fl" and "\<And>r. row_id (f r) = row_id r" and "\<And>r. R r \<Longrightarrow> R' (f r)"
    and "\<And>w n as. S w \<Longrightarrow> S (w\<lparr>transactions := n, analyses := as\<rparr>)"
  shows "succeeds (\<lambda>w. row_is i R w \<and> S w) (update_analysis fl i f) (\<lambda>_ w. row_is i R' w \<and> S w)"
  using assms
  by (intro succeedsI) (auto simp: quiet_def update_analysis_eq Let_def row_is_def analysis_row_of_def find_update)

lemma succeeds_publish:
  assumes "quiet fl" and "\<And>w n xs. P w \<Longrightarrow> P (w\<lparr>redis_calls := n, published := xs\<rparr>)"
  shows "succeeds P (publish fl payload) (\<lambda>_. P)"
  using assms by (intro succeedsI) (auto simp: quiet_def publish_def Let_def)

lemma succeeds_get:
  assumes "quiet fl" and "\<And>w n. P w \<Longrightarrow> P (w\<lparr>transactions := n\<rparr>)"
  shows "succeeds (\<lambda>w. row_is i R w \<and> P w) (analysis_get_by_id fl i)
    (\<lambda>a w. (\<exists>r. R r \<and> a = row_to_analysis_record r \<and> row_is i (\<lambda>q. q = r) w) \<and> P w)"
  using assms
  by (intro succeedsI)
    (auto simp: quiet_def analysis_get_by_id_def transact_def bindp_def Let_def row_is_def analysis_row_of_def)

section \<open>Saving the scores\<close>

text \<open>The row of a completed run: its stored results, user and mode.\<close>

definition ran_with :: "(string \<times> stage_result) list \<Rightarrow> string \<Rightarrow> mode \<Rightarrow> analysis_row \<Rightarrow> bool" where
  "ran_with J u m r \<longleftrightarrow> row_stages_json r = Some J \<and> row_user_id r = u \<and> row_mode r = m"

text \<open>The scores of the aspects of \<open>D\<close> that have a stored result are in their column.\<close>

definition scores_in :: "(string \<times> stage_result) list \<Rightarrow> string set \<Rightarrow> analysis_row \<Rightarrow> bool" where
  "scores_in J D r \<longleftrightarrow>
     (\<forall>a \<in> D. \<forall>q. map_of J a = Some q \<longrightarrow>
        (\<exists>x. map_of (data q) ''score'' = Some (PFloat x) \<and> map_of (row_aspect_scores r) a = Some x))"

definition charted :: "string \<Rightarrow> real \<Rightarrow> 'z worker_state_scheme \<Rightarrow> bool" where
  "charted i x w \<longleftrightarrow> (\<exists>s \<in> set (snapshots w). snap_analysis_id s = i \<and> snap_overall_score s = x)"

text \<open>The dense fields of a pitch result are there and readable, or pruned.\<close>

definition dense_ok :: "pydict \<Rightarrow> bool" where
  "dense_ok d \<longleftrightarrow>
     (\<forall>v. map_of d ''piano_roll'' = Some v \<longrightarrow> (\<exists>p. validate_piano_roll v = Inr p)) \<and>
     (\<forall>v. map_of d ''user_pitch_curve'' = Some v \<longrightarrow> (\<exists>c. validate_curve v = Inr c))"

lemma dense_ok_pitch_data: "dense_ok (pitch_data us rs ds)"
  by (auto simp: dense_ok_def pitch_data_def Let_def)

text \<open>The stored results the saving can read.\<close>

definition savable :: "(string \<times> stage_result) list \<Rightarrow> scoring_columns \<Rightarrow> bool" where
  "savable J cols \<longleftrightarrow>
     (\<forall>a \<in> set ASPECTS. \<forall>q. map_of J a = Some q \<longrightarrow> has_score (data q)) \<and>
     (\<forall>q. map_of J ''pitch'' = Some q \<longrightarrow> dense_ok (data q)) \<and>
     (\<exists>q. map_of J ''aggregate'' = Some q \<and> scoring_columns_of (data q) = Inr cols)"

lemma succeeds_save_scores:
  assumes "quiet fl" and "savable J cols"
  shows "succeeds (row_is i (\<lambda>r. ran_with J u m r \<and> scores_in J {} r)) (for_each (save_one_score fl i J) ASPECTS)
    (\<lambda>_. row_is i (\<lambda>r. ran_with J u m r \<and> scores_in J (set ASPECTS) r))"
proof (rule succeeds_for_each)
  fix a D assume a: "a \<in> set ASPECTS"
  let ?P = "\<lambda>D. row_is i (\<lambda>r. ran_with J u m r \<and> scores_in J D r)"
  show "succeeds (?P (set D)) (save_one_score fl i J a) (\<lambda>_. ?P (insert a (set D)))"
  proof (cases "map_of J a")
    case None
    then show ?thesis by (auto simp: save_one_score_def row_is_def scores_in_def intro!: succeeds_ret)
  next
    case (Some q)
    then obtain x where x: "map_of (data q) ''score'' = Some (PFloat x)"
      using assms(2) a unfolding savable_def has_score_def by blast
    have "succeeds (\<lambda>w. ?P (set D) w \<and> True)
        (update_analysis fl i (\<lambda>r. r\<lparr>row_aspect_scores := set_key a x (row_aspect_scores r)\<rparr>))
        (\<lambda>_ w. ?P (insert a (set D)) w \<and> True)"
      by (rule succeeds_update [OF assms(1)]) (auto simp: ran_with_def scores_in_def Some x)
    then have "succeeds (?P (set D)) (save_aspect_score fl i a x) (\<lambda>_. ?P (insert a (set D)))"
      using a by (simp add: save_aspect_score_def)
    then show ?thesis
      by (simp add: save_one_score_def Some x) (rule succeeds_bind_liftp [OF refl])
  qed
qed

lemma succeeds_update_row:
  assumes "quiet fl" and "\<And>r. row_id (f r) = row_id r" and "\<And>r. R r \<Longrightarrow> R' (f r)"
  shows "succeeds (row_is i R) (update_analysis fl i f) (\<lambda>_. row_is i R')"
  using succeeds_update [where S = "\<lambda>_. True" and R = R and R' = R', OF assms] by simp

lemma succeeds_save_dense:
  assumes "quiet fl" and "savable J cols" and "\<And>r p. R r \<Longrightarrow> R (r\<lparr>row_pitch_curve_json := p\<rparr>)"
    and "\<And>r p. R r \<Longrightarrow> R (r\<lparr>row_user_pitch := p\<rparr>)"
  shows "succeeds (row_is i R) (save_dense_fields fl f4 i J) (\<lambda>_. row_is i R)"
proof (cases "map_of J ''pitch''")
  case None
  then show ?thesis by (simp add: save_dense_fields_def succeeds_ret)
next
  case (Some q)
  then have q: "dense_ok (data q)" using assms(2) by (simp add: savable_def)
  have p: "succeeds (row_is i R) (save_piano_roll fl i p) (\<lambda>_. row_is i R)" for p
    unfolding save_piano_roll_def by (rule succeeds_update_row [OF assms(1)]) (simp_all add: assms(3))
  have c: "succeeds (row_is i R) (save_user_pitch_curve fl f4 i c) (\<lambda>_. row_is i R)" for c
    unfolding save_user_pitch_curve_def by (rule succeeds_update_row [OF assms(1)]) (simp_all add: assms(4))
  have roll: "succeeds (row_is i R) (case map_of (data q) ''piano_roll'' of None \<Rightarrow> ret ()
      | Some v \<Rightarrow> bindp (liftp (validate_piano_roll v)) (\<lambda>p. save_piano_roll fl i p)) (\<lambda>_. row_is i R)"
  proof (cases "map_of (data q) ''piano_roll''")
    case (Some v)
    then obtain p' where "validate_piano_roll v = Inr p'" using q by (auto simp: dense_ok_def)
    then show ?thesis unfolding Some option.case by (rule succeeds_bind_liftp) (rule p)
  qed (simp add: succeeds_ret)
  have curve: "succeeds (row_is i R) (case map_of (data q) ''user_pitch_curve'' of None \<Rightarrow> ret ()
      | Some v \<Rightarrow> bindp (liftp (validate_curve v)) (\<lambda>c. save_user_pitch_curve fl f4 i c)) (\<lambda>_. row_is i R)"
  proof (cases "map_of (data q) ''user_pitch_curve''")
    case (Some v)
    then obtain c' where "validate_curve v = Inr c'" using q by (auto simp: dense_ok_def)
    then show ?thesis unfolding Some option.case by (rule succeeds_bind_liftp) (rule c)
  qed (simp add: succeeds_ret)
  show ?thesis using succeeds_thenp [OF roll curve] by (simp add: save_dense_fields_def Some)
qed

lemma upsert_charted: "\<exists>s \<in> set (upsert_snapshot q xs). snap_analysis_id s = snap_analysis_id q \<and> snap_overall_score s = snap_overall_score q"
  by (induction xs) auto

lemma succeeds_snapshot:
  assumes "quiet fl"
  shows "succeeds (row_is i R) (record_progress_snapshot fl i u x m conf) (\<lambda>_ w. row_is i R w \<and> charted i x w)"
  using assms upsert_charted [of "\<lparr>snap_user_id = u, snap_analysis_id = i, snap_overall_score = x, snap_mode = m, snap_confidence = conf\<rparr>"]
  by (intro succeedsI)
    (simp add: quiet_def record_progress_snapshot_def transact_def Let_def row_is_def analysis_row_of_def charted_def)

lemma succeeds_persist:
  assumes "quiet fl" and "savable J cols"
  shows "succeeds (row_is i (ran_with J u m)) (persist_scores fl f4 i)
    (\<lambda>_ w. row_is i (\<lambda>r. ran_with J u m r \<and> scores_in J (set ASPECTS) r \<and> row_scoring r = Some cols) w \<and>
       charted i (col_overall_score cols) w)"
proof -
  let ?R = "\<lambda>r. ran_with J u m r \<and> scores_in J (set ASPECTS) r"
  obtain q where q: "map_of J ''aggregate'' = Some q" "scoring_columns_of (data q) = Inr cols"
    using assms(2) by (auto simp: savable_def)
  have get: "succeeds (row_is i (ran_with J u m)) (analysis_get_by_id fl i)
      (\<lambda>a w. (ar_stages a = J \<and> ar_user_id a = u \<and> ar_mode a = m) \<and> row_is i (\<lambda>r. ran_with J u m r \<and> scores_in J {} r) w)"
    by (rule succeeds_weaken [OF succeeds_get [OF assms(1), of "\<lambda>_. True"]])
      (auto simp: row_is_def ran_with_def scores_in_def row_to_analysis_record_def stages_of_def)
  have cols: "succeeds (row_is i ?R) (save_scoring_result fl i cols) (\<lambda>_. row_is i (\<lambda>r. ran_with J u m r \<and> scores_in J (set ASPECTS) r \<and> row_scoring r = Some cols))"
    unfolding save_scoring_result_def
    by (rule succeeds_update_row [OF assms(1)]) (auto simp: ran_with_def scores_in_def)
  have dense: "succeeds (row_is i ?R) (save_dense_fields fl f4 i J) (\<lambda>_. row_is i ?R)"
    by (rule succeeds_save_dense [OF assms]) (auto simp: ran_with_def scores_in_def)
  show ?thesis
    unfolding persist_scores_def
  proof (rule succeeds_bindp [OF get])
    fix a
    show "succeeds (\<lambda>w. (ar_stages a = J \<and> ar_user_id a = u \<and> ar_mode a = m) \<and> row_is i (\<lambda>r. ran_with J u m r \<and> scores_in J {} r) w)
      (thenp (for_each (save_one_score fl i (ar_stages a)) ASPECTS)
        (thenp (save_dense_fields fl f4 i (ar_stages a))
          (case map_of (ar_stages a) ''aggregate'' of None \<Rightarrow> ret ()
           | Some result \<Rightarrow> bindp (liftp (scoring_columns_of (data result))) (\<lambda>cols.
               thenp (save_scoring_result fl i cols)
                 (record_progress_snapshot fl i (ar_user_id a) (col_overall_score cols) (mode_name (ar_mode a)) (col_confidence cols))))))
      (\<lambda>_ w. row_is i (\<lambda>r. ran_with J u m r \<and> scores_in J (set ASPECTS) r \<and> row_scoring r = Some cols) w \<and> charted i (col_overall_score cols) w)"
    proof (cases "ar_stages a = J")
      case True
      have "succeeds (row_is i ?R) (bindp (liftp (scoring_columns_of (data q))) (\<lambda>cols.
               thenp (save_scoring_result fl i cols)
                 (record_progress_snapshot fl i (ar_user_id a) (col_overall_score cols) (mode_name (ar_mode a)) (col_confidence cols))))
          (\<lambda>_ w. row_is i (\<lambda>r. ran_with J u m r \<and> scores_in J (set ASPECTS) r \<and> row_scoring r = Some cols) w \<and> charted i (col_overall_score cols) w)"
        by (rule succeeds_bind_liftp [OF q(2)], rule succeeds_thenp [OF cols succeeds_snapshot [OF assms(1)]])
      then have "succeeds (row_is i (\<lambda>r. ran_with J u m r \<and> scores_in J {} r))
        (thenp (for_each (save_one_score fl i J) ASPECTS) (thenp (save_dense_fields fl f4 i J)
          (bindp (liftp (scoring_columns_of (data q))) (\<lambda>cols. thenp (save_scoring_result fl i cols)
                 (record_progress_snapshot fl i (ar_user_id a) (col_overall_score cols) (mode_name (ar_mode a)) (col_confidence cols))))))
        (\<lambda>_ w. row_is i (\<lambda>r. ran_with J u m r \<and> scores_in J (set ASPECTS) r \<and> row_scoring r = Some cols) w \<and> charted i (col_overall_score cols) w)"
        by (intro succeeds_thenp [OF succeeds_save_scores [OF assms]] succeeds_thenp [OF dense])
      then show ?thesis using True q(1) by (auto intro: succeeds_weaken)
    qed (simp add: succeeds_def)
  qed
qed

text \<open>The steps after the saving.\<close>

lemma succeeds_finish:
  assumes "quiet (cfg_faults cfg)" and "savable J cols"
  shows "succeeds (row_is i (ran_with J u m)) (finish_analysis cfg i c)
    (\<lambda>b w. b \<and> row_is i (\<lambda>r. row_status r = ''done'' \<and> scores_in J (set ASPECTS) r \<and> row_scoring r = Some cols) w \<and>
       charted i (col_overall_score cols) w)"
proof -
  let ?x = "col_overall_score cols"
  let ?R = "\<lambda>r. scores_in J (set ASPECTS) r \<and> row_scoring r = Some cols"
  let ?D = "\<lambda>r. row_status r = ''done'' \<and> ?R r"
  note q = assms(1)
  have persist: "succeeds (row_is i (ran_with J u m)) (persist_scores (cfg_faults cfg) (cfg_f4 cfg) i) (\<lambda>_ w. row_is i ?R w \<and> charted i ?x w)"
    by (rule succeeds_weaken [OF succeeds_persist [OF assms]]) (auto simp: row_is_def)
  have prune: "succeeds (\<lambda>w. row_is i ?R w \<and> charted i ?x w) (prune_dense_stage_fields (cfg_faults cfg) i) (\<lambda>_ w. row_is i ?R w \<and> charted i ?x w)"
    unfolding prune_dense_stage_fields_def
    by (rule succeeds_update [OF q]) (auto simp: scores_in_def charted_def)
  have don: "succeeds (\<lambda>w. row_is i ?R w \<and> charted i ?x w) (analysis_mark_done (cfg_faults cfg) i (cfg_model_versions cfg)) (\<lambda>_ w. row_is i ?D w \<and> charted i ?x w)"
    unfolding analysis_mark_done_def
    by (rule succeeds_update [OF q]) (auto simp: scores_in_def charted_def)
  have event: "succeeds (\<lambda>w. row_is i ?D w \<and> charted i ?x w) (event_done (cfg_faults cfg) i) (\<lambda>_ w. row_is i ?D w \<and> charted i ?x w)"
    unfolding event_done_def by (rule succeeds_publish [OF q]) (auto simp: row_is_def analysis_row_of_def charted_def)
  have clean: "succeeds (\<lambda>w. row_is i ?D w \<and> charted i ?x w) (thenp (cleanup c True True) (ret True)) (\<lambda>b w. b \<and> row_is i ?D w \<and> charted i ?x w)"
    by (rule succeedsI) (auto simp: thenp_def bindp_def cleanup_eq row_is_def analysis_row_of_def charted_def)
  show ?thesis
    unfolding finish_analysis_def
    by (intro succeeds_thenp [OF persist] succeeds_thenp [OF prune] succeeds_thenp [OF don] succeeds_thenp [OF event] clean)
qed

section \<open>The pipeline's ports on the database\<close>

text \<open>The database behind the runner's part of the state, the row of a job in it and its stored results.\<close>

definition database :: "'z worker_state_ext \<Rightarrow> 'z worker_state_scheme" where
  "database z = os_state.extend demo_os z"

definition belongs_to :: "string \<Rightarrow> mode \<Rightarrow> analysis_row \<Rightarrow> bool" where
  "belongs_to u m r \<longleftrightarrow> row_user_id r = u \<and> row_mode r = m"

definition saved_results :: "string \<Rightarrow> 'z worker_state_ext \<Rightarrow> (string \<times> stage_result) list" where
  "saved_results i z = (case analysis_row_of i (database z) of None \<Rightarrow> [] | Some r \<Rightarrow> stages_of (row_stages_json r))"

definition store :: "stage_result \<Rightarrow> (string \<times> stage_result) list \<Rightarrow> (string \<times> stage_result) list" where
  "store r = set_key (stage r) r"

lemma database_more [simp]:
  "analyses (database (os_state.more w)) = analyses w"
  "analysis_row_of i (database (os_state.more w)) = analysis_row_of i w"
  by (cases w; simp add: database_def os_state.defs analysis_row_of_def)+

lemma row_is_database [simp]: "row_is i R (database (os_state.more w)) = row_is i R w"
  by (simp add: row_is_def)

lemma stored_row: "analysis_row_of i w = Some r \<Longrightarrow> saved_results i (os_state.more w) = stages_of (row_stages_json r)"
  by (simp add: saved_results_def)

lemma analysis_ports_work:
  assumes "quiet fl" and "\<And>w. \<not> stop_now w"
  shows "working_ports (\<lambda>z. row_is i (belongs_to u m) (database z)) (saved_results i) store i (analysis_ports fl stop_now i)"
  unfolding working_ports_def
proof (intro allI impI conjI)
  fix w :: "'a worker_state_scheme" and n k t and q :: stage_result
  assume "row_is i (belongs_to u m) (database (os_state.more w))"
  then obtain r where r: "analysis_row_of i w = Some r" "belongs_to u m r" by (auto simp: row_is_def)
  have quiet: "\<not> db_fault fl n" "\<not> redis_fault fl n" for n using assms(1) by (auto simp: quiet_def)
  have update: "\<exists>w'. update_analysis fl i f w = (Inr (), w') \<and> row_is i (belongs_to u m) (database (os_state.more w')) \<and>
      saved_results i (os_state.more w') = stages_of (row_stages_json (f r))"
    if "\<And>r. row_id (f r) = row_id r" "\<And>r. belongs_to u m r \<Longrightarrow> belongs_to u m (f r)" for f
    using r that by (auto simp: update_analysis_eq Let_def quiet row_is_def saved_results_def analysis_row_of_def find_update)
  show "\<exists>w'. publish_stage (analysis_ports fl stop_now i) i n k t w = (Inr (), w') \<and>
      row_is i (belongs_to u m) (database (os_state.more w')) \<and> saved_results i (os_state.more w') = saved_results i (os_state.more w)" for n k t
    using r by (auto simp: analysis_ports_def event_stage_def publish_def Let_def quiet row_is_def saved_results_def analysis_row_of_def)
  show "\<exists>w'. mark_processing (analysis_ports fl stop_now i) n k t w = (Inr (), w') \<and>
      row_is i (belongs_to u m) (database (os_state.more w')) \<and> saved_results i (os_state.more w') = saved_results i (os_state.more w)" for n k t
    using update [of "\<lambda>r. r\<lparr>row_status := ''processing'', row_current_stage := Some n,
       row_current_stage_index := Some k, row_total_stages := Some t, row_queue_position := None\<rparr>"]
    by (simp add: analysis_ports_def analysis_mark_processing_def belongs_to_def stored_row [OF r(1)])
  show "\<exists>w'. save_stage_progress (analysis_ports fl stop_now i) q n k t w = (Inr (), w') \<and>
      row_is i (belongs_to u m) (database (os_state.more w')) \<and>
      saved_results i (os_state.more w') = store q (saved_results i (os_state.more w))" for q n k t
    using update [of "\<lambda>r. r\<lparr>row_stages_json := merge_stage (row_stages_json r) q, row_current_stage := n,
       row_current_stage_index := k, row_total_stages := Some t\<rparr>"]
    by (simp add: analysis_ports_def analysis_save_stage_progress_def belongs_to_def stored_row [OF r(1)] store_def
        merge_stage_def stages_of_def)
  show "\<exists>w'. should_stop (analysis_ports fl stop_now i) w = (Inr False, w') \<and>
      row_is i (belongs_to u m) (database (os_state.more w')) \<and> saved_results i (os_state.more w') = saved_results i (os_state.more w)"
    using r assms(2) by (auto simp: analysis_ports_def row_is_def)
qed

section \<open>The stored results\<close>

lemma set_key_new: "k \<notin> fst ` set kvs \<Longrightarrow> set_key k v kvs = kvs @ [(k, v)]"
  by (induction kvs) auto

lemma fold_store:
  "distinct (map stage rs) \<Longrightarrow> fst ` set J \<inter> stage ` set rs = {} \<Longrightarrow>
     fold store rs J = J @ map (\<lambda>r. (stage r, r)) rs"
proof (induction rs arbitrary: J)
  case (Cons r rs)
  then have "store r J = J @ [(stage r, r)]" by (auto simp: store_def intro: set_key_new)
  moreover have "fst ` set (J @ [(stage r, r)]) \<inter> stage ` set rs = {}" using Cons.prems by auto
  ultimately show ?case using Cons by simp
qed simp

lemma completed_fold:
  "distinct (map stage rs) \<Longrightarrow>
     completed (fold (\<lambda>r c. analysis_with_result c r) rs c) = completed c ++ map_of (map (\<lambda>r. (stage r, r)) rs)"
proof (induction rs arbitrary: c)
  case (Cons r rs)
  have "map_of (map (\<lambda>r. (stage r, r)) rs) (stage r) = None"
    using Cons.prems by (auto simp: map_of_eq_None_iff)
  then have "(completed c)(stage r \<mapsto> r) ++ map_of (map (\<lambda>r. (stage r, r)) rs) =
      (completed c ++ map_of (map (\<lambda>r. (stage r, r)) rs))(stage r \<mapsto> r)"
    by (auto simp: fun_eq_iff map_add_def split: option.splits)
  also have "\<dots> = completed c ++ map_of (map (\<lambda>r. (stage r, r)) (r # rs))" by simp
  finally have step: "(completed c)(stage r \<mapsto> r) ++ map_of (map (\<lambda>r. (stage r, r)) rs) =
      completed c ++ map_of (map (\<lambda>r. (stage r, r)) (r # rs))" .
  have "completed (fold (\<lambda>r c. analysis_with_result c r) rs (analysis_with_result c r)) =
      completed (analysis_with_result c r) ++ map_of (map (\<lambda>r. (stage r, r)) rs)"
    using Cons.IH Cons.prems by simp
  also have "completed (analysis_with_result c r) = (completed c)(stage r \<mapsto> r)" by (simp add: analysis_with_result_def)
  also note step
  finally show ?case by (simp only: fold_simps)
qed simp

lemma stage_data_completed: "stage_data c a = Inr d \<Longrightarrow> \<exists>q. completed c a = Some q \<and> data q = d"
  by (auto simp: stage_data_def analysis_result_def and_then_eq_Inr split: option.splits)

lemma scored_savable:
  assumes "stages_scored (fold (\<lambda>r c. analysis_with_result c r) rs c)" and "completed c = Map.empty"
    and "map stage (rs @ [r]) = map stage_name (warm_stages st w lib (context_mode c))"
    and "stage r = ''aggregate''" and "scoring_columns_of (data r) = Inr cols"
  defines "J \<equiv> map (\<lambda>r. (stage r, r)) (rs @ [r])"
  shows "savable J cols" and "\<forall>a \<in> set (MODE_ASPECTS (context_mode c)). \<exists>q. map_of J a = Some q \<and> has_score (data q)"
proof -
  let ?m = "context_mode c" and ?c = "fold (\<lambda>r c. analysis_with_result c r) rs c"
  have mode: "context_mode ?c = ?m"
    by (induction rs arbitrary: c) (simp_all add: analysis_with_result_def)
  have distinct: "distinct (map stage (rs @ [r]))" unfolding assms(3) by (rule warm_stages_distinct)
  then have comp: "completed ?c = map_of (map (\<lambda>r. (stage r, r)) rs)" using completed_fold [of rs c] assms(2) by simp
  have other: "map_of J a = completed ?c a" if "a \<noteq> ''aggregate''" for a
    using that by (simp add: J_def comp assms(4) map_add_def split: option.split)
  have "map_of (map (\<lambda>r. (stage r, r)) rs) ''aggregate'' = None"
    using distinct assms(4) by (auto simp: map_of_eq_None_iff image_iff)
  then have agg: "map_of J ''aggregate'' = Some r" by (simp add: J_def assms(4) map_add_def)
  have aspect: "\<exists>q. map_of J a = Some q \<and> has_score (data q)" if "a \<in> set (MODE_ASPECTS ?m)" for a
  proof -
    have "\<exists>d. stage_data ?c a = Inr d \<and> aspect_ok a d"
      using assms(1) that by (simp add: stages_scored_def mode)
    then obtain q where "completed ?c a = Some q" "aspect_ok a (data q)" using stage_data_completed by blast
    moreover have "a \<noteq> ''aggregate''" using that by (cases ?m) (auto simp: ASPECTS_def)
    ultimately show ?thesis using other by (auto simp: aspect_ok_def)
  qed
  then show "\<forall>a \<in> set (MODE_ASPECTS ?m). \<exists>q. map_of J a = Some q \<and> has_score (data q)" by blast
  have "a \<in> set (MODE_ASPECTS ?m)" if "a \<in> set ASPECTS" "map_of J a = Some q" for a q
  proof -
    have "a \<in> set (map stage (rs @ [r]))"
      using that(2) by (auto simp: J_def map_add_def split: option.splits dest!: map_of_SomeD)
    then have "a \<in> stage_name ` {s \<in> set (flatten (build_stages st w lib)). ?m \<in> modes s}"
      unfolding assms(3) by (simp add: warm_stages_def)
    then show ?thesis
      using that(1) by (cases ?m) (auto simp: flatten_build_stages aspect_stages_def warm_stage_defs ASPECTS_def)
  qed
  then have "\<forall>a \<in> set ASPECTS. \<forall>q. map_of J a = Some q \<longrightarrow> has_score (data q)" using aspect by fastforce
  moreover have "dense_ok (data q)" if "map_of J ''pitch'' = Some q" for q
  proof -
    obtain us rs' ds where "stage_data ?c ''pitch'' = Inr (pitch_data us rs' ds)"
      using assms(1) by (auto simp: stages_scored_def)
    then obtain q' where "completed ?c ''pitch'' = Some q'" "data q' = pitch_data us rs' ds"
      using stage_data_completed by blast
    then show ?thesis using that other [of "''pitch''"] dense_ok_pitch_data [of us rs' ds] by simp
  qed
  ultimately show "savable J cols" using agg assms(5) unfolding savable_def by blast
qed

section \<open>A job of a prepared song\<close>

definition prepared :: "song_row \<Rightarrow> bool" where
  "prepared s \<longleftrightarrow> song_vocal_stem_path s \<noteq> None \<and> song_reference_pitch s \<noteq> None"

definition job_context :: "string \<Rightarrow> analysis_row \<Rightarrow> song_row \<Rightarrow> analysis_context" where
  "job_context dir r s =
     \<lparr>analysis_id = row_id r, user_id = row_user_id r, song_id = song_row_id s,
      recording_path = recording_source_path dir (row_id r), work_dir = analysis_work_dir dir (row_id r),
      reference_vocal_stem_path = the (song_vocal_stem_path s),
      reference_pitch = case_prod from_bytes (the (song_reference_pitch s)), reference_lyrics = song_lyrics_json s,
      context_mode = row_mode r, allow_transposition = row_allow_transposition r, context_locale = row_locale r,
      completed = Map.empty\<rparr>"

lemma get_quiet:
  assumes "quiet fl" and "analysis_row_of i w = Some r"
  shows "analysis_get_by_id fl i w = (Inr (row_to_analysis_record r), w\<lparr>transactions := transactions w + 1\<rparr>)"
  using assms by (simp add: quiet_def analysis_get_by_id_def transact_def bindp_def Let_def analysis_row_of_def)

lemma build_quiet:
  assumes "quiet fl" and "song_row_of (row_song_id r) w = Some s" and "prepared s"
  shows "build_analysis_context fl dir (row_to_analysis_record r) w = (Inr (job_context dir r s), w\<lparr>transactions := transactions w + 1\<rparr>)"
  using assms
  by (auto simp: quiet_def prepared_def build_analysis_context_def song_get_by_id_def transact_def bindp_def Let_def
      song_row_of_def row_to_analysis_record_def row_to_song_record_def job_context_def)

lemma handle_quiet:
  assumes "quiet (cfg_faults cfg)" and "analysis_row_of i w = Some r"
    and "song_row_of (row_song_id r) w = Some s" and "prepared s"
  shows "\<exists>w0. analysis_row_of i w0 = Some r \<and>
    handle_analysis cfg stages i stop_now w =
      settle_run cfg i (job_context (cfg_storage_dir cfg) r s)
        (analysis_run cfg stages stop_now (row_to_analysis_record r) (job_context (cfg_storage_dir cfg) r s) i w0)"
proof -
  let ?w1 = "w\<lparr>transactions := transactions w + 1\<rparr>" and ?a = "row_to_analysis_record r" and ?c = "job_context (cfg_storage_dir cfg) r s"
  let ?w2 = "?w1\<lparr>transactions := transactions ?w1 + 1\<rparr>"
  have "song_row_of (row_song_id r) ?w1 = Some s" using assms(3) by (simp add: song_row_of_def)
  note build = build_quiet [OF assms(1) this assms(4), of "cfg_storage_dir cfg"]
  have "handle_analysis cfg stages i stop_now w = settle_run cfg i ?c (analysis_run cfg stages stop_now ?a ?c i ?w2)"
    by (simp only: handle_analysis_def bindp_def get_quiet [OF assms(1,2)] prod.case sum.case build settle_run_def)
  moreover have "analysis_row_of i ?w2 = Some r" using assms(2) by simp
  ultimately show ?thesis by blast
qed

text \<open>The whole job: once the alignment has its results, it is scored, saved and acknowledged.\<close>

lemma analysis_job_done:
  assumes "parse_scoring_weights st = Inr pw" and "nonnegative (pw (row_mode r))"
    and "libraries_ok lib" and "steady lib"
    and "quiet (cfg_faults cfg)" and "all_finish (cfg_fate cfg)" and "\<And>w. \<not> stop_now w"
    and "analysis_row_of i w = Some r" and "stages_of (row_stages_json r) = []"
    and "song_row_of (row_song_id r) w = Some s" and "prepared s"
  defines "c \<equiv> job_context (cfg_storage_dir cfg) r s"
  assumes "disk_ready lib c" and "hop_seconds (reference_pitch c) \<noteq> 0"
    and "\<And>v. Some v \<in> set (hz (reference_pitch c)) \<Longrightarrow> 0 < v"
    and "in_order analysis_with_result (alignment_stages lib (row_mode r)) c = Inr ps"
    and "handler consumer = analysis_job_handler cfg (build_stages st (\<lambda>m. finite_weights (pw m)) lib)"
    and "job_id_of fs = Some i"
  shows "\<exists>w' r' cols. process_entry consumer entry_id fs stop_now w = ack_and_remove consumer entry_id w' \<and>
    analysis_row_of i w' = Some r' \<and> row_status r' = ''done'' \<and> row_scoring r' = Some cols \<and>
    0 \<le> col_overall_score cols \<and> col_overall_score cols \<le> 100 \<and> charted i (col_overall_score cols) w' \<and>
    (\<forall>a \<in> set (MODE_ASPECTS (row_mode r)). \<exists>x. map_of (row_aspect_scores r') a = Some x \<and> 0 \<le> x \<and> x \<le> 100)"
proof -
  let ?es = "build_stages st (\<lambda>m. finite_weights (pw m)) lib" and ?u = "row_user_id r" and ?m = "row_mode r"
  have m: "context_mode c = ?m" and empty: "completed c = Map.empty" by (simp_all add: c_def job_context_def)
  obtain w0 where w0: "analysis_row_of i w0 = Some r"
    "handle_analysis cfg ?es i stop_now w = settle_run cfg i c (analysis_run cfg ?es stop_now (row_to_analysis_record r) c i w0)"
    using handle_quiet [OF assms(5,8,10,11)] unfolding c_def by blast
  have start: "row_is i (belongs_to ?u ?m) (database (os_state.more w0))"
    using w0(1) by (simp add: row_is_def belongs_to_def)
  have ports: "working_ports (\<lambda>z. row_is i (belongs_to ?u ?m) (database z)) (saved_results i) store i
      (analysis_ports (cfg_faults cfg) stop_now i)"
    by (rule analysis_ports_work [OF assms(5,7)])
  have nonneg: "nonnegative (pw (context_mode c))" by (simp add: m assms(2))
  have order: "in_order analysis_with_result (alignment_stages lib (context_mode c)) c = Inr ps" by (simp add: m assms(16))
  obtain v rs q score cols where
    run: "run analysis_with_result (cfg_fate cfg) ?es (analysis_ports (cfg_faults cfg) stop_now i) i c [] (Some ?m) w0 = (Inr COMPLETED, v)"
    and v: "row_is i (belongs_to ?u ?m) v"
    and saved: "saved_results i (os_state.more v) = fold store (rs @ [q]) (saved_results i (os_state.more w0))"
    and scored: "stages_scored (fold (\<lambda>r c. analysis_with_result c r) rs c)"
    and names: "map stage (rs @ [q]) = map stage_name (warm_stages st (\<lambda>m. finite_weights (pw m)) lib ?m)"
    and q: "stage q = ''aggregate''" "map_of (data q) ''overall_score'' = Some (PFloat score)" "0 \<le> score" "score \<le> 100"
      "scoring_columns_of (data q) = Inr cols"
    using warm_path_run [OF assms(1) nonneg assms(3-4,13-15,6) ports start order] unfolding m row_is_database by blast
  define J where "J = map (\<lambda>r. (stage r, r)) (rs @ [q])"
  have distinct: "distinct (map stage (rs @ [q]))" unfolding names by (rule warm_stages_distinct)
  have "saved_results i (os_state.more w0) = []" using w0(1) assms(9) by (simp add: stored_row)
  then have "saved_results i (os_state.more v) = J" using saved fold_store [OF distinct, of "[]"] by (simp add: J_def)
  moreover have "J \<noteq> []" by (simp add: J_def)
  ultimately have ran: "row_is i (ran_with J ?u ?m) v"
    using v by (auto simp: row_is_def ran_with_def belongs_to_def stored_row stages_of_def split: option.splits)
  note sav = scored_savable [OF scored empty names [folded m] q(1,5), folded J_def, unfolded m]
  obtain w' where fin: "finish_analysis cfg i c v = (Inr True, w')"
    and row: "row_is i (\<lambda>r. row_status r = ''done'' \<and> scores_in J (set ASPECTS) r \<and> row_scoring r = Some cols) w'"
    and chart: "charted i (col_overall_score cols) w'"
    by (rule succeedsE [OF succeeds_finish [OF assms(5) sav(1), where c = c] ran]) auto
  obtain r' where r': "analysis_row_of i w' = Some r'" "row_status r' = ''done''" "scores_in J (set ASPECTS) r'" "row_scoring r' = Some cols"
    using row by (auto simp: row_is_def)
  have "handle_analysis cfg ?es i stop_now w = (Inr True, w')"
    using w0(2) run fin assms(9) m by (simp add: analysis_run_def settle_run_def row_to_analysis_record_def)
  then have "process_entry consumer entry_id fs stop_now w = ack_and_remove consumer entry_id w'"
    by (simp add: process_entry_def assms(17,18) analysis_job_handler_def)
  moreover have "col_overall_score cols = score"
    using q(2,5) by (auto simp: scoring_columns_of_def and_then_eq_Inr read_as_def getitem_of_map)
  moreover have "\<exists>x. map_of (row_aspect_scores r') a = Some x \<and> 0 \<le> x \<and> x \<le> 100" if a: "a \<in> set (MODE_ASPECTS ?m)" for a
  proof -
    obtain p where p: "map_of J a = Some p" "has_score (data p)" using sav(2) a by blast
    moreover have "a \<in> set ASPECTS" using a set_MODE_ASPECTS_subset by blast
    ultimately show ?thesis using r'(3) by (fastforce simp: scores_in_def has_score_def)
  qed
  ultimately show ?thesis using r' chart q(3,4) by auto
qed

text \<open>The concrete worker, a database with one queued clean analysis and a Redis that answers every call.\<close>

definition demo_ready_song :: song_row where
  "demo_ready_song = demo_song\<lparr>song_reference_pitch := Some (to_bytes (\<lambda>x. x) \<lparr>hop_seconds = PITCH_HOP_SECONDS, hz = [Some 110]\<rparr>)\<rparr>"

definition demo_ready_db :: worker_state where
  "demo_ready_db = demo_db\<lparr>songs := [demo_ready_song]\<rparr>"

definition demo_answers :: "worker_state redis_client" where
  "demo_answers =
     \<lparr>xgroup_create = ret (), xreadgroup = \<lambda>_ _. ret [], xpending_own = \<lambda>_. ret [], xpending_idle = \<lambda>_ _. ret [],
      xrange = \<lambda>_. ret [], xclaim = \<lambda>_ _. ret [], xack = \<lambda>_. ret (), xdel = \<lambda>_. ret ()\<rparr>"

lemma demo_ready_facts:
  "analysis_row_of ''a1'' demo_ready_db = Some (demo_row ''a1'' ''queued'' 1)"
  "stages_of (row_stages_json (demo_row ''a1'' ''queued'' 1)) = []"
  "song_row_of (row_song_id (demo_row ''a1'' ''queued'' 1)) demo_ready_db = Some demo_ready_song"
  "prepared demo_ready_song" "job_id_of [(''job_id'', ''a1'')] = Some ''a1''" "row_mode (demo_row ''a1'' ''queued'' 1) = Clean"
  "reference_pitch (job_context dir r demo_ready_song) = \<lparr>hop_seconds = PITCH_HOP_SECONDS, hz = [Some 110]\<rparr>"
  "completed (job_context dir r s) = Map.empty"
  by (simp_all add: analysis_row_of_def demo_ready_db_def demo_db_def demo_row_def stages_of_def song_row_of_def
      demo_ready_song_def demo_song_def prepared_def job_id_of_def job_context_def to_bytes_def from_bytes_def)

end
