(* ===== verification/PrepRun.thy ===== *)
theory PrepRun
  imports JobRun
begin

text \<open>
  The preparation of one song from the stream to the analyses that wait for it: the consumer, the handler of
  \<open>queue/prep_handler.py\<close>, the repositories and the cold path together. The lemmas show that, where nothing
  fails outside the program and the stages accept the song, its stem and reference pitch are recorded and
  every analysis that waited for it is queued, with its entry on the analyses stream.
\<close>

section \<open>The cold path\<close>

lemma prep_named:
  assumes "s \<in> set (flatten (build_prep_stages st lib))" and "stage_run s pid env c = Inr r"
  shows "stage r = stage_name s \<and> status r = DONE"
proof -
  from assms(1) have "s = prep_reference_stage lib FFMPEG_PATH \<or> s = separate_reference_stage lib \<or>
    s = transcribe_stage lib \<or> s = prep_reference_pitch_stage lib"
    by (simp add: build_prep_stages_def)
  then show ?thesis using assms(2)
    by (elim disjE; simp add: cold_stage_defs fst_Inr)
      (auto simp: prep_reference_run_def separate_reference_run_def transcribe_run_def prep_reference_pitch_run_def
        thenp_eq_Inr bindp_eq_Inr Let_def case_prod_unfold)
qed

lemma prep_parallel_safe:
  assumes "steady lib"
  shows "parallel_safe prep_with_result (build_prep_stages st lib)"
proof -
  have d: "wl_disk lib n pid = wl_disk lib n 0" "wl_clock lib n pid = wl_clock lib n 0" for n pid
    using assms by (simp_all only: steady_def)
  have "stage_run s pid env c = stage_run s 0 Map.empty c" if "s \<in> set (flatten (build_prep_stages st lib))" for s pid env c
    using that by (auto simp: build_prep_stages_def cold_stage_defs d [of _ pid])
  then have det: "deterministic s" if "s \<in> set (flatten (build_prep_stages st lib))" for s
    using that unfolding deterministic_def by blast
  have own: "names_own_result s" if "s \<in> set (flatten (build_prep_stages st lib))" for s
    using prep_named [OF that] by (simp add: names_own_result_def)
  have "distinct (map stage_name (flatten (build_prep_stages st lib)))"
    by (simp add: build_prep_stages_def cold_stage_defs)
  moreover have "\<forall>e \<in> set (build_prep_stages st lib). \<exists>s. e = Single s" by (simp add: build_prep_stages_def)
  ultimately show ?thesis using det own unfolding parallel_safe_def by blast
qed

lemma in_order_settled:
  "in_order wr ss c = Inr rs \<Longrightarrow> list_all2 (\<lambda>s r. \<exists>c'. settled s (isolated s c') = Inr r) ss rs"
proof (induction ss arbitrary: c rs)
  case (Cons s ss)
  then show ?case by (auto split: sum.splits)
qed simp

lemma settled_run:
  "settled s (isolated s c) = Inr r \<Longrightarrow> stage_run s 0 Map.empty c = Inr r \<or> \<not> required s \<and> status r = SKIPPED"
  by (auto simp: settled_def isolated_def unpickle_def stage_worker_def skipped_result_def
      split: sum.splits exn.splits if_splits)

text \<open>What the stored results of a finished cold path hold.\<close>

definition prep_savable :: "(string \<times> stage_result) list \<Rightarrow> real option list \<Rightarrow> bool" where
  "prep_savable J curve \<longleftrightarrow>
     (\<exists>q. map_of J ''prep_reference_pitch'' = Some q \<and>
        getitem (data q) ''reference_pitch_curve'' = Inr (dump_curve \<lparr>hop_seconds = PITCH_HOP_SECONDS, hz = curve\<rparr>)) \<and>
     (\<forall>q. map_of J ''transcribe'' = Some q \<and> status q = DONE \<longrightarrow> (\<exists>l. getitem (data q) ''lyrics'' = Inr (dump_lyrics l)))"

lemma cold_path_savable:
  assumes "in_order prep_with_result (flatten (build_prep_stages st lib)) c = Inr rs" and "detects_positive (wl_detect lib)"
  shows "map stage rs = [''prep_reference'', ''separate_reference'', ''transcribe'', ''prep_reference_pitch'']"
    and "\<exists>curve. prep_savable (map (\<lambda>r. (stage r, r)) rs) curve \<and> (\<forall>v. Some v \<in> set curve \<longrightarrow> 0 < v)"
proof -
  let ?ss = "flatten (build_prep_stages st lib)"
  have all: "list_all2 (\<lambda>s r. \<exists>c'. settled s (isolated s c') = Inr r) ?ss rs" by (rule in_order_settled [OF assms(1)])
  have own: "names_own_result s" if "s \<in> set ?ss" for s
    using prep_named [OF that] by (simp add: names_own_result_def)
  obtain r1 r2 r3 r4 c1 c2 c3 c4 where rs: "rs = [r1, r2, r3, r4]"
    and r: "settled (prep_reference_stage lib FFMPEG_PATH) (isolated (prep_reference_stage lib FFMPEG_PATH) c1) = Inr r1"
      "settled (separate_reference_stage lib) (isolated (separate_reference_stage lib) c2) = Inr r2"
      "settled (transcribe_stage lib) (isolated (transcribe_stage lib) c3) = Inr r3"
      "settled (prep_reference_pitch_stage lib) (isolated (prep_reference_pitch_stage lib) c4) = Inr r4"
    using all unfolding build_prep_stages_def flatten.simps by (auto simp: list_all2_Cons1)
  have "stage r1 = ''prep_reference''" "stage r2 = ''separate_reference''" "stage r3 = ''transcribe''" "stage r4 = ''prep_reference_pitch''"
    using isolated_named [OF own r(1)] isolated_named [OF own r(2)] isolated_named [OF own r(3)] isolated_named [OF own r(4)]
    by (simp_all add: build_prep_stages_def) (simp_all add: cold_stage_defs)
  note names = this
  then show "map stage rs = [''prep_reference'', ''separate_reference'', ''transcribe'', ''prep_reference_pitch'']"
    by (simp add: rs)
  have "stage_run (prep_reference_pitch_stage lib) 0 Map.empty c4 = Inr r4"
    using settled_run [OF r(4)] by (simp add: prep_reference_pitch_stage_def)
  then obtain curve samples rate rms where curve: "detect_gated (wl_detect lib) samples rate PITCH_HOP_SECONDS rms = Inr curve"
    "data r4 = [(''reference_pitch_curve'', dump_curve \<lparr>hop_seconds = PITCH_HOP_SECONDS, hz = curve\<rparr>)]"
    by (auto simp: prep_reference_pitch_stage_def prep_reference_pitch_run_def fst_Inr bindp_eq_Inr finallyp_def
        split: prod.splits sum.splits)
  have "stage_run (transcribe_stage lib) 0 Map.empty c3 = Inr r3 \<or> status r3 = SKIPPED"
    using settled_run [OF r(3)] by blast
  then have "\<exists>l. getitem (data r3) ''lyrics'' = Inr (dump_lyrics l)" if "status r3 = DONE"
    using that by (auto simp: transcribe_stage_def transcribe_run_def fst_Inr bindp_eq_Inr getitem_def split: prod.splits)
  then have "prep_savable (map (\<lambda>r. (stage r, r)) rs) curve"
    by (auto simp: prep_savable_def rs names curve(2) getitem_def)
  moreover have "\<forall>v. Some v \<in> set curve \<longrightarrow> 0 < v" using detect_gated_positive [OF assms(2) curve(1)] by blast
  ultimately show "\<exists>curve. prep_savable (map (\<lambda>r. (stage r, r)) rs) curve \<and> (\<forall>v. Some v \<in> set curve \<longrightarrow> 0 < v)"
    by blast
qed

section \<open>Recording the song\<close>

definition song_is :: "string \<Rightarrow> (song_row \<Rightarrow> bool) \<Rightarrow> 'z worker_state_scheme \<Rightarrow> bool" where
  "song_is i R w \<longleftrightarrow> (\<exists>s. song_row_of i w = Some s \<and> R s)"

definition queues :: "'z worker_state_scheme \<Rightarrow> analysis_row list \<times> string list" where
  "queues w = (analyses w, run_stream w)"

lemma queues_simps [simp]:
  "queues (w\<lparr>transactions := n\<rparr>) = queues w" "queues (w\<lparr>redis_calls := n\<rparr>) = queues w"
  "queues (w\<lparr>published := xs\<rparr>) = queues w" "queues (w\<lparr>songs := ss\<rparr>) = queues w"
  "queues (w\<lparr>spawned := cs\<rparr>) = queues w" "queues (w\<lparr>spawned := cs, slept := zs\<rparr>) = queues w"
  by (simp_all add: queues_def)

text \<open>The song is usable: ready, with its stem and a reference pitch whose frames are \<open>curve\<close>.\<close>

definition ready_with :: "(real \<Rightarrow> real) \<Rightarrow> string \<Rightarrow> real option list \<Rightarrow> song_row \<Rightarrow> bool" where
  "ready_with f4 stem curve s \<longleftrightarrow>
     song_prep_status s = ''ready'' \<and> song_vocal_stem_path s = Some stem \<and>
     song_reference_pitch s = Some (to_bytes f4 \<lparr>hop_seconds = PITCH_HOP_SECONDS, hz = curve\<rparr>)"

lemma succeeds_persist_ready:
  assumes "quiet (cfg_faults cfg)" and "prep_savable J curve"
  shows "succeeds (\<lambda>w. song_is i (\<lambda>s. stages_of (song_prep_stages_json s) = J) w \<and> queues w = Q) (persist_ready cfg i c)
    (\<lambda>_ w. song_is i (ready_with (cfg_f4 cfg) (prep_vocal_stem_path c) curve) w \<and> queues w = Q)"
proof (rule succeedsI)
  fix w :: "'a worker_state_scheme"
  assume w: "song_is i (\<lambda>s. stages_of (song_prep_stages_json s) = J) w \<and> queues w = Q"
  then obtain s where s: "song_row_of i w = Some s" "stages_of (song_prep_stages_json s) = J" by (auto simp: song_is_def)
  obtain q where q: "map_of J ''prep_reference_pitch'' = Some q"
    "getitem (data q) ''reference_pitch_curve'' = Inr (dump_curve \<lparr>hop_seconds = PITCH_HOP_SECONDS, hz = curve\<rparr>)"
    using assms(2) by (auto simp: prep_savable_def)
  have "\<exists>lyr. lyrics_of_transcribe (map_of J ''transcribe'') = Inr lyr"
  proof (cases "map_of J ''transcribe''")
    case (Some t)
    then have "status t = DONE \<longrightarrow> (\<exists>l. getitem (data t) ''lyrics'' = Inr (dump_lyrics l))"
      using assms(2) unfolding prep_savable_def by blast
    then show ?thesis by (auto simp: lyrics_of_transcribe_def Some json_roundtrip)
  qed (simp add: lyrics_of_transcribe_def)
  then obtain lyr where lyr: "lyrics_of_transcribe (map_of J ''transcribe'') = Inr lyr" by blast
  have quiet: "\<not> db_fault (cfg_faults cfg) n" for n using assms(1) by (simp add: quiet_def)
  let ?w1 = "w\<lparr>transactions := Suc (transactions w)\<rparr>"
  let ?av = "case map_of J ''transcribe'' of None \<Rightarrow> False | Some r \<Rightarrow> status r = DONE"
  have get: "song_get_by_id (cfg_faults cfg) i w = (Inr (row_to_song_record s), ?w1)"
    using s(1) by (simp add: song_get_by_id_def transact_def bindp_def Let_def quiet song_row_of_def)
  have stages: "sr_prep_stages (row_to_song_record s) = J" by (simp add: row_to_song_record_def s(2))
  have "persist_ready cfg i c w = mark_prep_ready (cfg_faults cfg) (cfg_f4 cfg) i (prep_vocal_stem_path c)
      \<lparr>hop_seconds = PITCH_HOP_SECONDS, hz = curve\<rparr> lyr ?av ?w1"
    unfolding persist_ready_def
    by (simp add: bindp_def get stages lookup_def q lyr)
  moreover have "\<exists>w'. mark_prep_ready (cfg_faults cfg) (cfg_f4 cfg) i (prep_vocal_stem_path c)
      \<lparr>hop_seconds = PITCH_HOP_SECONDS, hz = curve\<rparr> lyr ?av ?w1 = (Inr (), w') \<and>
      song_is i (ready_with (cfg_f4 cfg) (prep_vocal_stem_path c) curve) w' \<and> queues w' = Q"
    using s(1) w
    by (simp add: mark_prep_ready_def update_song_eq Let_def quiet song_is_def ready_with_def song_row_of_def find_update_song)
  ultimately show "\<exists>a w'. persist_ready cfg i c w = (Inr a, w') \<and>
      song_is i (ready_with (cfg_f4 cfg) (prep_vocal_stem_path c) curve) w' \<and> queues w' = Q"
    by auto
qed

section \<open>Waking\<close>

lemma xadd_each:
  assumes "quiet fl"
  shows "\<exists>w'. for_each (xadd_run fl) ids w = (Inr (), w') \<and> run_stream w' = run_stream w @ ids \<and>
    analyses w' = analyses w \<and> songs w' = songs w"
proof (induction ids arbitrary: w)
  case (Cons i ids)
  let ?w1 = "w\<lparr>redis_calls := redis_calls w + 1, run_stream := run_stream w @ [i]\<rparr>"
  have "xadd_run fl i w = (Inr (), ?w1)" using assms by (simp add: quiet_def xadd_run_def Let_def)
  moreover obtain w' where "for_each (xadd_run fl) ids ?w1 = (Inr (), w')" "run_stream w' = run_stream ?w1 @ ids"
    "analyses w' = analyses ?w1" "songs w' = songs ?w1" using Cons [of ?w1] by blast
  ultimately show ?case by (simp add: thenp_def bindp_def)
qed simp

text \<open>The rows of the analyses table after the waking of those that wait for a song.\<close>

definition woken_rows :: "string \<Rightarrow> analysis_row list \<Rightarrow> analysis_row list" where
  "woken_rows song rows =
     fst (recalculate_positions (map (\<lambda>r. if waits_for song r then r\<lparr>row_status := ''queued''\<rparr> else r) rows))"

definition waiting_ids :: "string \<Rightarrow> analysis_row list \<Rightarrow> string list" where
  "waiting_ids song rows = map row_id (filter (waits_for song) rows)"

lemma woken_queued:
  assumes "r \<in> set rows" and "waits_for song r"
  shows "\<exists>q \<in> set (woken_rows song rows). row_id q = row_id r \<and> row_status q = ''queued''"
proof -
  let ?rows = "map (\<lambda>r. if waits_for song r then r\<lparr>row_status := ''queued''\<rparr> else r) rows"
  let ?q = "r\<lparr>row_status := ''queued'', row_queue_position := Some (queue_rank ?rows (r\<lparr>row_status := ''queued''\<rparr>))\<rparr>"
  have "r\<lparr>row_status := ''queued''\<rparr> \<in> set ?rows" using assms by (auto intro: rev_image_eqI)
  then have "?q \<in> set (woken_rows song rows)"
    unfolding woken_rows_def recalculate_positions_def fst_conv set_map by (rule rev_image_eqI) simp
  then show ?thesis by (rule rev_bexI) simp
qed

lemma succeeds_wake:
  assumes "quiet fl"
  shows "succeeds (\<lambda>w. song_is i R w \<and> queues w = (rows, entries)) (wake_ready fl song)
    (\<lambda>_ w. song_is i R w \<and> queues w = (woken_rows song rows, entries @ waiting_ids song rows))"
proof (rule succeedsI)
  fix w :: "'a worker_state_scheme"
  assume w: "song_is i R w \<and> queues w = (rows, entries)"
  let ?rows = "map (\<lambda>r. if waits_for song r then r\<lparr>row_status := ''queued''\<rparr> else r) (analyses w)"
  let ?ids = "map row_id (filter (waits_for song) (analyses w))"
  let ?w1 = "w\<lparr>transactions := transactions w + 1, analyses := fst (recalculate_positions ?rows)\<rparr>"
  have quiet: "\<not> db_fault fl n" for n using assms by (simp add: quiet_def)
  have wake: "wake_waiting_for_reference fl song w = (Inr (?ids, snd (recalculate_positions ?rows)), ?w1)"
    by (simp add: wake_waiting_for_reference_def transact_def Let_def quiet case_prod_beta)
  obtain w2 where w2: "for_each (xadd_run fl) ?ids ?w1 = (Inr (), w2)" "run_stream w2 = run_stream ?w1 @ ?ids"
    "analyses w2 = analyses ?w1" "songs w2 = songs ?w1" using xadd_each [OF assms] by blast
  let ?P = "\<lambda>v. analyses v = analyses w2 \<and> run_stream v = run_stream w2 \<and> songs v = songs w2"
  have "succeeds ?P (case x of (j, position) \<Rightarrow> event_queued fl j position) (\<lambda>_. ?P)" for x
    unfolding event_queued_def by (cases x) (auto intro: succeeds_publish [OF assms])
  then have "succeeds ?P (for_each (\<lambda>(j, position). event_queued fl j position) ps) (\<lambda>_. ?P)" for ps
    by (rule succeeds_for_each)
  then obtain u w3 where "for_each (\<lambda>(j, position). event_queued fl j position) (snd (recalculate_positions ?rows)) w2 = (Inr u, w3)" "?P w3"
    unfolding succeeds_def by blast
  then have "wake_ready fl song w = (Inr u, w3) \<and> song_is i R w3 \<and>
      queues w3 = (woken_rows song rows, entries @ waiting_ids song rows)"
    using w w2 by (auto simp: wake_ready_def bindp_def thenp_def wake song_is_def song_row_of_def queues_def woken_rows_def waiting_ids_def)
  then show "\<exists>a w'. wake_ready fl song w = (Inr a, w') \<and> song_is i R w' \<and>
      queues w' = (woken_rows song rows, entries @ waiting_ids song rows)" by blast
qed

lemma succeeds_finish_prep:
  assumes "quiet (cfg_faults cfg)" and "prep_savable J curve"
  shows "succeeds (\<lambda>w. song_is i (\<lambda>s. stages_of (song_prep_stages_json s) = J) w \<and> queues w = (rows, entries)) (finish_prep cfg i c)
    (\<lambda>b w. b \<and> song_is i (ready_with (cfg_f4 cfg) (prep_vocal_stem_path c) curve) w \<and>
       queues w = (woken_rows i rows, entries @ waiting_ids i rows))"
proof -
  let ?R = "ready_with (cfg_f4 cfg) (prep_vocal_stem_path c) curve"
  have "succeeds (\<lambda>w. song_is i ?R w \<and> queues w = (woken_rows i rows, entries @ waiting_ids i rows)) (thenp (prep_cleanup c True) (ret True))
      (\<lambda>b w. b \<and> song_is i ?R w \<and> queues w = (woken_rows i rows, entries @ waiting_ids i rows))"
    by (rule succeedsI) (auto simp: thenp_def bindp_def prep_cleanup_def song_is_def song_row_of_def queues_def)
  then show ?thesis
    unfolding finish_prep_def
    by (intro succeeds_thenp [OF succeeds_persist_ready [OF assms]] succeeds_thenp [OF succeeds_wake [OF assms(1)]])
qed

section \<open>The pipeline's ports on the songs\<close>

definition saved_song :: "string \<Rightarrow> 'z worker_state_ext \<Rightarrow> (string \<times> stage_result) list" where
  "saved_song i z = (case song_row_of i (database z) of None \<Rightarrow> [] | Some s \<Rightarrow> stages_of (song_prep_stages_json s))"

lemma song_database [simp]:
  "songs (database (os_state.more w)) = songs w" "run_stream (database (os_state.more w)) = run_stream w"
  "song_row_of i (database (os_state.more w)) = song_row_of i w" "queues (database (os_state.more w)) = queues w"
  by (cases w; simp add: database_def os_state.defs song_row_of_def queues_def)+

lemma song_is_database [simp]: "song_is i R (database (os_state.more w)) = song_is i R w"
  by (simp add: song_is_def)

lemma saved_song_row: "song_row_of i w = Some s \<Longrightarrow> saved_song i (os_state.more w) = stages_of (song_prep_stages_json s)"
  by (simp add: saved_song_def)

lemma prep_ports_work:
  assumes "quiet fl" and "\<And>w. \<not> stop_now w"
  shows "working_ports (\<lambda>z. song_is i (\<lambda>_. True) (database z) \<and> queues (database z) = Q) (saved_song i) store i (prep_ports fl stop_now i)"
  unfolding working_ports_def
proof (intro allI impI conjI)
  fix w :: "'a worker_state_scheme" and q :: stage_result
  assume I: "song_is i (\<lambda>_. True) (database (os_state.more w)) \<and> queues (database (os_state.more w)) = Q"
  then obtain s where s: "song_row_of i w = Some s" "queues w = Q" by (auto simp: song_is_def)
  have quiet: "\<not> db_fault fl n" "\<not> redis_fault fl n" for n using assms(1) by (auto simp: quiet_def)
  let ?I = "\<lambda>w'. song_is i (\<lambda>_. True) (database (os_state.more w')) \<and> queues (database (os_state.more w')) = Q"
  have update: "\<exists>w'. update_song fl i f w = (Inr (), w') \<and> ?I w' \<and> saved_song i (os_state.more w') = stages_of (song_prep_stages_json (f s))"
    if "\<And>r. song_row_id (f r) = song_row_id r" for f
    using s that by (auto simp: update_song_eq Let_def quiet song_is_def saved_song_def song_row_of_def find_update_song)
  show "\<exists>w'. publish_stage (prep_ports fl stop_now i) i n k t w = (Inr (), w') \<and> ?I w' \<and>
      saved_song i (os_state.more w') = saved_song i (os_state.more w)" for n k t
    using s by (auto simp: prep_ports_def event_stage_def publish_def Let_def quiet song_is_def saved_song_def song_row_of_def)
  show "\<exists>w'. mark_processing (prep_ports fl stop_now i) n k t w = (Inr (), w') \<and> ?I w' \<and>
      saved_song i (os_state.more w') = saved_song i (os_state.more w)" for n k t
    using update [of "\<lambda>r. r\<lparr>song_prep_status := ''processing'', song_prep_stage := Some n\<rparr>"]
    by (simp add: prep_ports_def mark_prep_processing_def saved_song_row [OF s(1)])
  show "\<exists>w'. save_stage_progress (prep_ports fl stop_now i) q n k t w = (Inr (), w') \<and> ?I w' \<and>
      saved_song i (os_state.more w') = store q (saved_song i (os_state.more w))" for q n k t
    using update [of "\<lambda>r. r\<lparr>song_prep_stages_json := merge_stage (song_prep_stages_json r) q, song_prep_stage := n\<rparr>"]
    by (simp add: prep_ports_def save_prep_stage_progress_def saved_song_row [OF s(1)] store_def merge_stage_def stages_of_def)
  show "\<exists>w'. should_stop (prep_ports fl stop_now i) w = (Inr False, w') \<and> ?I w' \<and>
      saved_song i (os_state.more w') = saved_song i (os_state.more w)"
    using I assms(2) by (auto simp: prep_ports_def)
qed

section \<open>Properties\<close>

text \<open>
  C3: A song taken from the preparation stream by a worker outside which nothing fails, and accepted by the
  stages of the cold path, is recorded as ready with its stem and a reference pitch whose voiced
  frames are positive; every analysis that waited for it is queued and has its entry on the analyses
  stream, in the order of the table; and the consumer acknowledges the song's entry in that state.
\<close>

theorem prepared_song_wakes_analyses:
  assumes "steady lib" and "detects_positive (wl_detect lib)" and "quiet (cfg_faults cfg)" and "all_finish (cfg_fate cfg)"
    and "\<And>w. \<not> stop_now w" and "song_row_of i w = Some s" and "stages_of (song_prep_stages_json s) = []"
    and "in_order prep_with_result (flatten (build_prep_stages st lib)) (build_prep_context cfg i) = Inr rs"
    and "handler consumer = prep_job_handler cfg (build_prep_stages st lib)" and "job_id_of fs = Some i"
  shows "\<exists>w' s' curve. process_entry consumer entry_id fs stop_now w = ack_and_remove consumer entry_id w' \<and>
    song_row_of i w' = Some s' \<and> song_prep_status s' = ''ready'' \<and>
    song_vocal_stem_path s' = Some (song_stem_path (cfg_stems_dir cfg) i) \<and>
    song_reference_pitch s' = Some (to_bytes (cfg_f4 cfg) \<lparr>hop_seconds = PITCH_HOP_SECONDS, hz = curve\<rparr>) \<and>
    (\<forall>v. Some v \<in> set curve \<longrightarrow> 0 < v) \<and> none_waiting i w' \<and>
    run_stream w' = run_stream w @ map row_id (filter (waits_for i) (analyses w)) \<and>
    (\<forall>r \<in> set (analyses w). waits_for i r \<longrightarrow> (\<exists>q \<in> set (analyses w'). row_id q = row_id r \<and> row_status q = ''queued''))"
proof -
  let ?es = "build_prep_stages st lib" and ?c = "build_prep_context cfg i" and ?fl = "cfg_faults cfg"
  let ?Q = "(analyses w, run_stream w)"
  let ?w0 = "w\<lparr>transactions := Suc (transactions w)\<rparr>"
  have quiet: "\<not> db_fault ?fl n" for n using assms(3) by (simp add: quiet_def)
  have get: "song_get_by_id ?fl i w = (Inr (row_to_song_record s), ?w0)"
    using assms(6) by (simp add: song_get_by_id_def transact_def bindp_def Let_def quiet song_row_of_def)
  have fresh: "sr_prep_stages (row_to_song_record s) = []" by (simp add: row_to_song_record_def assms(7))
  have start: "song_is i (\<lambda>_. True) (database (os_state.more ?w0)) \<and> queues (database (os_state.more ?w0)) = ?Q"
    using assms(6) by (simp add: song_is_def queues_def song_row_of_def)
  have safe: "parallel_safe prep_with_result (stages_for_mode ?es None)"
    by (simp add: stages_for_mode_def prep_parallel_safe [OF assms(1)])
  have "flatten (remaining_entries (stages_for_mode ?es None) []) = flatten ?es"
    by (simp add: flatten_remaining stages_for_mode_def)
  then have order: "in_order prep_with_result (flatten (remaining_entries (stages_for_mode ?es None) []))
      (fold (\<lambda>r c. prep_with_result c r) (map snd []) ?c) = Inr rs" using assms(8) by simp
  have ports: "working_ports (\<lambda>z. song_is i (\<lambda>_. True) (database z) \<and> queues (database z) = ?Q) (saved_song i) store i
      (prep_ports ?fl stop_now i)"
    by (rule prep_ports_work [OF assms(3,5)])
  obtain v where run: "run prep_with_result (cfg_fate cfg) ?es (prep_ports ?fl stop_now i) i ?c [] None ?w0 = (Inr COMPLETED, v)"
    and v: "song_is i (\<lambda>_. True) v \<and> queues v = ?Q"
    and saved: "saved_song i (os_state.more v) = fold store rs (saved_song i (os_state.more ?w0))"
    using run_in_order [OF ports assms(4) start safe order] unfolding song_is_database song_database by blast
  note cold = cold_path_savable [OF assms(8,2)]
  have "saved_song i (os_state.more ?w0) = []" using assms(6,7) by (simp add: saved_song_def song_row_of_def)
  moreover have "distinct (map stage rs)" unfolding cold(1) by simp
  ultimately have J: "saved_song i (os_state.more v) = map (\<lambda>r. (stage r, r)) rs" using saved fold_store [of rs "[]"] by simp
  define J where "J = map (\<lambda>r. (stage r, r)) rs"
  have P: "song_is i (\<lambda>s. stages_of (song_prep_stages_json s) = J) v \<and> queues v = ?Q"
    using v J by (auto simp: song_is_def saved_song_row J_def)
  obtain curve where curve: "prep_savable J curve" "\<forall>v. Some v \<in> set curve \<longrightarrow> 0 < v" using cold(2) unfolding J_def by blast
  obtain w' where fin: "finish_prep cfg i ?c v = (Inr True, w')"
    and song: "song_is i (ready_with (cfg_f4 cfg) (prep_vocal_stem_path ?c) curve) w'"
    and q: "queues w' = (woken_rows i (analyses w), run_stream w @ waiting_ids i (analyses w))"
    by (rule succeedsE [OF succeeds_finish_prep [OF assms(3) curve(1), where c = ?c] P]) auto
  have handled: "handle_prep cfg ?es i stop_now w = (Inr True, w')"
    using run fin by (simp add: handle_prep_def bindp_def get Let_def prep_run_def fresh)
  have "process_entry consumer entry_id fs stop_now w = ack_and_remove consumer entry_id w'"
    using handled by (simp add: process_entry_def assms(9,10) prep_job_handler_def)
  moreover have "none_waiting i w'" using handle_prep_True [OF handled] by blast
  moreover obtain s' where "song_row_of i w' = Some s'" "song_prep_status s' = ''ready''"
    "song_vocal_stem_path s' = Some (song_stem_path (cfg_stems_dir cfg) i)"
    "song_reference_pitch s' = Some (to_bytes (cfg_f4 cfg) \<lparr>hop_seconds = PITCH_HOP_SECONDS, hz = curve\<rparr>)"
    using song by (auto simp: song_is_def ready_with_def build_prep_context_def)
  moreover have "run_stream w' = run_stream w @ map row_id (filter (waits_for i) (analyses w))"
    using q by (simp add: queues_def waiting_ids_def)
  moreover have "\<exists>q \<in> set (analyses w'). row_id q = row_id r \<and> row_status q = ''queued''"
    if "r \<in> set (analyses w)" "waits_for i r" for r
    using woken_queued [OF that] q by (simp add: queues_def)
  ultimately show ?thesis
    using curve(2) by (intro exI [of _ w'] exI [of _ s'] exI [of _ curve]) blast
qed

text \<open>The concrete worker and a database with a song two analyses wait for, a third is queued.\<close>

definition demo_songs_consumer :: "worker_state consumer" where
  "demo_songs_consumer =
     \<lparr>client = demo_answers, handler = prep_job_handler (demo_prep_cfg (\<lambda>_. False)) (build_prep_stages demo_settings demo_lib),
      reclaim_min_idle_seconds = SONGS_PREP_PENDING_CLAIM_MIN_IDLE, max_claim_attempts = MAX_CLAIM_ATTEMPTS\<rparr>"

lemma demo_prep_reference:
  "stage_run (prep_reference_stage demo_lib p) pid env c = Inr (stage_done ''prep_reference'' 0
     [(''reference_path'', PStr (path_join (prep_work_dir c) ''reference.wav'')), (''sample_rate_hz'', PInt 22050),
      (''reference_loudness_lufs'', PFloat (- 20))])"
  by (simp add: prep_reference_stage_def prep_reference_run_def decode_and_normalize_def thenp_def bindp_def
      canonicalize_for_pipeline_def run_ffmpeg_def demo_exec_def read_wav_def measure_and_normalize_def demo_audio_def
      demo_lib_def demo_worker_disk_def PIPELINE_SAMPLE_RATE_HZ_def Let_def)

lemma demo_separate_reference:
  assumes "prep_completed c ''prep_reference'' = Some (stage_done ''prep_reference'' 0
      ((''reference_path'', PStr path) # (''sample_rate_hz'', PInt 22050) # d))"
  shows "stage_run (separate_reference_stage demo_lib) pid env c = Inr (stage_done ''separate_reference'' 0
     [(''stem_path'', PStr (prep_vocal_stem_path c)), (''loudness_lufs'', PFloat (- 20))])"
  using assms
  by (simp add: separate_reference_stage_def separate_reference_run_def prep_stage_data_def prep_result_def read_as_def
      thenp_def bindp_def separated_def separator_of_def finallyp_def read_wav_def measure_and_normalize_def demo_audio_def
      demo_lib_def demo_worker_disk_def MIN_VOCAL_LOUDNESS_LUFS_def)

lemma demo_transcribe:
  assumes "prep_completed c ''separate_reference'' = Some (stage_done ''separate_reference'' 0 ((''stem_path'', PStr path) # d))"
  shows "stage_run (transcribe_stage demo_lib) pid env c = Inr (stage_done ''transcribe'' 0
      [(''lyrics'', dump_lyrics \<lparr>language = ''en'', words = []\<rparr>)])"
  using assms
  by (simp add: transcribe_stage_def transcribe_run_def prep_stage_data_def prep_result_def read_as_def bindp_def finallyp_def
      read_wav_def demo_lib_def demo_worker_disk_def)

lemma demo_reference_pitch: "\<exists>r. stage_run (prep_reference_pitch_stage demo_lib) pid env c = Inr r"
proof -
  have "detect_gated (\<lambda>chunk rate hop. Inr (map (\<lambda>_. Some 110) chunk)) [1] 22050 PITCH_HOP_SECONDS [1] = Inr [Some 110]"
    using loud_peak [of 1]
    by (simp add: detect_gated_def voiced_mask_def voiced_spans_def min_silent_run_def slice_def write_at_def
        VAD_MIN_SILENT_RUN_SECONDS_def PITCH_HOP_SECONDS_def)
  then show ?thesis
    by (simp add: prep_reference_pitch_stage_def prep_reference_pitch_run_def bindp_def finallyp_def read_wav_def
        compute_shared_features_def rms_envelope_of_def demo_librosa_def demo_lib_def demo_worker_disk_def Let_def)
qed

lemma demo_prepared:
  assumes "prep_completed c = Map.empty"
  shows "\<exists>rs. in_order prep_with_result (flatten (build_prep_stages st demo_lib)) c = Inr rs"
proof -
  let ?p = "stage_done ''prep_reference'' 0
     [(''reference_path'', PStr (path_join (prep_work_dir c) ''reference.wav'')), (''sample_rate_hz'', PInt 22050),
      (''reference_loudness_lufs'', PFloat (- 20))]"
    and ?s = "stage_done ''separate_reference'' 0
     [(''stem_path'', PStr (prep_vocal_stem_path c)), (''loudness_lufs'', PFloat (- 20))]"
    and ?t = "stage_done ''transcribe'' 0 [(''lyrics'', dump_lyrics \<lparr>language = ''en'', words = []\<rparr>)]"
  let ?c1 = "prep_with_result c ?p"
  let ?c2 = "prep_with_result ?c1 ?s"
  let ?c3 = "prep_with_result ?c2 ?t"
  have 1: "settled (prep_reference_stage demo_lib FFMPEG_PATH) (isolated (prep_reference_stage demo_lib FFMPEG_PATH) c) = Inr ?p"
    by (rule settled_pure) (rule demo_prep_reference)
  have "stage_run (separate_reference_stage demo_lib) 0 Map.empty ?c1 = Inr ?s"
    by (subst demo_separate_reference [where c = ?c1]) (simp_all add: prep_with_result_def)
  then have 2: "settled (separate_reference_stage demo_lib) (isolated (separate_reference_stage demo_lib) ?c1) = Inr ?s"
    by (rule settled_pure)
  have "stage_run (transcribe_stage demo_lib) 0 Map.empty ?c2 = Inr ?t"
    by (rule demo_transcribe) (simp add: prep_with_result_def)
  then have 3: "settled (transcribe_stage demo_lib) (isolated (transcribe_stage demo_lib) ?c2) = Inr ?t" by (rule settled_pure)
  obtain r where "stage_run (prep_reference_pitch_stage demo_lib) 0 Map.empty ?c3 = Inr r" using demo_reference_pitch by blast
  then have "settled (prep_reference_pitch_stage demo_lib) (isolated (prep_reference_pitch_stage demo_lib) ?c3) = Inr r"
    by (rule settled_pure)
  with 1 2 3 show ?thesis by (simp add: build_prep_stages_def)
qed

theorem prepared_song_wakes_analyses_witness:
  "\<exists>w' s'. process_entry demo_songs_consumer ''1-0'' [(''job_id'', ''s1'')] (\<lambda>_. False) waiting_db = (Inr (), w') \<and>
    song_row_of ''s1'' w' = Some s' \<and> song_prep_status s' = ''ready'' \<and> run_stream w' = [''a1'']"
proof -
  let ?cfg = "demo_prep_cfg (\<lambda>_. False)"
  have facts: "detects_positive (wl_detect demo_lib)" "quiet (cfg_faults ?cfg)" "all_finish (cfg_fate ?cfg)"
    "song_row_of ''s1'' waiting_db = Some demo_song" "stages_of (song_prep_stages_json demo_song) = []"
    "job_id_of [(''job_id'', ''s1'')] = Some ''s1''"
    using demo_lib_ok(2)
    by (simp_all add: libraries_ok_def quiet_def demo_prep_cfg_def all_finish_def song_row_of_def waiting_db_def demo_db_def
        demo_song_def stages_of_def job_id_of_def)
  have run: "handler demo_songs_consumer = prep_job_handler ?cfg (build_prep_stages demo_settings demo_lib)"
    by (simp add: demo_songs_consumer_def)
  have acks: "ack_and_remove demo_songs_consumer e v = (Inr (), v)" for e v
    by (simp add: ack_and_remove_def thenp_def bindp_def demo_songs_consumer_def demo_answers_def)
  have waits: "run_stream waiting_db @ map row_id (filter (waits_for ''s1'') (analyses waiting_db)) = [''a1'']"
    by (simp add: waiting_db_def demo_db_def demo_row_def waits_for_def)
  have "prep_completed (build_prep_context ?cfg ''s1'') = Map.empty" by (simp add: build_prep_context_def)
  from demo_prepared [OF this] obtain rs where
    "in_order prep_with_result (flatten (build_prep_stages demo_settings demo_lib)) (build_prep_context ?cfg ''s1'') = Inr rs" by blast
  from prepared_song_wakes_analyses [OF demo_lib_ok(1) facts(1-3) _ facts(4,5) this run facts(6), of "\<lambda>_. False" "''1-0''"]
  show ?thesis unfolding acks waits by auto
qed

end
