(* ===== verification/Worker.thy ===== *)
theory Worker
  imports PrepRun Scheduler
begin

text \<open>
  \<open>run\<close> of \<open>worker.py\<close>: the settings, the directories, the two connections, the registry's stage lists, the
  runners, handlers, consumers and the scheduler built from them, and the release of what was opened. The
  process state extends the worker's by what \<open>run\<close> opens. What the outside does (the directory calls, the
  connections, the two Redis streams, the libraries, the children, the stop signal) is one record of parameters.
  The lemmas show what is open when the worker has returned, and that the assembled worker finishes the jobs
  it is given.
\<close>

section \<open>The process\<close>

record process_state = worker_state +
  directories :: "string list"
  pg_open :: bool
  redis_open :: bool
  heartbeat_on :: bool
  torch_threads :: "(int \<times> int) option"

record worker_outside =
  wo_faults :: faults
  wo_fate :: "nat \<Rightarrow> child_fate"
  wo_f4 :: "real \<Rightarrow> real"
  wo_lib :: worker_lib
  wo_mkdir :: "string \<Rightarrow> exn option"
  wo_connect :: "exn option"
  wo_ping :: "exn option"
  wo_analyses_stream :: "process_state redis_client"
  wo_songs_prep_stream :: "process_state redis_client"
  wo_stop :: "process_state \<Rightarrow> bool"

section \<open>Assembling the worker\<close>

fun engine_name :: "pitch_engine \<Rightarrow> string" where
  "engine_name Crepe = ''crepe''"
| "engine_name Pyin = ''pyin''"

definition model_versions :: "settings \<Rightarrow> (string \<times> string) list" where
  "model_versions st =
     [(''demucs'', demucs_model st), (''whisper'', whisper_model st), (''pitch_engine'', engine_name (pitch_engine st))]"

definition worker_config :: "settings \<Rightarrow> worker_outside \<Rightarrow> prep_config" where
  "worker_config st out =
     \<lparr>cfg_faults = wo_faults out, cfg_fate = wo_fate out, cfg_storage_dir = audio_storage_dir st, cfg_f4 = wo_f4 out,
      cfg_model_versions = model_versions st, cfg_stems_dir = song_stems_dir st\<rparr>"

text \<open>A finite profile; a NaN weight, which the validation admits, is outside the stages' model.\<close>

definition weights_for :: "(mode \<Rightarrow> weights) \<Rightarrow> mode \<Rightarrow> scoring_weights" where
  "weights_for pw m = finite_weights (pw m)"

definition analyses_consumer :: "settings \<Rightarrow> (mode \<Rightarrow> weights) \<Rightarrow> worker_outside \<Rightarrow> process_state consumer" where
  "analyses_consumer st pw out =
     \<lparr>client = wo_analyses_stream out,
      handler = analysis_job_handler (handler_config.truncate (worker_config st out)) (build_stages st (weights_for pw) (wo_lib out)),
      reclaim_min_idle_seconds = PENDING_CLAIM_MIN_IDLE, max_claim_attempts = MAX_CLAIM_ATTEMPTS\<rparr>"

definition songs_prep_consumer :: "settings \<Rightarrow> worker_outside \<Rightarrow> process_state consumer" where
  "songs_prep_consumer st out =
     \<lparr>client = wo_songs_prep_stream out, handler = prep_job_handler (worker_config st out) (build_prep_stages st (wo_lib out)),
      reclaim_min_idle_seconds = SONGS_PREP_PENDING_CLAIM_MIN_IDLE, max_claim_attempts = MAX_CLAIM_ATTEMPTS\<rparr>"

definition worker_scheduler :: "settings \<Rightarrow> (mode \<Rightarrow> weights) \<Rightarrow> worker_outside \<Rightarrow> process_state scheduler" where
  "worker_scheduler st pw out =
     \<lparr>analyses_stream = analyses_consumer st pw out, songs_prep_stream = songs_prep_consumer st out,
      waiting_song = oldest_waiting_song_id (wo_faults out), stopping = wo_stop out\<rparr>"

section \<open>The run\<close>

definition attempt :: "exn option \<Rightarrow> ('w \<Rightarrow> 'w) \<Rightarrow> ('w, exn, unit) prog" where
  "attempt failure f w = (case failure of Some e \<Rightarrow> (Inl e, w) | None \<Rightarrow> (Inr (), f w))"

definition open_connections :: "worker_outside \<Rightarrow> (process_state, exn, unit) prog" where
  "open_connections out =
     thenp (attempt (wo_connect out) (\<lambda>w. w\<lparr>pg_open := True\<rparr>))
    (thenp (attempt (wo_ping out) (\<lambda>w. w\<lparr>redis_open := True\<rparr>))
       (modifyp (\<lambda>w. w\<lparr>heartbeat_on := True\<rparr>)))"

definition worker_setup :: "settings \<Rightarrow> worker_outside \<Rightarrow> (process_state, exn, unit) prog" where
  "worker_setup st out =
     thenp (modifyp (\<lambda>w. w\<lparr>torch_threads := Some (worker_cpu_threads st, max 1 (worker_cpu_threads st div 2))\<rparr>))
    (thenp (for_each (\<lambda>dir. attempt (wo_mkdir out dir) (\<lambda>w. w\<lparr>directories := directories w @ [dir]\<rparr>))
        [audio_storage_dir st, song_stems_dir st, model_weights_dir st])
       (open_connections out))"

text \<open>\<open>load_settings\<close> raises when the profiles are not valid; nothing has been opened then.\<close>

definition worker_run :: "settings \<Rightarrow> worker_outside \<Rightarrow> process_state \<Rightarrow> ((exn + unit) \<times> process_state) option" where
  "worker_run st out w =
     (case parse_scoring_weights st of
        Inl e \<Rightarrow> Some (Inl (Crash ''ValidationError'' []), w)
      | Inr pw \<Rightarrow>
          (case worker_setup st out w of
             (Inl e, w1) \<Rightarrow> Some (Inl e, w1)
           | (Inr u, w1) \<Rightarrow>
               (case run_forever (worker_scheduler st pw out) w1 of
                  None \<Rightarrow> None
                | Some (x, w2) \<Rightarrow> Some (x, w2\<lparr>heartbeat_on := False, pg_open := False, redis_open := False\<rparr>))))"

section \<open>Lemmas\<close>

definition closed :: "process_state \<Rightarrow> bool" where
  "closed w \<longleftrightarrow> \<not> pg_open w \<and> \<not> redis_open w \<and> \<not> heartbeat_on w"

lemma keeps_attempt: "(\<And>w. I w \<Longrightarrow> I (f w)) \<Longrightarrow> keeps I (attempt failure f)"
  by (rule keepsI) (simp add: attempt_def split: option.split)

lemma open_connections_failed:
  assumes "open_connections out v = (Inl e, w)" and "closed v"
  shows "\<not> redis_open w \<and> \<not> heartbeat_on w \<and> (pg_open w \<longrightarrow> wo_ping out = Some e)"
  using assms
  by (cases "wo_connect out"; cases "wo_ping out")
    (auto simp: open_connections_def attempt_def thenp_def bindp_def closed_def)

lemma setup_failed:
  assumes "worker_setup st out w = (Inl e, w1)" and "closed w"
  shows "\<not> redis_open w1 \<and> \<not> heartbeat_on w1 \<and> (pg_open w1 \<longrightarrow> wo_ping out = Some e)"
proof -
  let ?dirs = "for_each (\<lambda>dir. attempt (wo_mkdir out dir) (\<lambda>w. w\<lparr>directories := directories w @ [dir]\<rparr>))
        [audio_storage_dir st, song_stems_dir st, model_weights_dir st]"
  let ?w = "w\<lparr>torch_threads := Some (worker_cpu_threads st, max 1 (worker_cpu_threads st div 2))\<rparr>"
  have dirs: "keeps closed ?dirs" by (intro keeps_for_each keeps_attempt) (simp add: closed_def)
  have "closed ?w" using assms(2) by (simp add: closed_def)
  obtain y v where d: "?dirs ?w = (y, v)" by fastforce
  have v: "closed v" by (rule keepsE [OF dirs \<open>closed ?w\<close> d])
  have "worker_setup st out w = (case y of Inl e \<Rightarrow> (Inl e, v) | Inr u \<Rightarrow> open_connections out v)"
    unfolding worker_setup_def thenp_def bindp_def modifyp_run prod.case sum.case d by simp
  then show ?thesis
    using assms(1) v open_connections_failed [of out v e w1] by (cases y) (auto simp: closed_def)
qed

lemma tick_one_message:
  assumes "\<And>w. \<not> stopping s w"
    and "read_next (analyses_stream s) (Some 1) w = (Inr [(stream_name, [(entry_id, fs)])], w1)"
    and "process_entry (analyses_stream s) entry_id fs (stopping s) w1 = m w2"
  shows "tick s w = bindp m (\<lambda>_. ret True) w2"
  using assms
  by (simp add: tick_def bindp_def process_first_def thenp_def split: prod.split sum.split)

section \<open>Properties\<close>

text \<open>
  C2: When nothing outside the assembled worker fails, and the analyses stream delivers a queued analysis of a
  prepared song whose recording the stages up to the alignment accept, one turn of the scheduler brings it
  to done: every aspect of its mode has a score and the analysis an overall score, all within 0 and 100, the
  progress chart has the overall score, and the last thing the turn does is the acknowledgement.
\<close>

theorem queued_analysis_scored:
  assumes "parse_scoring_weights st = Inr pw" and "nonnegative (pw (row_mode r))"
    and "libraries_ok (wo_lib out)" and "steady (wo_lib out)"
    and "quiet (wo_faults out)" and "all_finish (wo_fate out)" and "\<And>w. \<not> wo_stop out w"
    and "read_next (analyses_consumer st pw out) (Some 1) w0 = (Inr [(stream_name, [(entry_id, fs)])], w)"
    and "job_id_of fs = Some i" and "analysis_row_of i w = Some r" and "stages_of (row_stages_json r) = []"
    and "song_row_of (row_song_id r) w = Some s" and "prepared s"
  defines "c \<equiv> job_context (audio_storage_dir st) r s"
  assumes "disk_ready (wo_lib out) c" and "hop_seconds (reference_pitch c) \<noteq> 0"
    and "\<And>v. Some v \<in> set (hz (reference_pitch c)) \<Longrightarrow> 0 < v"
    and "in_order analysis_with_result (alignment_stages (wo_lib out) (row_mode r)) c = Inr ps"
  shows "\<exists>w' r' cols. tick (worker_scheduler st pw out) w0 =
      bindp (ack_and_remove (analyses_consumer st pw out) entry_id) (\<lambda>_. ret True) w' \<and>
    analysis_row_of i w' = Some r' \<and> row_status r' = ''done'' \<and> row_scoring r' = Some cols \<and>
    0 \<le> col_overall_score cols \<and> col_overall_score cols \<le> 100 \<and> charted i (col_overall_score cols) w' \<and>
    (\<forall>a \<in> set (MODE_ASPECTS (row_mode r)). \<exists>x. map_of (row_aspect_scores r') a = Some x \<and> 0 \<le> x \<and> x \<le> 100)"
proof -
  let ?cfg = "handler_config.truncate (worker_config st out)" and ?s = "worker_scheduler st pw out"
  have cfg: "quiet (cfg_faults ?cfg)" "all_finish (cfg_fate ?cfg)" "cfg_storage_dir ?cfg = audio_storage_dir st"
    using assms(5,6) by (simp_all add: handler_config.truncate_def worker_config_def)
  have run: "handler (analyses_consumer st pw out) = analysis_job_handler ?cfg (build_stages st (\<lambda>m. finite_weights (pw m)) (wo_lib out))"
    by (simp add: analyses_consumer_def weights_for_def [abs_def])
  have s: "analyses_stream ?s = analyses_consumer st pw out" "stopping ?s = wo_stop out"
    by (simp_all add: worker_scheduler_def)
  note job = analysis_job_done [where stop_now = "wo_stop out", OF assms(1-4) cfg(1,2) assms(7,10-13), unfolded cfg(3), folded c_def,
    OF assms(15,16) _ assms(18) run assms(9)]
  obtain w' r' cols where
    p: "process_entry (analyses_consumer st pw out) entry_id fs (wo_stop out) w = ack_and_remove (analyses_consumer st pw out) entry_id w'"
    and rest: "analysis_row_of i w' = Some r'" "row_status r' = ''done''" "row_scoring r' = Some cols"
      "0 \<le> col_overall_score cols" "col_overall_score cols \<le> 100" "charted i (col_overall_score cols) w'"
      "\<forall>a \<in> set (MODE_ASPECTS (row_mode r)). \<exists>x. map_of (row_aspect_scores r') a = Some x \<and> 0 \<le> x \<and> x \<le> 100"
    using job [where entry_id = entry_id] assms(17) by blast
  have "tick ?s w0 = bindp (ack_and_remove (analyses_consumer st pw out) entry_id) (\<lambda>_. ret True) w'"
    by (rule tick_one_message) (use assms(7,8) p in \<open>simp_all add: s\<close>)
  with rest show ?thesis by blast
qed

text \<open>
  However the worker ends, by a stop or by an exception of its loop, and whatever the jobs did in between,
  when \<open>run\<close> has returned the heartbeat has stopped and both connections are closed; the one
  exception is a Redis that does not answer at the start, which leaves the database connection open.
\<close>

theorem worker_shutdown:
  assumes "worker_run st out w = Some (x, w')" and "closed w"
  shows "\<not> heartbeat_on w' \<and> \<not> redis_open w' \<and> (pg_open w' \<longrightarrow> (\<exists>e. x = Inl e \<and> wo_ping out = Some e))"
proof (cases "parse_scoring_weights st")
  case (Inl e)
  then show ?thesis using assms by (auto simp: worker_run_def closed_def)
next
  case (Inr pw)
  obtain y w1 where s: "worker_setup st out w = (y, w1)" by fastforce
  show ?thesis
  proof (cases y)
    case (Inl e)
    then show ?thesis using assms(1) setup_failed [OF s [unfolded Inl] assms(2)] s Inr by (auto simp: worker_run_def)
  next
    case (Inr u)
    then show ?thesis using assms(1) s \<open>parse_scoring_weights st = Inr pw\<close> by (auto simp: worker_run_def split: option.splits)
  qed
qed

text \<open>A worker with a silent Redis that is told to stop at once.\<close>

definition silent_client :: "process_state redis_client" where
  "silent_client =
     \<lparr>xgroup_create = ret (), xreadgroup = \<lambda>_ _. ret [], xpending_own = \<lambda>_. ret [], xpending_idle = \<lambda>_ _. ret [],
      xrange = \<lambda>_. ret [], xclaim = \<lambda>_ _. ret [], xack = \<lambda>_. ret (), xdel = \<lambda>_. ret ()\<rparr>"

definition demo_outside :: worker_outside where
  "demo_outside =
     \<lparr>wo_faults = no_faults, wo_fate = \<lambda>_. Finishes, wo_f4 = \<lambda>x. x, wo_lib = demo_lib, wo_mkdir = \<lambda>_. None,
      wo_connect = None, wo_ping = None, wo_analyses_stream = silent_client, wo_songs_prep_stream = silent_client,
      wo_stop = \<lambda>_. True\<rparr>"

definition demo_process :: process_state where
  "demo_process = worker_state.extend demo_db
     \<lparr>directories = [], pg_open = False, redis_open = False, heartbeat_on = False, torch_threads = None\<rparr>"

definition busy_outside :: worker_outside where
  "busy_outside = demo_outside\<lparr>wo_stop := \<lambda>_. False,
     wo_analyses_stream := silent_client\<lparr>xreadgroup := \<lambda>_ _. ret [(''analyses:run'', [(''1-0'', [(''job_id'', ''a1'')])])]\<rparr>\<rparr>"

definition ready_process :: process_state where
  "ready_process = worker_state.extend demo_ready_db
     \<lparr>directories = [], pg_open = True, redis_open = True, heartbeat_on = True, torch_threads = None\<rparr>"

theorem queued_analysis_scored_witness:
  "\<exists>w' r' cols. tick (worker_scheduler demo_settings demo_profiles busy_outside) ready_process = (Inr True, w') \<and>
    analysis_row_of ''a1'' w' = Some r' \<and> row_status r' = ''done'' \<and> row_scoring r' = Some cols \<and>
    0 \<le> col_overall_score cols \<and> col_overall_score cols \<le> 100"
proof -
  let ?r = "demo_row ''a1'' ''queued'' 1" and ?st = demo_settings
  let ?c = "job_context (audio_storage_dir ?st) ?r demo_ready_song" and ?k = "analyses_consumer ?st demo_profiles busy_outside"
  have lib: "wo_lib busy_outside = demo_lib" by (simp add: busy_outside_def demo_outside_def)
  have outside: "quiet (wo_faults busy_outside)" "all_finish (wo_fate busy_outside)"
    by (simp_all add: busy_outside_def demo_outside_def quiet_def no_faults_def all_finish_def)
  have go: "\<not> wo_stop busy_outside w" for w by (simp add: busy_outside_def)
  have read: "read_next ?k (Some 1) ready_process = (Inr [(''analyses:run'', [(''1-0'', [(''job_id'', ''a1'')])])], ready_process)"
    by (simp add: read_next_def on_response_error_def handlep_def analyses_consumer_def busy_outside_def silent_client_def)
  have acks: "bindp (ack_and_remove ?k e) (\<lambda>_. ret True) v = (Inr True, v)" for e v
    by (simp add: ack_and_remove_def thenp_def bindp_def analyses_consumer_def busy_outside_def silent_client_def)
  have rows: "analysis_row_of ''a1'' ready_process = Some ?r" "song_row_of (row_song_id ?r) ready_process = Some demo_ready_song"
    using demo_ready_facts(1,3)
    by (simp_all add: analysis_row_of_def song_row_of_def ready_process_def worker_state.extend_def)
  have hz: "hz (reference_pitch ?c) = [Some 110]" unfolding demo_ready_facts(7) by simp
  obtain ps where ps: "in_order analysis_with_result (alignment_stages demo_lib (row_mode ?r)) ?c = Inr ps"
    using demo_alignment_returns [OF demo_ready_facts(8) hz] unfolding demo_ready_facts(6) by blast
  have hop: "hop_seconds (reference_pitch ?c) \<noteq> 0" and pos: "\<And>v. Some v \<in> set (hz (reference_pitch ?c)) \<Longrightarrow> 0 < v"
    unfolding demo_ready_facts(7) by (simp_all add: PITCH_HOP_SECONDS_def)
  show ?thesis
    using queued_analysis_scored [where out = busy_outside, unfolded lib, OF demo_profiles_parsed demo_profiles_nonnegative
        demo_lib_ok(2,1) outside go read demo_ready_facts(5) rows(1) demo_ready_facts(2) rows(2) demo_ready_facts(4)
        demo_lib_ok(3) hop pos ps]
    unfolding acks by blast
qed

lemma stopped_worker_returns:
  assumes "parse_scoring_weights st = Inr pw"
  shows "\<exists>w'. worker_run st demo_outside w = Some (Inr (), w')"
proof -
  let ?s = "worker_scheduler st pw demo_outside"
  have "startup ?s w = (Inr (), w)" for w
    by (simp add: startup_def ensure_group_def on_response_error_def reclaim_stuck_jobs_def thenp_def bindp_def handlep_def
        worker_scheduler_def analyses_consumer_def songs_prep_consumer_def demo_outside_def silent_client_def)
  moreover have "stopping ?s w" for w by (simp add: worker_scheduler_def demo_outside_def)
  then have "main_loop ?s w = Some (Inr (), w)" for w by (subst main_loop.simps) simp
  ultimately have loop: "run_forever ?s w = Some (Inr (), w)" for w by (simp add: run_forever_def)
  have outside: "wo_connect demo_outside = None" "wo_ping demo_outside = None" "wo_mkdir demo_outside dir = None" for dir
    by (simp_all add: demo_outside_def)
  then show ?thesis
    by (auto simp: worker_run_def assms loop worker_setup_def open_connections_def thenp_def bindp_def attempt_def)
qed

lemma demo_process_closed: "closed demo_process"
  by (simp add: closed_def demo_process_def worker_state.extend_def demo_db_def)

theorem worker_shutdown_witness:
  "\<exists>w'. worker_run demo_settings demo_outside demo_process = Some (Inr (), w') \<and>
    \<not> heartbeat_on w' \<and> \<not> redis_open w' \<and> \<not> pg_open w'"
  using stopped_worker_returns [OF demo_profiles_parsed] worker_shutdown [OF _ demo_process_closed] by blast

end
