(* ===== verification/Interrupted.thy ===== *)
theory Interrupted
  imports Sequential
begin

text \<open>
  The runner of \<open>pipeline/runner.py\<close> when things go wrong: children may hang, die or not start, the
  progress reports and the events may fail, and a stop may be asked for. The lemmas show that, however a
  run ends, the results it has stored are still the first ones of the sequential specification, with the
  very values that an undisturbed run stores, so that a later run can continue from them.
\<close>

section \<open>The values of the results\<close>

lemma gives_isolated:
  assumes "deterministic s" and "required s" and "settled s (isolated s c) = Inr r"
  shows "gives_only (\<lambda>q. q = r) s c"
proof -
  have "q = r" if "stage_run s pid env c = Inr q" for pid env q
  proof -
    have "stage_run s 0 Map.empty c = Inr q" using that assms(1) unfolding deterministic_def by metis
    then have "isolated s c = Inr q" by (simp add: isolated_def stage_worker_def unpickle_def)
    with assms(3) show ?thesis by (simp add: settled_def)
  qed
  then show ?thesis using assms(2) by (simp add: gives_only_def)
qed

lemma run_entry_values:
  assumes "run_entry_with_retries fate e c w = (Inr results, w')" and "in_order wr (members e) c = Inr ps"
    and "\<forall>s \<in> set (members e). deterministic s \<and> names_own_result s \<and> required s"
    and "(\<exists>s. e = Single s) \<or> independent wr e" and "distinct (map stage_name (members e))"
  shows "list_all2 (\<lambda>s r. results (stage_name s) = Some r) (members e) ps"
proof -
  obtain R where R: "\<forall>s \<in> set (members e). settled s (isolated s c) = Inr (R s)" "ps = map R (members e)"
    using entry_results [OF assms(2) _ assms(4,5)] assms(3) by blast
  define Q where "Q n r \<longleftrightarrow> (\<forall>s \<in> set (members e). stage_name s = n \<longrightarrow> r = R s)" for n r
  have "gives_only (Q (stage_name s)) s c" if s: "s \<in> set (members e)" for s
  proof -
    have "t = s" if "t \<in> set (members e)" "stage_name t = stage_name s" for t
      using inj_onD [OF conjunct2 [OF assms(5) [unfolded distinct_map]] that(2,1) s] .
    then have "Q (stage_name s) = (\<lambda>q. q = R s)" using s by (auto simp: Q_def fun_eq_iff)
    then show ?thesis using gives_isolated R(1) assms(3) s by metis
  qed
  then have "results (stage_name s) = Some (R s)" if "s \<in> set (members e)" for s
    using run_entry_gives [of e Q c fate w results w', OF _ assms(1) that] that by (auto simp: Q_def)
  then show ?thesis by (auto simp: R(2) list_all2_conv_all_nth)
qed

lemma in_order_length: "in_order wr ss c = Inr rs \<Longrightarrow> length rs = length ss"
  by (induction ss arbitrary: c rs) (auto split: sum.splits)

text \<open>From the results of a prefix, the remaining stages compute the remaining results.\<close>

lemma in_order_drop:
  assumes "in_order wr ss c = Inr rs"
  shows "in_order wr (drop k ss) (fold (\<lambda>r c. wr c r) (take k rs) c) = Inr (drop k rs)"
proof -
  obtain ps qs where p: "rs = ps @ qs" "in_order wr (take k ss) c = Inr ps"
    "in_order wr (drop k ss) (fold (\<lambda>r c. wr c r) ps c) = Inr qs"
    using in_order_append [of wr "take k ss" "drop k ss" c rs] assms by auto
  have "length rs = length ss" "length ps = min (length ss) k"
    using in_order_length [OF assms] in_order_length [OF p(2)] by auto
  then have "take k rs = ps \<and> drop k rs = qs" using p(1) by (cases "k \<le> length ss") auto
  with p(3) show ?thesis by simp
qed

section \<open>A store that grows by the next result\<close>

text \<open>
  What the client of a run stores of the results \<open>target\<close>: in a state with \<open>holds k\<close>, the first \<open>k\<close>. A save of
  the next one either succeeds and stores it, or fails and changes nothing; nothing else changes what is stored.
\<close>

locale result_store =
  fixes ports :: "('z os_state_scheme) run_ports"
    and holds :: "nat \<Rightarrow> 'z os_state_scheme \<Rightarrow> bool"
    and target :: "stage_result list"
  assumes publish_keeps: "keeps (holds k) (publish_stage ports job n i t)"
    and mark_keeps: "keeps (holds k) (mark_processing ports n i t)"
    and stop_keeps: "keeps (holds k) (should_stop ports)"
    and os_keeps: "holds k w \<Longrightarrow> holds k (w\<lparr>spawned := cs, slept := zs\<rparr>)"
    and save_next: "holds k w \<Longrightarrow> k < length target \<Longrightarrow>
      (case save_stage_progress ports (target ! k) nxt j t w of (Inl e, w') \<Rightarrow> holds k w' | (Inr u, w') \<Rightarrow> holds (Suc k) w')"
begin

lemma spawned_keeps: "holds k w \<Longrightarrow> holds k (w\<lparr>spawned := cs\<rparr>)"
  using os_keeps [of k w "slept w" cs] by simp

text \<open>From \<open>holds k\<close> the program ends in some \<open>holds k'\<close> with no less stored, and its value, if it returns one, is related to \<open>k'\<close>.\<close>

definition advances :: "nat \<Rightarrow> ('z os_state_scheme, exn, 'a) prog \<Rightarrow> ('a \<Rightarrow> nat \<Rightarrow> bool) \<Rightarrow> bool" where
  "advances k m R \<longleftrightarrow>
     (\<forall>w. holds k w \<longrightarrow>
        (\<exists>k' \<ge> k. k' \<le> length target \<and> holds k' (snd (m w)) \<and> (\<forall>a. fst (m w) = Inr a \<longrightarrow> R a k')))"

lemma advancesE:
  assumes "advances k m R" and "holds k w" and "m w = (x, w')"
  obtains k' where "k \<le> k'" "k' \<le> length target" "holds k' w'" "\<And>a. x = Inr a \<Longrightarrow> R a k'"
  using assms unfolding advances_def by fastforce

lemma advances_keeps: "k \<le> length target \<Longrightarrow> keeps (holds k) m \<Longrightarrow> advances k m (\<lambda>_ k'. k' = k)"
  by (auto simp: advances_def keeps_def)

lemma advances_ret: "k \<le> length target \<Longrightarrow> R a k \<Longrightarrow> advances k (ret a) R"
  by (auto simp: advances_def)

lemma advances_bindp:
  assumes "advances k m R" and "\<And>a k' w w'. R a k' \<Longrightarrow> m w = (Inr a, w') \<Longrightarrow> advances k' (f a) Q"
  shows "advances k (bindp m f) Q"
  unfolding advances_def
proof (intro allI impI)
  fix w assume w: "holds k w"
  obtain x w1 where m: "m w = (x, w1)" by fastforce
  obtain k' where k': "k \<le> k'" "k' \<le> length target" "holds k' w1" "\<And>a. x = Inr a \<Longrightarrow> R a k'"
    using advancesE [OF assms(1) w m] by blast
  show "\<exists>k' \<ge> k. k' \<le> length target \<and> holds k' (snd (bindp m f w)) \<and> (\<forall>a. fst (bindp m f w) = Inr a \<longrightarrow> Q a k')"
  proof (cases x)
    case (Inl e)
    then show ?thesis using k' m by (auto simp: bindp_Inl)
  next
    case (Inr a)
    then have "advances k' (f a) Q" using assms(2) k'(4) m by blast
    then have "\<exists>j \<ge> k'. j \<le> length target \<and> holds j (snd (f a w1)) \<and> (\<forall>b. fst (f a w1) = Inr b \<longrightarrow> Q b j)"
      using k'(3) by (simp add: advances_def)
    then show ?thesis using k'(1) m Inr by (auto simp: bindp_Inr intro: order_trans)
  qed
qed

lemma advances_thenp: "advances k m (\<lambda>_ k'. k' = j) \<Longrightarrow> advances j n Q \<Longrightarrow> advances k (thenp m n) Q"
  unfolding thenp_def by (erule advances_bindp) simp

lemma advances_lookup: "k \<le> length target \<Longrightarrow> advances k (lookup d x) (\<lambda>a k'. k' = k \<and> d x = Some a)"
  by (auto simp: advances_def lookup_def split: option.splits)

lemma advances_save:
  "k < length target \<Longrightarrow> advances k (save_stage_progress ports (target ! k) n i t) (\<lambda>_ k'. k' = Suc k)"
  unfolding advances_def
proof (intro allI impI)
  fix w assume k: "k < length target" and w: "holds k w"
  obtain x w' where m: "save_stage_progress ports (target ! k) n i t w = (x, w')" by fastforce
  have "case (x, w') of (Inl e, w') \<Rightarrow> holds k w' | (Inr u, w') \<Rightarrow> holds (Suc k) w'"
    using save_next [OF w k, of n i t] by (simp add: m)
  then show "\<exists>k' \<ge> k. k' \<le> length target \<and> holds k' (snd (save_stage_progress ports (target ! k) n i t w)) \<and>
      (\<forall>a. fst (save_stage_progress ports (target ! k) n i t w) = Inr a \<longrightarrow> k' = Suc k)"
    using k by (cases x) (auto simp: m)
qed

lemma advances_save_members:
  assumes "list_all2 (\<lambda>s r. results (stage_name s) = Some r) ss (take (length ss) (drop k target))"
    and "k \<le> length target"
  shows "advances k (save_members wr ports positions n flat results ss c p)
    (\<lambda>(c', p') k'. k' = k + length ss \<and> c' = fold (\<lambda>r c. wr c r) (take (length ss) (drop k target)) c)"
  using assms
proof (induction ss arbitrary: k c p)
  case (Cons s ss)
  then have k: "k < length target" by (cases "k < length target") auto
  then have drop: "drop k target = target ! k # drop (Suc k) target" by (rule Cons_nth_drop_Suc [symmetric])
  have s: "results (stage_name s) = Some (target ! k)" using Cons.prems(1) by (simp add: drop)
  have rest: "list_all2 (\<lambda>s r. results (stage_name s) = Some r) ss (take (length ss) (drop (Suc k) target))"
    using Cons.prems(1) by (simp add: drop)
  define nxt where "nxt = (if Suc p < length flat then Some (stage_name (flat ! Suc p)) else None)"
  define idx :: "('z os_state_scheme, exn, nat option) prog" where
    "idx = (case nxt of None \<Rightarrow> ret None | Some m \<Rightarrow> bindp (lookup positions m) (\<lambda>i. ret (Some i)))"
  have step: "save_members wr ports positions n flat results (s # ss) c p =
      bindp idx (\<lambda>i. thenp (save_stage_progress ports (target ! k) nxt i n)
        (save_members wr ports positions n flat results ss (wr c (target ! k)) (Suc p)))"
    by (rule ext) (simp add: s lookup_def bindp_def Let_def nxt_def idx_def)
  have "keeps (holds k) idx" unfolding idx_def by (intro keeps_rules)
  then have "advances k idx (\<lambda>_ k'. k' = k)" using k by (simp add: advances_keeps)
  moreover have "advances k (thenp (save_stage_progress ports (target ! k) nxt i n)
      (save_members wr ports positions n flat results ss (wr c (target ! k)) (Suc p)))
      (\<lambda>(c', p') k'. k' = Suc k + length ss \<and> c' = fold (\<lambda>r c. wr c r) (take (length ss) (drop (Suc k) target)) (wr c (target ! k)))" for i
    using advances_thenp [OF advances_save [OF k] Cons.IH [OF rest]] k by simp
  ultimately have "advances k (bindp idx (\<lambda>i. thenp (save_stage_progress ports (target ! k) nxt i n)
        (save_members wr ports positions n flat results ss (wr c (target ! k)) (Suc p))))
      (\<lambda>(c', p') k'. k' = Suc k + length ss \<and> c' = fold (\<lambda>r c. wr c r) (take (length ss) (drop (Suc k) target)) (wr c (target ! k)))"
    by (auto intro: advances_bindp)
  then show ?case unfolding step by (simp add: drop)
qed (auto simp: advances_ret)

text \<open>Entries: each saves what its members compute from the results stored before it.\<close>

lemma advances_run_entries:
  assumes "in_order wr (flatten es) c = Inr (drop k target)" and "k \<le> length target"
    and "parallel_safe wr es" and "\<forall>s \<in> set (flatten es). required s"
  shows "advances k (run_entries wr fate ports job positions n flat es c p) (\<lambda>outcome k'. outcome = COMPLETED \<longrightarrow> k' = length target)"
  using assms
proof (induction es arbitrary: c k p)
  case Nil
  then show ?case unfolding run_entries.simps by (intro advances_ret) simp_all
next
  case (Cons e es)
  let ?m = "length (members e)"
  obtain ps qs where rs: "drop k target = ps @ qs" "in_order wr (members e) c = Inr ps"
    "in_order wr (flatten es) (fold (\<lambda>r c. wr c r) ps c) = Inr qs"
    using in_order_append [of wr "members e" "flatten es" c] Cons.prems(1) by (auto simp: flatten_Cons_members simp del: flatten.simps)
  have len: "length ps = ?m" using in_order_length [OF rs(2)] .
  have "drop ?m (drop k target) = qs" by (simp add: rs(1) len [symmetric])
  then have drop: "drop (k + ?m) target = qs" by (simp add: add.commute)
  have "length target - k = ?m + length qs" using arg_cong [OF rs(1), of length] len by simp
  then have bound: "k + ?m \<le> length target" using Cons.prems(2) by linarith
  have take: "take ?m (drop k target) = ps" by (simp add: rs(1) len [symmetric])
  note k = take drop bound
  have e: "\<forall>s \<in> set (members e). deterministic s \<and> names_own_result s \<and> required s" "distinct (map stage_name (members e))"
      "(\<exists>s. e = Single s) \<or> independent wr e" and es: "parallel_safe wr es" "\<forall>s \<in> set (flatten es). required s"
    using Cons.prems(3,4) by (auto simp: parallel_safe_def flatten_Cons_members simp del: flatten.simps)
  have entry: "advances k (run_entry_with_retries fate e c) (\<lambda>_ k'. k' = k)"
    by (rule advances_keeps [OF Cons.prems(2)], rule keeps_entry_run)
      (simp_all add: os_keeps spawned_keeps)
  have publish: "advances k (for_each (\<lambda>s. bindp (lookup positions (stage_name s)) (\<lambda>i.
      publish_stage ports job (stage_name s) i n)) (members e)) (\<lambda>_ k'. k' = k)"
    by (rule advances_keeps [OF Cons.prems(2)], intro keeps_rules publish_keeps)
  have rest: "advances k (bindp (save_members wr ports positions n flat results (members e) c p) (\<lambda>(c', p').
      run_entries wr fate ports job positions n flat es c' p')) (\<lambda>outcome k'. outcome = COMPLETED \<longrightarrow> k' = length target)"
    if "run_entry_with_retries fate e c w = (Inr results, w')" for results w w'
  proof (rule advances_bindp)
    show "advances k (save_members wr ports positions n flat results (members e) c p)
      (\<lambda>(c', p') k'. k' = k + ?m \<and> c' = fold (\<lambda>r c. wr c r) ps c)"
      using advances_save_members [of results "members e" k wr positions n flat c p, unfolded k(1), OF _ Cons.prems(2)]
        run_entry_values [OF that rs(2) e(1,3,2)] by blast
  next
    fix a :: "_ \<times> nat" and k' assume "(\<lambda>(c', p') k'. k' = k + ?m \<and> c' = fold (\<lambda>r c. wr c r) ps c) a k'"
    then show "advances k' (case a of (c', p') \<Rightarrow> run_entries wr fate ports job positions n flat es c' p')
        (\<lambda>outcome k'. outcome = COMPLETED \<longrightarrow> k' = length target)"
      using Cons.IH [OF _ k(3) es, of "fold (\<lambda>r c. wr c r) ps c"] rs(3) k(2) by (auto split: prod.split)
  qed
  show ?case
    unfolding run_entries.simps
  proof (rule advances_bindp [OF advances_keeps [OF Cons.prems(2) stop_keeps]])
    fix stop k' assume "k' = k"
    show "advances k' (if stop then ret INTERRUPTED else thenp (for_each (\<lambda>s. bindp (lookup positions (stage_name s)) (\<lambda>i.
          publish_stage ports job (stage_name s) i n)) (members e))
        (bindp (run_entry_with_retries fate e c) (\<lambda>results. bindp (save_members wr ports positions n flat results (members e) c p)
          (\<lambda>(c', p'). run_entries wr fate ports job positions n flat es c' p')))) (\<lambda>outcome k'. outcome = COMPLETED \<longrightarrow> k' = length target)"
    proof (cases stop)
      case True
      have "advances k (ret INTERRUPTED) (\<lambda>outcome k'. outcome = COMPLETED \<longrightarrow> k' = length target)"
        by (rule advances_ret [OF Cons.prems(2)]) simp
      with True \<open>k' = k\<close> show ?thesis by (simp only: if_True)
    next
      case False
      have "advances k (bindp (run_entry_with_retries fate e c) (\<lambda>results.
          bindp (save_members wr ports positions n flat results (members e) c p) (\<lambda>(c', p').
            run_entries wr fate ports job positions n flat es c' p'))) (\<lambda>outcome k'. outcome = COMPLETED \<longrightarrow> k' = length target)"
        by (rule advances_bindp [OF entry]) (use rest in blast)
      from advances_thenp [OF publish this] False \<open>k' = k\<close> show ?thesis by (simp only: if_False)
    qed
  qed
qed

text \<open>The run from the first \<open>k\<close> results.\<close>

lemma advances_run:
  assumes "in_order wr (flatten (remaining_entries (stages_for_mode stages mode) ad)) (fold (\<lambda>r c. wr c r) (map snd ad) ctx) = Inr (drop k target)"
    and "k \<le> length target" and "parallel_safe wr (stages_for_mode stages mode)"
    and "\<forall>s \<in> set (flatten (stages_for_mode stages mode)). required s"
  shows "advances k (run wr fate stages ports job ctx ad mode) (\<lambda>outcome k'. outcome = COMPLETED \<longrightarrow> k' = length target)"
proof -
  let ?todo = "flatten (remaining_entries (stages_for_mode stages mode) ad)"
  have mark: "advances k (case ?todo of [] \<Rightarrow> ret () | first # _ \<Rightarrow>
      bindp (lookup ps (stage_name first)) (\<lambda>i. mark_processing ports (stage_name first) i n)) (\<lambda>_ k'. k' = k)" for ps n
    by (rule advances_keeps [OF assms(2)]) (intro keeps_rules mark_keeps)
  have "\<forall>s \<in> set ?todo. required s" using assms(4) by (simp add: flatten_remaining)
  then show ?thesis
    unfolding run_def Let_def
    by (intro advances_thenp [OF mark] advances_run_entries assms(1,2) parallel_safe_remaining [OF assms(3)])
qed

end

end
