(* ===== verification/Recovery.thy ===== *)
theory Recovery
  imports JobRun Interrupted
begin

text \<open>
  An analysis whose attempts go wrong: children that hang, die or do not start, statements of the database and
  calls of Redis that fail (a worker that is killed is one whose remaining calls all fail), stop requests. The
  lemmas show that whatever the attempts of \<open>queue/handler.py\<close> have left in the database, the stored results
  are the first ones of the sequential specification, and that an undisturbed attempt completes them: the
  analysis ends as done with the scores it would have had without the disturbances.
\<close>

section \<open>The row of the analysis\<close>

text \<open>What the worker never changes in a row; the context of the job is made of it.\<close>

definition identity :: "analysis_row \<Rightarrow> string \<times> string \<times> string \<times> mode \<times> bool \<times> locale_tag" where
  "identity r = (row_id r, row_user_id r, row_song_id r, row_mode r, row_allow_transposition r, row_locale r)"

definition keyed :: "stage_result list \<Rightarrow> (string \<times> stage_result) list" where
  "keyed rs = map (\<lambda>r. (stage r, r)) rs"

text \<open>The analysis \<open>i\<close> has the identity of \<open>r0\<close> and stored results with \<open>P\<close>, and the songs are \<open>S\<close>.\<close>

definition has_results :: "string \<Rightarrow> analysis_row \<Rightarrow> song_row list \<Rightarrow> ((string \<times> stage_result) list \<Rightarrow> bool) \<Rightarrow>
    'z worker_state_scheme \<Rightarrow> bool" where
  "has_results i r0 S P w \<longleftrightarrow>
     row_is i (\<lambda>r. identity r = identity r0 \<and> P (stages_of (row_stages_json r))) w \<and> songs w = S"

lemma has_results_frame [simp]:
  "has_results i r0 S P (w\<lparr>transactions := n\<rparr>) = has_results i r0 S P w" "has_results i r0 S P (w\<lparr>redis_calls := n\<rparr>) = has_results i r0 S P w"
  "has_results i r0 S P (w\<lparr>published := xs\<rparr>) = has_results i r0 S P w" "has_results i r0 S P (w\<lparr>removed := rs\<rparr>) = has_results i r0 S P w"
  "has_results i r0 S P (w\<lparr>snapshots := ss\<rparr>) = has_results i r0 S P w" "has_results i r0 S P (w\<lparr>spawned := cs\<rparr>) = has_results i r0 S P w"
  "has_results i r0 S P (w\<lparr>spawned := cs, slept := zs\<rparr>) = has_results i r0 S P w"
  by (simp_all add: has_results_def row_is_def analysis_row_of_def)

lemma has_results_weaken: "has_results i r0 S P w \<Longrightarrow> (\<And>J. P J \<Longrightarrow> Q J) \<Longrightarrow> has_results i r0 S Q w"
  by (auto simp: has_results_def row_is_def)

lemma has_results_update:
  assumes "has_results i r0 S P w" and "\<And>r. identity (f r) = identity r"
    and "\<And>r. P (stages_of (row_stages_json r)) \<Longrightarrow> Q (stages_of (row_stages_json (f r)))"
  shows "has_results i r0 S Q (w\<lparr>analyses := map (\<lambda>r. if row_id r = i then f r else r) (analyses w)\<rparr>)"
proof -
  have "row_id (f r) = row_id r" for r using assms(2) [of r] by (simp add: identity_def)
  then show ?thesis using assms by (auto simp: has_results_def row_is_def analysis_row_of_def find_update)
qed

lemma keeps_results_update:
  assumes "\<And>r. identity (f r) = identity r" and "\<And>r. P (stages_of (row_stages_json r)) \<Longrightarrow> P (stages_of (row_stages_json (f r)))"
  shows "keeps (has_results i r0 S P) (update_analysis fl i f)"
  by (intro keeps_rules) (simp_all add: has_results_update assms)

lemma keeps_results_publish: "keeps (has_results i r0 S P) (publish fl payload)"
  by (intro keeps_rules) simp_all

interpretation analysis_store: result_store "analysis_ports fl stopping i"
  "\<lambda>k w. distinct (map stage target) \<and> has_results i r0 S (\<lambda>J. J = keyed (take k target)) w" target
  for fl stopping i r0 S target
proof unfold_locales
  fix w :: "'a worker_state_scheme" and k nxt j t
  let ?J = "\<lambda>k J. J = keyed (take k target)"
  let ?f = "\<lambda>r. r\<lparr>row_stages_json := merge_stage (row_stages_json r) (target ! k), row_current_stage := nxt,
       row_current_stage_index := j, row_total_stages := Some t\<rparr>"
  assume w: "distinct (map stage target) \<and> has_results i r0 S (?J k) w" and k: "k < length target"
  have "stage (target ! k) \<notin> stage ` set (take k target)"
    using w k by (auto simp: distinct_conv_nth in_set_conv_nth)
  then have "set_key (stage (target ! k)) (target ! k) (keyed (take k target)) = keyed (take (Suc k) target)"
    using k by (simp add: set_key_new keyed_def image_image take_Suc_conv_app_nth)
  then have grow: "stages_of (row_stages_json r) = keyed (take k target) \<Longrightarrow>
      stages_of (row_stages_json (?f r)) = keyed (take (Suc k) target)" for r
    by (cases "row_stages_json r") (simp_all add: merge_stage_def stages_of_def)
  let ?w = "w\<lparr>transactions := transactions w + 1\<rparr>"
  have "has_results i r0 S (?J k) ?w" using w by simp
  then have "has_results i r0 S (?J (Suc k)) (?w\<lparr>analyses := map (\<lambda>r. if row_id r = i then ?f r else r) (analyses ?w)\<rparr>)"
    by (rule has_results_update) (use grow in \<open>simp_all add: identity_def\<close>)
  then show "case save_stage_progress (analysis_ports fl stopping i) (target ! k) nxt j t w of
      (Inl e, w') \<Rightarrow> distinct (map stage target) \<and> has_results i r0 S (?J k) w'
    | (Inr u, w') \<Rightarrow> distinct (map stage target) \<and> has_results i r0 S (?J (Suc k)) w'"
    using w by (simp add: analysis_ports_def analysis_save_stage_progress_def update_analysis_eq Let_def)
next
  fix job n k j t and fl and stopping :: "'a worker_state_scheme \<Rightarrow> bool"
  let ?H = "\<lambda>w. distinct (map stage target) \<and> has_results i r0 S (\<lambda>J. J = keyed (take k target)) w"
  show "keeps ?H (publish_stage (analysis_ports fl stopping i) job n j t)"
    by (simp add: analysis_ports_def event_stage_def) (intro keeps_rules; simp)
  show "keeps ?H (mark_processing (analysis_ports fl stopping i) n j t)"
    unfolding analysis_ports_def analysis_mark_processing_def run_ports.simps
    by (intro keeps_rules) (auto simp: identity_def intro!: has_results_update [where P = "\<lambda>J. J = keyed (take k target)"])
  show "keeps ?H (should_stop (analysis_ports fl stopping i))"
    by (simp add: analysis_ports_def keeps_def)
qed simp

section \<open>One attempt\<close>

text \<open>
  The results that the stages \<open>es\<close> compute one after the other on the context \<open>c\<close>, and what the row may hold
  of them: the first ones, or all of them after the dense fields of the pitch result were pruned.
\<close>

definition computes :: "analysis_context entry list \<Rightarrow> analysis_context \<Rightarrow> stage_result list \<Rightarrow> bool" where
  "computes es c target \<longleftrightarrow>
     (let active = stages_for_mode es (Some (context_mode c))
      in in_order analysis_with_result (flatten active) c = Inr target \<and>
         parallel_safe analysis_with_result active \<and> (\<forall>s \<in> set (flatten active). required s))"

definition pruned :: "stage_result \<Rightarrow> stage_result" where
  "pruned r = snd (prune_pitch (stage r, r))"

definition completed_by :: "stage_result list \<Rightarrow> (string \<times> stage_result) list \<Rightarrow> bool" where
  "completed_by target J \<longleftrightarrow> J = keyed target \<or> J = keyed (map pruned target)"

definition on_course :: "stage_result list \<Rightarrow> (string \<times> stage_result) list \<Rightarrow> bool" where
  "on_course target J \<longleftrightarrow> completed_by target J \<or> (\<exists>k \<le> length target. J = keyed (take k target))"

lemma stage_pruned [simp]: "stage (pruned r) = stage r"
  by (simp add: pruned_def prune_pitch_def)

lemma pruned_twice [simp]: "pruned (pruned r) = pruned r"
  by (simp add: pruned_def prune_pitch_def comp_def)

lemma prune_keyed: "map prune_pitch (keyed rs) = keyed (map pruned rs)"
  by (auto simp: keyed_def pruned_def prune_pitch_def)

lemma completed_by_prune: "completed_by target J \<Longrightarrow> completed_by target (map prune_pitch J)"
  by (auto simp: completed_by_def prune_keyed comp_def)

lemma keyed_simps [simp]: "map snd (keyed rs) = rs" "fst ` set (keyed rs) = stage ` set rs"
  by (simp_all add: keyed_def comp_def image_image)

lemma computed_names:
  assumes "computes es c target"
  shows "map stage target = map stage_name (flatten (stages_for_mode es (Some (context_mode c))))"
    and "distinct (map stage target)"
  using assms in_order_recorded [of "flatten (stages_for_mode es (Some (context_mode c)))" c target]
  by (auto simp: computes_def Let_def parallel_safe_def)

text \<open>What remains to run, and what it computes, with the first \<open>k\<close> results stored or with all pruned.\<close>

lemma remaining_computes:
  assumes "computes es c target" and "J = keyed (take k target) \<and> rs = target \<or> J = keyed (map pruned target) \<and> rs = map pruned target \<and> k = length target"
    and "k \<le> length target"
  defines "todo \<equiv> flatten (remaining_entries (stages_for_mode es (Some (context_mode c))) J)"
  shows "todo = drop k (flatten (stages_for_mode es (Some (context_mode c))))"
    and "in_order analysis_with_result todo (fold (\<lambda>r c. analysis_with_result c r) (map snd J) c) = Inr (drop k rs)"
    and "length rs = length target" and "map stage rs = map stage target" and "J = keyed (take k rs)"
proof -
  let ?ss = "flatten (stages_for_mode es (Some (context_mode c)))"
  note names = computed_names [OF assms(1)]
  show len: "length rs = length target" and stages: "map stage rs = map stage target" and J: "J = keyed (take k rs)"
    using assms(2) by (auto simp: comp_def)
  have "fst ` set J = stage_name ` set (take k ?ss)"
    using stages names(1) unfolding J keyed_simps by (metis image_set take_map)
  moreover have "distinct (map stage_name ?ss)" using names by simp
  ultimately show todo: "todo = drop k ?ss" by (simp add: todo_def flatten_remaining filter_drop_prefix)
  have "in_order analysis_with_result ?ss c = Inr target" using assms(1) by (simp add: computes_def Let_def)
  from in_order_drop [OF this, of k] in_order_length [OF this] assms(2)
  show "in_order analysis_with_result todo (fold (\<lambda>r c. analysis_with_result c r) (map snd J) c) = Inr (drop k rs)"
    unfolding todo by auto
qed

text \<open>A run from there, whatever fails.\<close>

lemma run_on_course:
  assumes "computes es c target" and "has_results i r0 S (\<lambda>J'. J' = J) w" and "on_course target J" and "ar_stages a = J"
    and "analysis_run cfg es stopping a c i w = (x, w')"
  shows "has_results i r0 S (on_course target) w' \<and> (x = Inr COMPLETED \<longrightarrow> has_results i r0 S (completed_by target) w')"
proof -
  obtain k rs where k: "k \<le> length target"
    "J = keyed (take k target) \<and> rs = target \<or> J = keyed (map pruned target) \<and> rs = map pruned target \<and> k = length target"
    using assms(3) take_all [OF order_refl, of target] unfolding on_course_def completed_by_def by (metis order_refl)
  note r = remaining_computes [OF assms(1) k(2,1)]
  let ?P = "\<lambda>k J. J = keyed (take k rs)"
  have distinct: "distinct (map stage rs)" using r(4) computed_names(2) [OF assms(1)] by simp
  have safe: "parallel_safe analysis_with_result (stages_for_mode es (Some (context_mode c)))"
      "\<forall>s \<in> set (flatten (stages_for_mode es (Some (context_mode c)))). required s"
    using assms(1) by (simp_all add: computes_def Let_def)
  have start: "distinct (map stage rs) \<and> has_results i r0 S (?P k) w" using assms(2) distinct r(5) by simp
  have bound: "k \<le> length rs" using k(1) r(3) by simp
  note adv = analysis_store.advances_run [where target = rs, OF r(2) bound safe]
  obtain k' where k': "k \<le> k'" "k' \<le> length rs" "has_results i r0 S (?P k') w'" "x = Inr COMPLETED \<Longrightarrow> k' = length rs"
    by (rule analysis_store.advancesE [OF adv start assms(5) [unfolded analysis_run_def assms(4)]]) simp
  have "on_course target (keyed (take k' rs))" 
    using k k'(1,2) r(3) unfolding on_course_def completed_by_def by (elim disjE conjE) (simp_all, blast)
  moreover have "completed_by target (keyed rs)" using k(2) by (auto simp: completed_by_def)
  ultimately show ?thesis using k'(3,4) by (auto elim!: has_results_weaken)
qed

section \<open>The handler around the run\<close>

lemma keeps_persist_results: "keeps (has_results i r0 S P) (persist_scores fl f4 i)"
proof -
  have up: "keeps (has_results i r0 S P) (update_analysis fl i f)"
    if "\<And>r. identity (f r) = identity r" "\<And>r. row_stages_json (f r) = row_stages_json r" for f
    by (rule keeps_results_update) (simp_all add: that)
  have snap: "keeps (has_results i r0 S P) (record_progress_snapshot fl i user x m conf)" for user x m conf
    by (intro keeps_rules) simp_all
  have get: "keeps (has_results i r0 S P) (analysis_get_by_id fl i)"
    by (intro keeps_rules) simp
  show ?thesis
    unfolding persist_scores_def save_one_score_def save_dense_fields_def save_aspect_score_def save_piano_roll_def
      save_user_pitch_curve_def save_scoring_result_def
    by (intro keeps_bindp keeps_thenp keeps_option keeps_for_each keeps_ret keeps_liftp keeps_if keeps_throw get up snap;
        simp add: identity_def)
qed

lemma keeps_cleanup_results: "keeps (has_results i r0 S P) (thenp (cleanup c a b) (ret x))"
  by (rule keepsI) (simp add: thenp_def bindp_def cleanup_eq)

lemma keeps_finish_results:
  assumes "\<And>J. P J \<Longrightarrow> P (map prune_pitch J)"
  shows "keeps (has_results i r0 S P) (finish_analysis cfg i c)"
  unfolding finish_analysis_def prune_dense_stage_fields_def analysis_mark_done_def event_done_def
  by (intro keeps_thenp keeps_persist_results keeps_results_update keeps_results_publish keeps_cleanup_results)
    (simp_all add: identity_def stages_of_map assms)

lemma keeps_fail_results: "keeps (has_results i r0 S P) (fail_analysis cfg i c e)"
  unfolding fail_analysis_def analysis_mark_failed_def event_failed_def
  by (intro keeps_thenp keeps_results_update keeps_results_publish keeps_cleanup_results) (simp_all add: identity_def)

lemma job_context_identity: "identity r = identity r0 \<Longrightarrow> job_context dir r s = job_context dir r0 s"
  by (simp add: identity_def job_context_def)

text \<open>The context of the job is the same at every attempt.\<close>

lemma build_context_is:
  assumes "build_analysis_context fl dir (row_to_analysis_record r) w = (Inr c, w')"
    and "song_row_of (row_song_id r) w = Some s" and "prepared s"
  shows "c = job_context dir r s"
  using assms
  by (auto simp: build_analysis_context_def song_get_by_id_def transact_def bindp_def Let_def song_row_of_def
      row_to_analysis_record_def row_to_song_record_def job_context_def prepared_def split: if_splits)

lemma attempt_on_course:
  assumes "computes es (job_context (cfg_storage_dir cfg) r0 s) target"
    and "find (\<lambda>q. song_row_id q = row_song_id r0) S = Some s" and "prepared s"
    and "has_results i r0 S (on_course target) w"
  shows "has_results i r0 S (on_course target) (snd (handle_analysis cfg es i stopping w))"
proof -
  let ?fl = "cfg_faults cfg" and ?c = "job_context (cfg_storage_dir cfg) r0 s"
  let ?J = "has_results i r0 S (on_course target)"
  obtain y w1 where get: "analysis_get_by_id ?fl i w = (y, w1)" by fastforce
  have early: "keeps ?J (analysis_get_by_id ?fl i)" by (intro keeps_rules) simp
  note w1 = keepsE [OF early assms(4) get]
  show ?thesis
  proof (cases y)
    case (Inl e)
    then show ?thesis using w1 get by (simp add: handle_analysis_def bindp_Inl)
  next
    case (Inr a)
    then obtain r where r: "analysis_row_of i w = Some r" "a = row_to_analysis_record r" "w1 = w\<lparr>transactions := transactions w + 1\<rparr>"
      using analysis_get_Inr get by blast
    have id: "identity r = identity r0" and songs: "songs w1 = S" and on: "on_course target (ar_stages a)"
      using assms(4) r by (auto simp: has_results_def row_is_def row_to_analysis_record_def)
    obtain z w2 where build: "build_analysis_context ?fl (cfg_storage_dir cfg) a w1 = (z, w2)" by fastforce
    show ?thesis
    proof (cases z)
      case (Inl e)
      have "keeps ?J (build_analysis_context ?fl (cfg_storage_dir cfg) a)" by (intro keeps_rules) simp
      from keepsE [OF this w1 build] show ?thesis using Inl get \<open>y = Inr a\<close> build by (simp add: handle_analysis_def bindp_Inl bindp_Inr)
    next
      case (Inr c)
      have "song_row_of (row_song_id r) w1 = Some s" using assms(2) songs id by (simp add: song_row_of_def identity_def)
      then have c: "c = ?c" using build_context_is build Inr r(2) assms(3) job_context_identity [OF id] by metis
      have "w2 = w1\<lparr>transactions := transactions w1 + 1\<rparr>" using build_context_Inr build Inr by blast
      then have w2: "has_results i r0 S (\<lambda>J. J = ar_stages a) w2"
        using assms(4) r by (auto simp: has_results_def row_is_def row_to_analysis_record_def)
      obtain x w3 where run: "analysis_run cfg es stopping a c i w2 = (x, w3)" by fastforce
      have w3: "?J w3" "x = Inr COMPLETED \<Longrightarrow> has_results i r0 S (completed_by target) w3"
        using run_on_course [OF _ w2 on refl run] assms(1) c by simp_all
      have out: "handle_analysis cfg es i stopping w = settle_run cfg i c (x, w3)"
        using get \<open>y = Inr a\<close> build Inr run by (simp add: handle_analysis_def bindp_Inr settle_run_def)
      show ?thesis
      proof (cases x rule: outcome_cases)
        case (1 e)
        then show ?thesis using keepsE [OF keeps_fail_results w3(1)] unfolding out by (simp add: settle_run_def) (metis prod.collapse)
      next
        case 4
        obtain b w4 where fin: "finish_analysis cfg i c w3 = (b, w4)" by fastforce
        have "has_results i r0 S (completed_by target) w4"
          by (rule keepsE [OF keeps_finish_results w3(2) [OF 4] fin]) (rule completed_by_prune)
        then show ?thesis unfolding out 4 by (simp add: fin settle_run_def on_course_def has_results_weaken)
      qed (use w3(1) in \<open>simp_all add: out settle_run_def\<close>)
    qed
  qed
qed

text \<open>Any number of attempts, each with its own failures and stop requests.\<close>

definition attempted ::
  "analysis_context entry list \<Rightarrow> string \<Rightarrow> (handler_config \<times> ('z worker_state_scheme \<Rightarrow> bool)) list \<Rightarrow>
     'z worker_state_scheme \<Rightarrow> 'z worker_state_scheme" where
  "attempted es i tries w = fold (\<lambda>(cfg, stopping) w. snd (handle_analysis cfg es i stopping w)) tries w"

lemma attempted_on_course:
  assumes "computes es (job_context dir r0 s) target"
    and "find (\<lambda>q. song_row_id q = row_song_id r0) S = Some s" and "prepared s"
    and "\<forall>t \<in> set tries. cfg_storage_dir (fst t) = dir"
    and "has_results i r0 S (on_course target) w"
  shows "has_results i r0 S (on_course target) (attempted es i tries w)"
  using assms(4,5)
proof (induction tries arbitrary: w)
  case (Cons a tries)
  obtain cfg stopping where a: "a = (cfg, stopping)" by fastforce
  have dir: "cfg_storage_dir cfg = dir" using Cons.prems(1) a by simp
  have "has_results i r0 S (on_course target) (snd (handle_analysis cfg es i stopping w))"
    by (rule attempt_on_course [OF _ assms(2,3) Cons.prems(2)]) (simp add: dir assms(1))
  then have "has_results i r0 S (on_course target) (attempted es i tries (snd (handle_analysis cfg es i stopping w)))"
    using Cons.IH Cons.prems(1) by simp
  then show ?case by (simp add: attempted_def a)
qed (simp add: attempted_def)

section \<open>Pruned results\<close>

lemma map_of_keyed_pruned: "map_of (keyed (map pruned rs)) a = map_option pruned (map_of (keyed rs) a)"
  by (induction rs) (simp_all add: keyed_def)

lemma map_of_keyed_stage: "map_of (keyed rs) a = Some q \<Longrightarrow> stage q = a"
  by (auto simp: keyed_def dest!: map_of_SomeD)

lemma map_of_filter_keys: "map_of (filter (\<lambda>(f, v). f \<notin> D) d) k = (if k \<in> D then None else map_of d k)"
  by (induction d) auto

lemma pruned_data:
  "map_of (data (pruned r)) k =
     (if stage r = ''pitch'' \<and> k \<in> {''user_pitch_curve'', ''reference_pitch_curve'', ''piano_roll''} then None else map_of (data r) k)"
  using map_of_filter_keys [of "{''user_pitch_curve'', ''reference_pitch_curve'', ''piano_roll''}" "data r" k]
  by (simp add: pruned_def prune_pitch_def)

lemma pruned_same: "stage r \<noteq> ''pitch'' \<Longrightarrow> pruned r = r"
  by (simp add: pruned_def prune_pitch_def)

lemma dense_ok_pruned: "stage r = ''pitch'' \<Longrightarrow> dense_ok (data (pruned r))"
  by (simp add: dense_ok_def pruned_data)

lemma has_score_pruned: "has_score (data (pruned r)) = has_score (data r)"
  by (simp add: has_score_def pruned_data)

lemma savable_pruned:
  assumes "savable (keyed rs) cols"
  shows "savable (keyed (map pruned rs)) cols"
proof -
  obtain q where q: "map_of (keyed rs) ''aggregate'' = Some q" "scoring_columns_of (data q) = Inr cols"
    using assms by (auto simp: savable_def)
  then have "pruned q = q" using map_of_keyed_stage [OF q(1)] by (simp add: pruned_same)
  then show ?thesis
    using assms q map_of_keyed_stage [of rs "''pitch''"] dense_ok_pruned
    by (auto simp: savable_def map_of_keyed_pruned has_score_pruned)
qed

lemma scores_in_pruned: "scores_in (keyed (map pruned rs)) D r = scores_in (keyed rs) D r"
  by (auto simp: scores_in_def map_of_keyed_pruned pruned_data)

section \<open>The attempt that nothing disturbs\<close>

lemma quiet_attempt_done:
  assumes "computes es (job_context (cfg_storage_dir cfg) r0 s) target"
    and "find (\<lambda>q. song_row_id q = row_song_id r0) S = Some s" and "prepared s"
    and "has_results i r0 S (on_course target) w" and "target \<noteq> []" and "savable (keyed target) cols"
    and "quiet (cfg_faults cfg)" and "all_finish (cfg_fate cfg)" and "\<And>w. \<not> stopping w"
  shows "\<exists>w' r'. handle_analysis cfg es i stopping w = (Inr True, w') \<and> analysis_row_of i w' = Some r' \<and>
    row_status r' = ''done'' \<and> row_scoring r' = Some cols \<and> scores_in (keyed target) (set ASPECTS) r' \<and>
    charted i (col_overall_score cols) w'"
proof -
  let ?c = "job_context (cfg_storage_dir cfg) r0 s"
  obtain r where r: "analysis_row_of i w = Some r" "identity r = identity r0" "on_course target (stages_of (row_stages_json r))"
    and songs: "songs w = S"
    using assms(4) by (auto simp: has_results_def row_is_def)
  let ?J = "stages_of (row_stages_json r)" and ?u = "row_user_id r" and ?m = "row_mode r"
  have c: "job_context (cfg_storage_dir cfg) r s = ?c" and m: "context_mode ?c = ?m"
    using r(2) job_context_identity by (simp_all add: job_context_def identity_def)
  have song: "song_row_of (row_song_id r) w = Some s" using assms(2) songs r(2) by (simp add: song_row_of_def identity_def)
  obtain w0 where w0: "analysis_row_of i w0 = Some r"
    "handle_analysis cfg es i stopping w = settle_run cfg i ?c (analysis_run cfg es stopping (row_to_analysis_record r) ?c i w0)"
    using handle_quiet [OF assms(7) r(1) song assms(3), of es stopping] unfolding c by blast
  obtain k rs where k: "k \<le> length target"
    "?J = keyed (take k target) \<and> rs = target \<or> ?J = keyed (map pruned target) \<and> rs = map pruned target \<and> k = length target"
    using r(3) take_all [OF order_refl, of target] unfolding on_course_def completed_by_def by (metis order_refl)
  note rem = remaining_computes [OF assms(1) k(2,1)]
  have safe: "parallel_safe analysis_with_result (stages_for_mode es (Some ?m))"
    using assms(1) by (simp add: computes_def Let_def m)
  have start: "row_is i (belongs_to ?u ?m) (database (os_state.more w0))"
    using w0(1) by (simp add: row_is_def belongs_to_def)
  have ports: "working_ports (\<lambda>z. row_is i (belongs_to ?u ?m) (database z)) (saved_results i) store i
      (analysis_ports (cfg_faults cfg) stopping i)"
    by (rule analysis_ports_work [OF assms(7,9)])
  obtain v where run: "run analysis_with_result (cfg_fate cfg) es (analysis_ports (cfg_faults cfg) stopping i) i ?c ?J (Some ?m) w0 = (Inr COMPLETED, v)"
    and v: "row_is i (belongs_to ?u ?m) (database (os_state.more v))"
    and saved: "saved_results i (os_state.more v) = fold store (drop k rs) (saved_results i (os_state.more w0))"
    using run_in_order [OF ports assms(8) start safe rem(2) [unfolded m]] by blast
  have distinct: "distinct (map stage rs)" using rem(4) computed_names(2) [OF assms(1)] by simp
  have "stage ` set (take k rs) \<inter> stage ` set (drop k rs) = {}"
    using distinct by (metis append_take_drop_id distinct_append map_append set_map)
  then have "fold store (drop k rs) (keyed (take k rs)) = keyed rs"
    using fold_store [of "drop k rs" "keyed (take k rs)"] distinct_drop [OF distinct, of k]
    by (simp add: drop_map keyed_def image_image flip: map_append)
  moreover have "saved_results i (os_state.more w0) = keyed (take k rs)" using w0(1) rem(5) by (simp add: stored_row)
  ultimately have saved: "saved_results i (os_state.more v) = keyed rs" using saved by simp
  have "rs \<noteq> []" using rem(3) assms(5) by auto
  then have ran: "row_is i (ran_with (keyed rs) ?u ?m) v"
    using v saved by (auto simp: row_is_def ran_with_def belongs_to_def stored_row stages_of_def keyed_def split: option.splits)
  have sav: "savable (keyed rs) cols" using k(2) assms(6) savable_pruned by blast
  obtain w' where fin: "finish_analysis cfg i ?c v = (Inr True, w')"
    and row: "row_is i (\<lambda>r. row_status r = ''done'' \<and> scores_in (keyed rs) (set ASPECTS) r \<and> row_scoring r = Some cols) w'"
    and chart: "charted i (col_overall_score cols) w'"
    by (rule succeedsE [OF succeeds_finish [OF assms(7) sav, where c = ?c] ran]) auto
  have "handle_analysis cfg es i stopping w = (Inr True, w')"
    using w0(2) run fin m by (simp add: analysis_run_def settle_run_def row_to_analysis_record_def)
  moreover have "scores_in (keyed rs) (set ASPECTS) q = scores_in (keyed target) (set ASPECTS) q" for q
    using k(2) scores_in_pruned by blast
  ultimately show ?thesis using row chart by (auto simp: row_is_def)
qed

section \<open>Properties\<close>

lemma warm_computes:
  assumes "steady lib" and "in_order analysis_with_result (warm_stages st w lib (context_mode c)) c = Inr target"
  shows "computes (build_stages st w lib) c target"
proof -
  have flat: "flatten (stages_for_mode (build_stages st w lib) (Some (context_mode c))) = warm_stages st w lib (context_mode c)"
    by (simp add: stages_for_mode_def flatten_mode warm_stages_def)
  moreover have "parallel_safe analysis_with_result (stages_for_mode (build_stages st w lib) (Some (context_mode c)))"
    by (simp add: stages_for_mode_def parallel_safe_mode build_parallel_safe [OF assms(1)])
  ultimately show ?thesis using assms(2) warm_stages_ok by (simp add: computes_def Let_def)
qed

text \<open>
  C1: Failures never change the scores. Take a queued analysis of a prepared song whose recording the stages up
  to the alignment accept, and any number of attempts at it, each with its own hanging, dying or unstartable
  children, failing database statements and Redis calls, and stop requests. Whatever they leave, one attempt
  that nothing disturbs records the analysis as done, with an overall score and a score for each aspect of its
  mode that depend on none of this, all within 0 and 100.
\<close>

theorem faults_never_change_scores:
  assumes "parse_scoring_weights st = Inr pw" and "nonnegative (pw (row_mode r))"
    and "libraries_ok lib" and "steady lib"
    and "analysis_row_of i w = Some r" and "stages_of (row_stages_json r) = []"
    and "song_row_of (row_song_id r) w = Some s" and "prepared s"
    and "disk_ready lib (job_context dir r s)" and "hop_seconds (reference_pitch (job_context dir r s)) \<noteq> 0"
    and "\<forall>v. Some v \<in> set (hz (reference_pitch (job_context dir r s))) \<longrightarrow> 0 < v"
    and "in_order analysis_with_result (alignment_stages lib (row_mode r)) (job_context dir r s) = Inr ps"
  defines "es \<equiv> build_stages st (\<lambda>m. finite_weights (pw m)) lib"
  shows "\<exists>cols score. 0 \<le> col_overall_score cols \<and> col_overall_score cols \<le> 100 \<and>
    (\<forall>a \<in> set (MODE_ASPECTS (row_mode r)). 0 \<le> score a \<and> score a \<le> 100) \<and>
    (\<forall>tries cfg stopping. (\<forall>t \<in> set ((cfg, stopping) # tries). cfg_storage_dir (fst t) = dir) \<longrightarrow>
       quiet (cfg_faults cfg) \<longrightarrow> all_finish (cfg_fate cfg) \<longrightarrow> (\<forall>v. \<not> stopping v) \<longrightarrow>
       (\<exists>w' r'. handle_analysis cfg es i stopping (attempted es i tries w) = (Inr True, w') \<and>
          analysis_row_of i w' = Some r' \<and> row_status r' = ''done'' \<and> row_scoring r' = Some cols \<and>
          (\<forall>a \<in> set (MODE_ASPECTS (row_mode r)). map_of (row_aspect_scores r') a = Some (score a)) \<and>
          charted i (col_overall_score cols) w'))"
proof -
  let ?c = "job_context dir r s" and ?w = "\<lambda>m. finite_weights (pw m)" and ?S = "songs w"
  have m: "context_mode ?c = row_mode r" and empty: "completed ?c = Map.empty" by (simp_all add: job_context_def)
  have nonneg: "nonnegative (pw (context_mode ?c))" by (simp add: m assms(2))
  have order: "in_order analysis_with_result (alignment_stages lib (context_mode ?c)) ?c = Inr ps" by (simp add: m assms(12))
  obtain rs q score cols where
    target: "in_order analysis_with_result (warm_stages st ?w lib (row_mode r)) ?c = Inr (rs @ [q])"
    and scored: "stages_scored (fold (\<lambda>r c. analysis_with_result c r) rs ?c)"
    and names: "map stage (rs @ [q]) = map stage_name (warm_stages st ?w lib (row_mode r))"
    and q: "stage q = ''aggregate''" "map_of (data q) ''overall_score'' = Some (PFloat score)" "0 \<le> score" "score \<le> 100"
      "scoring_columns_of (data q) = Inr cols"
    using warm_path_target [OF assms(1) nonneg assms(3-4,9,10) assms(11) [rule_format] order] unfolding m by blast
  let ?T = "rs @ [q]"
  note sav = scored_savable [OF scored empty names [folded m] q(1,5), folded keyed_def, unfolded m]
  have overall: "col_overall_score cols = score"
    using q(2,5) by (auto simp: scoring_columns_of_def and_then_eq_Inr read_as_def getitem_of_map)
  have "\<forall>a \<in> set (MODE_ASPECTS (row_mode r)). \<exists>x. 0 \<le> x \<and> x \<le> 100 \<and>
      (\<forall>r'. scores_in (keyed ?T) (set ASPECTS) r' \<longrightarrow> map_of (row_aspect_scores r') a = Some x)"
    using sav(2) set_MODE_ASPECTS_subset by (fastforce simp: scores_in_def has_score_def)
  then obtain f where f: "\<And>a. a \<in> set (MODE_ASPECTS (row_mode r)) \<Longrightarrow> 0 \<le> f a \<and> f a \<le> 100 \<and>
      (\<forall>r'. scores_in (keyed ?T) (set ASPECTS) r' \<longrightarrow> map_of (row_aspect_scores r') a = Some (f a))"
    by metis
  have comp: "computes es ?c ?T"
    unfolding es_def by (rule warm_computes [OF assms(4)]) (simp only: m target)
  have song: "find (\<lambda>p. song_row_id p = row_song_id r) ?S = Some s" using assms(7) by (simp add: song_row_of_def)
  have "on_course ?T []" unfolding on_course_def by (intro disjI2 exI [of _ 0]) (simp add: keyed_def)
  then have start: "has_results i r ?S (on_course ?T) w"
    using assms(5,6) by (simp add: has_results_def row_is_def)
  have "\<exists>w' r'. handle_analysis cfg es i stopping (attempted es i tries w) = (Inr True, w') \<and>
      analysis_row_of i w' = Some r' \<and> row_status r' = ''done'' \<and> row_scoring r' = Some cols \<and>
      (\<forall>a \<in> set (MODE_ASPECTS (row_mode r)). map_of (row_aspect_scores r') a = Some (f a)) \<and> charted i (col_overall_score cols) w'"
    if "\<forall>t \<in> set ((cfg, stopping) # tries). cfg_storage_dir (fst t) = dir" "quiet (cfg_faults cfg)" "all_finish (cfg_fate cfg)"
      "\<forall>v. \<not> stopping v" for tries cfg stopping
  proof -
    have dir: "cfg_storage_dir cfg = dir" and "\<forall>t \<in> set tries. cfg_storage_dir (fst t) = dir" using that(1) by simp_all
    note later = attempted_on_course [OF comp song assms(8) this(2) start]
    have go: "\<not> stopping v" for v using that(4) by simp
    have comp': "computes es (job_context (cfg_storage_dir cfg) r s) ?T" using comp dir by simp
    show ?thesis
      using quiet_attempt_done [OF comp' song assms(8) later _ sav(1) that(2,3) go] f by fastforce
  qed
  then show ?thesis using f q(3,4) unfolding overall by (intro exI [of _ cols] exI [of _ f]) (simp add: overall)
qed

text \<open>
  A worker that is killed at its tenth transaction, one whose children hang, one that is told to stop, and then
  one that nothing disturbs.
\<close>

definition killed_cfg :: handler_config where
  "killed_cfg = demo_cfg\<lparr>cfg_faults := \<lparr>db_fault = \<lambda>n. 9 \<le> n, redis_fault = \<lambda>n. 9 \<le> n\<rparr>\<rparr>"

definition hanging_cfg :: handler_config where
  "hanging_cfg = demo_cfg\<lparr>cfg_fate := \<lambda>_. Hangs\<rparr>"

definition bad_tries :: "(handler_config \<times> (worker_state \<Rightarrow> bool)) list" where
  "bad_tries = [(killed_cfg, \<lambda>_. False), (hanging_cfg, \<lambda>_. False), (demo_cfg, \<lambda>_. True)]"

definition demo_warm_stages :: "analysis_context entry list" where
  "demo_warm_stages = build_stages demo_settings (\<lambda>m. finite_weights (demo_profiles m)) demo_lib"

theorem faults_never_change_scores_witness:
  "\<exists>w' r' w'' r'' cols. handle_analysis demo_cfg demo_warm_stages ''a1'' (\<lambda>_. False)
      (attempted demo_warm_stages ''a1'' bad_tries demo_ready_db) = (Inr True, w') \<and>
    analysis_row_of ''a1'' w' = Some r' \<and> row_status r' = ''done'' \<and> row_scoring r' = Some cols \<and>
    handle_analysis demo_cfg demo_warm_stages ''a1'' (\<lambda>_. False) demo_ready_db = (Inr True, w'') \<and>
    analysis_row_of ''a1'' w'' = Some r'' \<and> row_scoring r'' = Some cols"
proof -
  let ?r = "demo_row ''a1'' ''queued'' 1" and ?dir = "cfg_storage_dir demo_cfg"
  let ?c = "job_context ?dir ?r demo_ready_song"
  have hz: "hz (reference_pitch ?c) = [Some 110]" unfolding demo_ready_facts(7) by simp
  have hop: "hop_seconds (reference_pitch ?c) \<noteq> 0" and pos: "\<forall>v. Some v \<in> set (hz (reference_pitch ?c)) \<longrightarrow> 0 < v"
    unfolding demo_ready_facts(7) by (simp_all add: PITCH_HOP_SECONDS_def)
  obtain ps where ps: "in_order analysis_with_result (alignment_stages demo_lib (row_mode ?r)) ?c = Inr ps"
    using demo_alignment_returns [OF demo_ready_facts(8) hz] unfolding demo_ready_facts(6) by blast
  have good: "quiet (cfg_faults demo_cfg)" "all_finish (cfg_fate demo_cfg)"
    by (simp_all add: demo_cfg_def quiet_def no_faults_def all_finish_def)
  have dirs: "\<forall>t \<in> set ((demo_cfg, \<lambda>_. False) # bad_tries). cfg_storage_dir (fst t) = ?dir"
    by (simp add: bad_tries_def killed_cfg_def hanging_cfg_def)
  obtain cols where all: "\<forall>tries cfg stopping. (\<forall>t \<in> set ((cfg, stopping) # tries). cfg_storage_dir (fst t) = ?dir) \<longrightarrow>
       quiet (cfg_faults cfg) \<longrightarrow> all_finish (cfg_fate cfg) \<longrightarrow> (\<forall>v. \<not> stopping v) \<longrightarrow>
       (\<exists>w' r'. handle_analysis cfg demo_warm_stages ''a1'' stopping (attempted demo_warm_stages ''a1'' tries demo_ready_db) = (Inr True, w') \<and>
          analysis_row_of ''a1'' w' = Some r' \<and> row_status r' = ''done'' \<and> row_scoring r' = Some cols)"
    using faults_never_change_scores [OF demo_profiles_parsed demo_profiles_nonnegative demo_lib_ok(2,1)
        demo_ready_facts(1,2,3,4) demo_lib_ok(3) hop pos ps, folded demo_warm_stages_def] by (elim exE conjE) blast
  have "attempted demo_warm_stages ''a1'' [] demo_ready_db = demo_ready_db" by (simp add: attempted_def)
  moreover have "\<exists>w' r'. handle_analysis demo_cfg demo_warm_stages ''a1'' (\<lambda>_. False)
        (attempted demo_warm_stages ''a1'' tries demo_ready_db) = (Inr True, w') \<and>
      analysis_row_of ''a1'' w' = Some r' \<and> row_status r' = ''done'' \<and> row_scoring r' = Some cols"
    if "set tries \<subseteq> set bad_tries" for tries
    using all [THEN spec [of _ tries], THEN spec [of _ demo_cfg], THEN spec [of _ "\<lambda>_. False"]] that dirs good by auto
  ultimately show ?thesis by (metis empty_set empty_subsetI order_refl)
qed

end
