(* ===== verification/Heartbeat.thy ===== *)
theory Heartbeat
  imports Prelude
begin

text \<open>
  The heartbeat of \<open>worker.py\<close>: the thread that touches a file every ten seconds (\<open>_heartbeat_loop\<close>), beside the
  main thread that serves jobs and, in the \<open>finally\<close> of \<open>run\<close>, sets the stop event and joins the thread
  for at most five seconds; and the container's health check, which reads the age of the file. The two threads
  are a step relation with a clock. What is not the program's, how late a runnable thread is scheduled, is
  the bound \<open>L\<close>. The lemmas show how old the file gets, and when the join finds the thread ended.
\<close>

section \<open>The two threads\<close>

definition HEARTBEAT_INTERVAL_SECONDS :: real where
  "HEARTBEAT_INTERVAL_SECONDS = 10"

definition JOIN_TIMEOUT_SECONDS :: real where
  "JOIN_TIMEOUT_SECONDS = 5"

text \<open>
  The heartbeat thread is at the test of its loop, which it reached at the given time, or waits for the stop
  event until a deadline, or has returned, or has ended with the \<open>OSError\<close> of a touch.
\<close>

datatype beat_pc = AtTest real | Waiting real | Returned | Failed

datatype main_pc = Serving | Joining real | Closed

record beat_state =
  clock :: real
  beat_file :: "real option"
  stop_at :: "real option"
  beat :: beat_pc
  main_thread :: main_pc

text \<open>Until when the heartbeat thread has run its next step: it is runnable at the test, and in the wait from
  its deadline or the stop on. An ended thread has no next step.\<close>

fun next_step_by :: "real \<Rightarrow> beat_state \<Rightarrow> real option" where
  "next_step_by L s =
     (case beat s of
        AtTest t \<Rightarrow> Some (t + L)
      | Waiting deadline \<Rightarrow> Some ((case stop_at s of None \<Rightarrow> deadline | Some t \<Rightarrow> min deadline t) + L)
      | _ \<Rightarrow> None)"

definition passes :: "real \<Rightarrow> real \<Rightarrow> beat_state \<Rightarrow> bool" where
  "passes L d s \<longleftrightarrow> 0 < d \<and> (case next_step_by L s of None \<Rightarrow> True | Some t \<Rightarrow> clock s + d \<le> t)"

inductive beat_step :: "real \<Rightarrow> beat_state \<Rightarrow> beat_state \<Rightarrow> bool" for L where
  time: "passes L d s \<Longrightarrow> beat_step L s (s\<lparr>clock := clock s + d\<rparr>)"
| touch: "beat s = AtTest t \<Longrightarrow> stop_at s = None \<Longrightarrow>
    beat_step L s (s\<lparr>beat_file := Some (clock s), beat := Waiting (clock s + HEARTBEAT_INTERVAL_SECONDS)\<rparr>)"
| touch_raises: "beat s = AtTest t \<Longrightarrow> stop_at s = None \<Longrightarrow> beat_step L s (s\<lparr>beat := Failed\<rparr>)"
| leave: "beat s = AtTest t \<Longrightarrow> stop_at s = Some u \<Longrightarrow> beat_step L s (s\<lparr>beat := Returned\<rparr>)"
| wake: "beat s = Waiting deadline \<Longrightarrow> deadline \<le> clock s \<or> stop_at s \<noteq> None \<Longrightarrow>
    beat_step L s (s\<lparr>beat := AtTest (clock s)\<rparr>)"
| stop: "main_thread s = Serving \<Longrightarrow>
    beat_step L s (s\<lparr>stop_at := Some (clock s), main_thread := Joining (clock s + JOIN_TIMEOUT_SECONDS)\<rparr>)"
| join: "main_thread s = Joining deadline \<Longrightarrow> beat s \<in> {Returned, Failed} \<or> deadline \<le> clock s \<Longrightarrow>
    beat_step L s (s\<lparr>main_thread := Closed\<rparr>)"

inductive_cases beat_stepE: "beat_step L s s'"

text \<open>The thread has just been started at \<open>t0\<close>; the file may be an old one.\<close>

definition started :: "real \<Rightarrow> real option \<Rightarrow> beat_state" where
  "started t0 old = \<lparr>clock = t0, beat_file = old, stop_at = None, beat = AtTest t0, main_thread = Serving\<rparr>"

text \<open>The health check: the file exists and is younger than 30 seconds.\<close>

definition healthy :: "beat_state \<Rightarrow> bool" where
  "healthy s \<longleftrightarrow> (case beat_file s of None \<Rightarrow> False | Some mtime \<Rightarrow> clock s - mtime < 30)"

definition alive :: "beat_state \<Rightarrow> bool" where
  "alive s \<longleftrightarrow> beat s \<notin> {Returned, Failed}"

section \<open>The invariant\<close>

text \<open>How far the clock is, by the place of the heartbeat thread.\<close>

fun beat_inv :: "real \<Rightarrow> real \<Rightarrow> beat_state \<Rightarrow> bool" where
  "beat_inv L t0 s \<longleftrightarrow>
     t0 \<le> clock s \<and>
     (case beat s of
        AtTest t \<Rightarrow> t \<le> clock s \<and> clock s \<le> t + L \<and>
          (t = t0 \<or> (\<exists>m. beat_file s = Some m \<and> t \<le> m + HEARTBEAT_INTERVAL_SECONDS + L)) \<and>
          (\<forall>u. stop_at s = Some u \<longrightarrow> t \<le> u + L)
      | Waiting deadline \<Rightarrow> beat_file s = Some (deadline - HEARTBEAT_INTERVAL_SECONDS) \<and>
          deadline - HEARTBEAT_INTERVAL_SECONDS \<le> clock s \<and> clock s \<le> deadline + L \<and>
          (\<forall>u. stop_at s = Some u \<longrightarrow> clock s \<le> u + L)
      | _ \<Rightarrow> True) \<and>
     (case main_thread s of
        Serving \<Rightarrow> stop_at s = None
      | Joining deadline \<Rightarrow> stop_at s = Some (deadline - JOIN_TIMEOUT_SECONDS) \<and> deadline - JOIN_TIMEOUT_SECONDS \<le> clock s
      | Closed \<Rightarrow> 2 * L < JOIN_TIMEOUT_SECONDS \<longrightarrow> \<not> alive s)"

lemma beat_inv_started: "0 \<le> L \<Longrightarrow> beat_inv L t0 (started t0 old)"
  by (simp add: started_def)

lemma beat_inv_step: "beat_step L s s' \<Longrightarrow> 0 \<le> L \<Longrightarrow> beat_inv L t0 s \<Longrightarrow> beat_inv L t0 s'"
proof (induction rule: beat_step.induct)
  case (time d s)
  then show ?case
    by (auto simp: passes_def alive_def split: beat_pc.splits main_pc.splits option.splits)
next
  case (join s deadline)
  then show ?case
    by (auto simp: alive_def JOIN_TIMEOUT_SECONDS_def split: beat_pc.splits)
qed (auto simp: alive_def HEARTBEAT_INTERVAL_SECONDS_def JOIN_TIMEOUT_SECONDS_def split: beat_pc.splits main_pc.splits option.splits)

lemma beat_inv_reachable:
  assumes "(beat_step L)\<^sup>*\<^sup>* (started t0 old) s" and "0 \<le> L"
  shows "beat_inv L t0 s"
  using assms(1)
proof (induction rule: rtranclp_induct)
  case base
  show ?case by (rule beat_inv_started [OF assms(2)])
next
  case (step s s')
  then show ?case using beat_inv_step assms(2) by blast
qed

text \<open>A thread that ended with an exception stays so, and the file with it.\<close>

lemma failed_stays:
  assumes "(beat_step L)\<^sup>*\<^sup>* s s'" and "beat s = Failed"
  shows "beat s' = Failed \<and> beat_file s' = beat_file s \<and> clock s \<le> clock s'"
  using assms(1)
proof (induction rule: rtranclp_induct)
  case (step s1 s2)
  then have "beat s1 = Failed" by simp
  from step(2) this show ?case
    by (elim beat_stepE) (use step(3) in \<open>auto simp: passes_def\<close>)
qed (simp add: assms(2))

section \<open>Properties\<close>

text \<open>
  C20: As long as no touch fails, the heartbeat file is never older than ten seconds and twice the lateness
  of the scheduling, so with less than ten seconds of lateness the health check of the container succeeds from
  the first touch on, whatever the main thread does; and with less than two and a half the heartbeat thread has
  ended when the main thread, stopped, is past its join.
\<close>

theorem heartbeat_fresh:
  assumes "(beat_step L)\<^sup>*\<^sup>* (started t0 old) s" and "0 \<le> L"
  shows "(alive s \<longrightarrow> clock s \<le> t0 + L \<or>
      (\<exists>m. beat_file s = Some m \<and> clock s - m \<le> HEARTBEAT_INTERVAL_SECONDS + 2 * L)) \<and>
    (alive s \<and> L < 10 \<and> t0 + L < clock s \<longrightarrow> healthy s) \<and>
    (main_thread s = Closed \<and> 2 * L < JOIN_TIMEOUT_SECONDS \<longrightarrow> \<not> alive s)"
proof -
  note inv = beat_inv_reachable [OF assms]
  have age: "clock s \<le> t0 + L \<or> (\<exists>m. beat_file s = Some m \<and> clock s - m \<le> HEARTBEAT_INTERVAL_SECONDS + 2 * L)" if "alive s"
    using inv that assms(2) by (cases "beat s") (auto simp: alive_def)
  then have "healthy s" if "alive s" "L < 10" "t0 + L < clock s"
    using that by (auto simp: healthy_def HEARTBEAT_INTERVAL_SECONDS_def)
  with age show ?thesis using inv by auto
qed

text \<open>
  C21: One touch that raises is enough to lose the heartbeat: the thread ends, nothing notices, and from thirty
  seconds after the last touch on the health check fails for good, while the worker serves its jobs.
\<close>

theorem heartbeat_lost:
  assumes "beat s = AtTest t" and "stop_at s = None" and "main_thread s = Serving"
    and "\<And>m. beat_file s = Some m \<Longrightarrow> m \<le> clock s"
  shows "\<exists>s1. (beat_step L)\<^sup>*\<^sup>* s s1 \<and> main_thread s1 = Serving \<and>
    (\<forall>s2. (beat_step L)\<^sup>*\<^sup>* s1 s2 \<longrightarrow> \<not> healthy s2)"
proof -
  let ?f = "s\<lparr>beat := Failed\<rparr>"
  let ?s1 = "?f\<lparr>clock := clock s + 30\<rparr>"
  have "beat_step L s ?f" by (rule beat_step.touch_raises [OF assms(1,2)])
  moreover have "beat_step L ?f ?s1" using beat_step.time [of L 30 ?f] by (simp add: passes_def)
  moreover have "\<not> healthy s2" if "(beat_step L)\<^sup>*\<^sup>* ?s1 s2" for s2
    using failed_stays [OF that] assms(4) by (cases "beat_file s") (fastforce simp: healthy_def)+
  ultimately show ?thesis using assms(3) by (intro exI [of _ ?s1]) auto
qed

text \<open>A thread that touches the file, sleeps and is told to stop; and one whose first touch raises.\<close>

definition demo_beat :: beat_state where
  "demo_beat = (started 0 None)\<lparr>beat_file := Some 0, beat := Waiting HEARTBEAT_INTERVAL_SECONDS, clock := 9\<rparr>"

lemma demo_beat_reachable: "(beat_step 1)\<^sup>*\<^sup>* (started 0 None) demo_beat"
proof -
  let ?a = "started 0 None"
  let ?b = "?a\<lparr>beat_file := Some 0, beat := Waiting HEARTBEAT_INTERVAL_SECONDS\<rparr>"
  have "beat_step 1 ?a ?b" using beat_step.touch [of ?a 0 1] by (simp add: started_def)
  moreover have "beat_step 1 ?b demo_beat"
    using beat_step.time [of 1 9 ?b] by (simp add: started_def demo_beat_def passes_def HEARTBEAT_INTERVAL_SECONDS_def)
  ultimately show ?thesis by auto
qed

theorem heartbeat_fresh_witness: "healthy demo_beat \<and> alive demo_beat \<and> 1 < clock demo_beat"
  using heartbeat_fresh [OF demo_beat_reachable] by (simp add: demo_beat_def started_def alive_def)

theorem heartbeat_lost_witness:
  "\<exists>s1. (beat_step 1)\<^sup>*\<^sup>* (started 0 None) s1 \<and> main_thread s1 = Serving \<and> \<not> healthy s1"
  using heartbeat_lost [of "started 0 None" 0 1] by (auto simp: started_def)

end
