(* ===== verification/Startup.thy ===== *)
theory Startup
  imports Worker Threads
begin

text \<open>
  The start of the process: \<open>__main__.py\<close> configures the threads and calls \<open>run\<close>, whose \<open>load_settings\<close>
  (\<open>config.py\<close>) reads the environment, and \<open>logging_setup.py\<close> makes a log line of a record. How the settings
  library finds a variable and reads a number is a parameter; which variables there are, their defaults, which
  are required and what is refused is the code's. The lemmas show what an environment with the required
  variables alone gives, and which environments are refused.
\<close>

section \<open>Loading the settings\<close>

record settings_library =
  lookup_var :: "env \<Rightarrow> string \<Rightarrow> string option"
  as_int :: "string \<Rightarrow> int option"
  as_float :: "string \<Rightarrow> real option"
  as_bool :: "string \<Rightarrow> bool option"

text \<open>A field with a default, and a required one (\<open>Field(...)\<close>); None where validation reports the field.\<close>

definition settings_field :: "settings_library \<Rightarrow> env \<Rightarrow> (string \<Rightarrow> 'a option) \<Rightarrow> 'a \<Rightarrow> string \<Rightarrow> 'a option" where
  "settings_field lib e parse standard name = (case lookup_var lib e name of None \<Rightarrow> Some standard | Some raw \<Rightarrow> parse raw)"

definition required_field :: "settings_library \<Rightarrow> env \<Rightarrow> string \<Rightarrow> string option" where
  "required_field lib e name = lookup_var lib e name"

definition read_app_env :: "string \<Rightarrow> app_env option" where
  "read_app_env raw = (if raw = ''development'' then Some Development else if raw = ''production'' then Some Production else None)"

definition read_pitch_engine :: "string \<Rightarrow> pitch_engine option" where
  "read_pitch_engine raw = (if raw = ''crepe'' then Some Crepe else if raw = ''pyin'' then Some Pyin else None)"

text \<open>The fields that validation reports, in the order of their declaration; a string is always valid.\<close>

definition bad_fields :: "settings_library \<Rightarrow> env \<Rightarrow> string list" where
  "bad_fields lib e = map fst (filter (\<lambda>(name, ok). \<not> ok)
     [(''APP_ENV'', settings_field lib e read_app_env Development ''APP_ENV'' \<noteq> None),
      (''MAX_AUDIO_SECONDS'', settings_field lib e (as_int lib) 360 ''MAX_AUDIO_SECONDS'' \<noteq> None),
      (''AUDIO_TTL_SECONDS'', settings_field lib e (as_int lib) 300 ''AUDIO_TTL_SECONDS'' \<noteq> None),
      (''WORKER_CPU_THREADS'', settings_field lib e (as_int lib) 0 ''WORKER_CPU_THREADS'' \<noteq> None),
      (''PIPELINE_PARALLEL_ASPECTS'', settings_field lib e (as_bool lib) True ''PIPELINE_PARALLEL_ASPECTS'' \<noteq> None),
      (''PITCH_ENGINE'', settings_field lib e read_pitch_engine Crepe ''PITCH_ENGINE'' \<noteq> None),
      (''SCORING_WEIGHTS_CLEAN'', required_field lib e ''SCORING_WEIGHTS_CLEAN'' \<noteq> None),
      (''SCORING_WEIGHTS_MIXED'', required_field lib e ''SCORING_WEIGHTS_MIXED'' \<noteq> None),
      (''ACCOMPANIMENT_DETECT_THRESHOLD'', settings_field lib e (as_float lib) (15 / 100) ''ACCOMPANIMENT_DETECT_THRESHOLD'' \<noteq> None),
      (''KEY_SHIFT_MIN_SEMITONES'', settings_field lib e (as_float lib) (6 / 10) ''KEY_SHIFT_MIN_SEMITONES'' \<noteq> None),
      (''KEY_SHIFT_MAX_IQR'', settings_field lib e (as_float lib) (5 / 10) ''KEY_SHIFT_MAX_IQR'' \<noteq> None),
      (''MAX_KEY_SHIFT_SEMITONES'', settings_field lib e (as_float lib) 7 ''MAX_KEY_SHIFT_SEMITONES'' \<noteq> None),
      (''POSTGRES_PORT'', settings_field lib e (as_int lib) 5432 ''POSTGRES_PORT'' \<noteq> None),
      (''POSTGRES_DB'', required_field lib e ''POSTGRES_DB'' \<noteq> None),
      (''POSTGRES_USER'', required_field lib e ''POSTGRES_USER'' \<noteq> None),
      (''POSTGRES_PASSWORD'', required_field lib e ''POSTGRES_PASSWORD'' \<noteq> None),
      (''REDIS_PORT'', settings_field lib e (as_int lib) 6379 ''REDIS_PORT'' \<noteq> None),
      (''REDIS_DB'', settings_field lib e (as_int lib) 0 ''REDIS_DB'' \<noteq> None),
      (''REDIS_PASSWORD'', required_field lib e ''REDIS_PASSWORD'' \<noteq> None)])"

text \<open>The fields without an alias are read under their own name.\<close>

definition settings_of :: "settings_library \<Rightarrow> env \<Rightarrow> settings" where
  "settings_of lib e =
     \<lparr>app_env = the (settings_field lib e read_app_env Development ''APP_ENV''),
      log_level = the (settings_field lib e Some ''info'' ''LOG_LEVEL''),
      audio_storage_dir = the (settings_field lib e Some ''/data/audio-tmp'' ''audio_storage_dir''),
      model_weights_dir = the (settings_field lib e Some ''/data/model-weights'' ''model_weights_dir''),
      song_stems_dir = the (settings_field lib e Some ''/data/song-stems'' ''song_stems_dir''),
      max_audio_seconds = the (settings_field lib e (as_int lib) 360 ''MAX_AUDIO_SECONDS''),
      audio_ttl_seconds = the (settings_field lib e (as_int lib) 300 ''AUDIO_TTL_SECONDS''),
      worker_cpu_threads = the (settings_field lib e (as_int lib) 0 ''WORKER_CPU_THREADS''),
      pipeline_parallel_aspects = the (settings_field lib e (as_bool lib) True ''PIPELINE_PARALLEL_ASPECTS''),
      pitch_engine = the (settings_field lib e read_pitch_engine Crepe ''PITCH_ENGINE''),
      whisper_model = the (settings_field lib e Some ''base'' ''WHISPER_MODEL''),
      whisper_compute_type = the (settings_field lib e Some ''int8'' ''WHISPER_COMPUTE_TYPE''),
      demucs_model = the (settings_field lib e Some ''htdemucs'' ''DEMUCS_MODEL''),
      scoring_version = the (settings_field lib e Some ''1.0'' ''SCORING_VERSION''),
      scoring_weights_clean_raw = the (required_field lib e ''SCORING_WEIGHTS_CLEAN''),
      scoring_weights_mixed_raw = the (required_field lib e ''SCORING_WEIGHTS_MIXED''),
      accompaniment_detect_threshold = the (settings_field lib e (as_float lib) (15 / 100) ''ACCOMPANIMENT_DETECT_THRESHOLD''),
      key_shift_min_semitones = the (settings_field lib e (as_float lib) (6 / 10) ''KEY_SHIFT_MIN_SEMITONES''),
      key_shift_max_iqr = the (settings_field lib e (as_float lib) (5 / 10) ''KEY_SHIFT_MAX_IQR''),
      max_key_shift_semitones = the (settings_field lib e (as_float lib) 7 ''MAX_KEY_SHIFT_SEMITONES''),
      postgres_host = the (settings_field lib e Some ''postgres'' ''POSTGRES_HOST''),
      postgres_port = the (settings_field lib e (as_int lib) 5432 ''POSTGRES_PORT''),
      postgres_db = the (required_field lib e ''POSTGRES_DB''),
      postgres_user = the (required_field lib e ''POSTGRES_USER''),
      postgres_password = the (required_field lib e ''POSTGRES_PASSWORD''),
      redis_host = the (settings_field lib e Some ''redis'' ''REDIS_HOST''),
      redis_port = the (settings_field lib e (as_int lib) 6379 ''REDIS_PORT''),
      redis_db = the (settings_field lib e (as_int lib) 0 ''REDIS_DB''),
      redis_password = the (required_field lib e ''REDIS_PASSWORD'')\<rparr>"

text \<open>The error of the library: all bad fields at once, or, with none, what the model validator raises.\<close>

datatype settings_error = BadFields "string list" | BadWeights config_error

definition load_settings :: "settings_library \<Rightarrow> env \<Rightarrow> settings_error + (settings \<times> (mode \<Rightarrow> weights))" where
  "load_settings lib e =
     (let bad = bad_fields lib e; st = settings_of lib e
      in if bad \<noteq> [] then Inl (BadFields bad)
         else (case parse_scoring_weights st of Inl err \<Rightarrow> Inl (BadWeights err) | Inr pw \<Rightarrow> Inr (st, pw)))"

section \<open>The entry point\<close>

definition main :: "settings_library \<Rightarrow> host \<Rightarrow> worker_outside \<Rightarrow> process_state \<Rightarrow> ((exn + unit) \<times> process_state) option" where
  "main lib h out w =
     (let w1 = w\<lparr>environ := snd (configure_worker_threads h (environ w))\<rparr>
      in case load_settings lib (environ w1) of
           Inl err \<Rightarrow> Some (Inl (Crash ''ValidationError'' []), w1)
         | Inr (st, pw) \<Rightarrow> worker_run st out w1)"

section \<open>Log lines\<close>

text \<open>A log record: \<open>__dict__\<close> has the attributes of every record and what the caller passed in \<open>extra\<close>.\<close>

record log_record =
  created_iso :: string
  levelname :: string
  log_message :: string
  record_dict :: pydict
  exception_text :: "string option"

definition RESERVED_LOG_RECORD_ATTRS :: "string list" where
  "RESERVED_LOG_RECORD_ATTRS =
     [''name'', ''msg'', ''args'', ''levelname'', ''levelno'', ''pathname'', ''filename'', ''module'', ''exc_info'', ''exc_text'',
      ''stack_info'', ''lineno'', ''funcName'', ''created'', ''msecs'', ''relativeCreated'', ''thread'', ''threadName'',
      ''processName'', ''process'', ''taskName'']"

definition format_payload :: "log_record \<Rightarrow> pydict" where
  "format_payload r =
     (let start = [(''ts'', PStr (created_iso r)), (''level'', PStr (lower (levelname r))), (''msg'', PStr (log_message r))];
          payload = fold (\<lambda>(k, v) d. if k \<notin> set RESERVED_LOG_RECORD_ATTRS then put k v d else d) (record_dict r) start
      in case exception_text r of None \<Rightarrow> payload | Some t \<Rightarrow> put ''error'' (PStr t) payload)"

section \<open>Lemmas\<close>

lemma map_of_put [simp]: "map_of (put k v d) = (map_of d)(k \<mapsto> v)"
  by (induction d) auto

text \<open>What a caller passes is in the line, whatever its name.\<close>

lemma extra_is_logged:
  assumes "map_of (record_dict r) k = Some v" and "distinct (map fst (record_dict r))"
    and "k \<notin> set RESERVED_LOG_RECORD_ATTRS" and "k \<noteq> ''error''"
  shows "map_of (format_payload r) k = Some v"
proof -
  have "map_of (fold (\<lambda>(k, v) d. if k \<notin> set RESERVED_LOG_RECORD_ATTRS then put k v d else d) xs d) k =
      (case map_of xs k of None \<Rightarrow> map_of d k | Some v \<Rightarrow> Some v)" if "distinct (map fst xs)" for xs :: pydict and d
    using that
  proof (induction xs arbitrary: d)
    case (Cons p xs)
    then show ?case using assms(3) by (cases p) (auto simp: map_of_eq_None_iff image_iff split: option.split dest: map_of_SomeD)
  qed simp
  from this [OF assms(2)] show ?thesis using assms(1,4) by (simp add: format_payload_def Let_def split: option.split)
qed

lemma load_settings_thread_count:
  assumes "load_settings lib e = Inr (st, pw)" and "lookup_var lib e ''WORKER_CPU_THREADS'' = Some (show_int n)"
    and "as_int lib (show_int n) = Some n"
  shows "worker_cpu_threads st = n"
  using assms by (auto simp: load_settings_def Let_def settings_of_def settings_field_def split: if_splits sum.splits)

text \<open>The names the settings are read from: the required ones, the thread count and the others.\<close>

definition REQUIRED_NAMES :: "string list" where
  "REQUIRED_NAMES = [''SCORING_WEIGHTS_CLEAN'', ''SCORING_WEIGHTS_MIXED'', ''POSTGRES_DB'', ''POSTGRES_USER'', ''POSTGRES_PASSWORD'',
     ''REDIS_PASSWORD'']"

definition OPTIONAL_NAMES :: "string list" where
  "OPTIONAL_NAMES = [''APP_ENV'', ''LOG_LEVEL'', ''audio_storage_dir'', ''model_weights_dir'', ''song_stems_dir'',
     ''MAX_AUDIO_SECONDS'', ''AUDIO_TTL_SECONDS'', ''PIPELINE_PARALLEL_ASPECTS'', ''PITCH_ENGINE'', ''WHISPER_MODEL'',
     ''WHISPER_COMPUTE_TYPE'', ''DEMUCS_MODEL'', ''SCORING_VERSION'', ''ACCOMPANIMENT_DETECT_THRESHOLD'',
     ''KEY_SHIFT_MIN_SEMITONES'', ''KEY_SHIFT_MAX_IQR'', ''MAX_KEY_SHIFT_SEMITONES'', ''POSTGRES_HOST'', ''POSTGRES_PORT'',
     ''REDIS_HOST'', ''REDIS_PORT'', ''REDIS_DB'']"

lemma bad_fields_none:
  assumes "\<And>name. name \<in> set OPTIONAL_NAMES \<Longrightarrow> lookup_var lib e name = None"
    and "\<And>name. name \<in> set REQUIRED_NAMES \<Longrightarrow> lookup_var lib e name \<noteq> None"
    and "lookup_var lib e ''WORKER_CPU_THREADS'' = Some raw" and "as_int lib raw = Some n"
  shows "bad_fields lib e = []"
  using assms by (simp add: bad_fields_def settings_field_def required_field_def OPTIONAL_NAMES_def REQUIRED_NAMES_def)

lemma settings_of_required:
  assumes "\<And>name. name \<in> set OPTIONAL_NAMES \<Longrightarrow> lookup_var lib e name = None"
    and "map (lookup_var lib e) REQUIRED_NAMES = map Some [clean, mixed, pg_db, pg_user, pg_password, redis_pass]"
    and "lookup_var lib e ''WORKER_CPU_THREADS'' = Some raw" and "as_int lib raw = Some n"
  shows "settings_of lib e = (default_settings clean mixed pg_db pg_user pg_password redis_pass)\<lparr>worker_cpu_threads := n\<rparr>"
proof -
  have opt': "list_all (\<lambda>name. lookup_var lib e name = None) OPTIONAL_NAMES" using assms(1) by (simp add: list_all_iff)
  have req: "lookup_var lib e ''SCORING_WEIGHTS_CLEAN'' = Some clean" "lookup_var lib e ''SCORING_WEIGHTS_MIXED'' = Some mixed"
    "lookup_var lib e ''POSTGRES_DB'' = Some pg_db" "lookup_var lib e ''POSTGRES_USER'' = Some pg_user"
    "lookup_var lib e ''POSTGRES_PASSWORD'' = Some pg_password" "lookup_var lib e ''REDIS_PASSWORD'' = Some redis_pass"
    using assms(2) by (simp_all add: REQUIRED_NAMES_def)
  show ?thesis
    unfolding settings_of_def default_settings_def settings_field_def required_field_def req assms(3)
    using opt' by (simp add: OPTIONAL_NAMES_def assms(4))
qed

lemma setup_torch_threads:
  assumes "worker_setup st out w = (y, w1)"
  shows "torch_threads w1 = Some (worker_cpu_threads st, max 1 (worker_cpu_threads st div 2))"
proof -
  let ?T = "\<lambda>w. torch_threads w = Some (worker_cpu_threads st, max 1 (worker_cpu_threads st div 2))"
  let ?rest = "thenp (for_each (\<lambda>dir. attempt (wo_mkdir out dir) (\<lambda>w. w\<lparr>directories := directories w @ [dir]\<rparr>))
        [audio_storage_dir st, song_stems_dir st, model_weights_dir st]) (open_connections out)"
  let ?w = "w\<lparr>torch_threads := Some (worker_cpu_threads st, max 1 (worker_cpu_threads st div 2))\<rparr>"
  have rest: "keeps ?T ?rest"
    unfolding open_connections_def by (intro keeps_rules keeps_attempt) simp_all
  have "worker_setup st out w = ?rest ?w" unfolding worker_setup_def by (rule thenp_Inr) (rule modifyp_run)
  then have out: "?rest ?w = (y, w1)" using assms by simp
  show ?thesis by (rule keepsE [OF rest _ out]) simp
qed

lemma required_settings_load:
  assumes "e' = snd (configure_worker_threads h e)" and "n = fst (configure_worker_threads h e)"
    and "as_int lib (show_int n) = Some n"
    and "\<forall>name \<in> insert ''WORKER_CPU_THREADS'' (set (REQUIRED_NAMES @ OPTIONAL_NAMES)). lookup_var lib e' name = e' name"
    and "map e REQUIRED_NAMES = map Some [clean, mixed, pg_db, pg_user, pg_password, redis_pass]"
    and "\<forall>name \<in> set OPTIONAL_NAMES. e name = None"
    and "parse_weights clean Clean = Inr pc" and "parse_weights mixed Mixed = Inr pm"
  shows "load_settings lib e' = Inr ((default_settings clean mixed pg_db pg_user pg_password redis_pass)\<lparr>worker_cpu_threads := n\<rparr>,
    \<lambda>m. case m of Clean \<Rightarrow> pc | Mixed \<Rightarrow> pm)"
proof -
  let ?st = "(default_settings clean mixed pg_db pg_user pg_password redis_pass)\<lparr>worker_cpu_threads := n\<rparr>"
  have env: "e' var = (if var \<in> insert ''WORKER_CPU_THREADS'' (set BLAS_THREAD_ENV_VARS) then Some (show_int n) else e var)" for var
    using threads_configured [of h e] assms(1,2) by auto
  have kept: "e' name = e name" if "name \<in> set (REQUIRED_NAMES @ OPTIONAL_NAMES)" for name
    using that by (auto simp: env REQUIRED_NAMES_def OPTIONAL_NAMES_def BLAS_THREAD_ENV_VARS_def)
  have threads: "lookup_var lib e' ''WORKER_CPU_THREADS'' = Some (show_int n)" using assms(4) env by simp
  have opt: "lookup_var lib e' name = None" if "name \<in> set OPTIONAL_NAMES" for name
    using assms(4,6) kept that by simp
  have "map (lookup_var lib e') REQUIRED_NAMES = map e REQUIRED_NAMES" using assms(4) kept by (intro map_cong) simp_all
  then have req: "map (lookup_var lib e') REQUIRED_NAMES = map Some [clean, mixed, pg_db, pg_user, pg_password, redis_pass]"
    using assms(5) by simp
  have "lookup_var lib e' name \<noteq> None" if "name \<in> set REQUIRED_NAMES" for name
  proof -
    have "lookup_var lib e' name \<in> set (map (lookup_var lib e') REQUIRED_NAMES)" using that by simp
    then show ?thesis unfolding req by auto
  qed
  then have "bad_fields lib e' = []" using bad_fields_none [of lib e'] opt threads assms(3) by blast
  moreover have "settings_of lib e' = ?st" using settings_of_required [OF opt req threads assms(3)] by simp
  moreover have "parse_scoring_weights ?st = Inr (\<lambda>m. case m of Clean \<Rightarrow> pc | Mixed \<Rightarrow> pm)"
    using assms(7,8) by (simp add: parse_scoring_weights_def default_settings_def)
  ultimately show ?thesis by (simp add: load_settings_def)
qed

section \<open>A concrete start\<close>

text \<open>The example environment on a host with eight CPUs and no quota.\<close>

definition demo_library :: settings_library where
  "demo_library = \<lparr>lookup_var = \<lambda>e name. e name, as_int = py_int_of, as_float = \<lambda>_. None, as_bool = \<lambda>_. None\<rparr>"

definition demo_environ :: env where
  "demo_environ = map_of
     [(''SCORING_WEIGHTS_CLEAN'', profile_text demo_clean_profile), (''SCORING_WEIGHTS_MIXED'', profile_text demo_mixed_profile),
      (''POSTGRES_DB'', ''vc''), (''POSTGRES_USER'', ''vc''), (''POSTGRES_PASSWORD'', ''pw''), (''REDIS_PASSWORD'', ''rp'')]"

definition demo_host :: host where
  "demo_host = \<lparr>file_at = \<lambda>_. Absent, cpu_count = Some 8\<rparr>"

lemma demo_threads: "fst (configure_worker_threads demo_host demo_environ) = 8"
  by (simp add: configure_worker_threads_def Let_def configured_threads_def demo_environ_def py_int_of_def strip_def is_space_def
      digit_of_def detect_cpu_count_def cgroup_cpu_limit_def cgroup_quota_def file_exists_def demo_host_def)

lemma demo_environ_facts:
  "as_int demo_library (show_int 8) = Some 8"
  "\<forall>name \<in> insert ''WORKER_CPU_THREADS'' (set (REQUIRED_NAMES @ OPTIONAL_NAMES)).
     lookup_var demo_library (snd (configure_worker_threads demo_host demo_environ)) name = snd (configure_worker_threads demo_host demo_environ) name"
  "map demo_environ REQUIRED_NAMES = map Some [profile_text demo_clean_profile, profile_text demo_mixed_profile, ''vc'', ''vc'', ''pw'', ''rp'']"
  "\<forall>name \<in> set OPTIONAL_NAMES. demo_environ name = None"
  by (simp_all add: demo_library_def py_int_show demo_environ_def REQUIRED_NAMES_def OPTIONAL_NAMES_def)

lemma demo_profiles_parse:
  "parse_weights (profile_text demo_clean_profile) Clean = Inr (demo_profiles Clean)"
  "parse_weights (profile_text demo_mixed_profile) Mixed = Inr (demo_profiles Mixed)"
  using demo_profiles_parsed
  by (auto simp: parse_scoring_weights_def demo_settings_def default_settings_def split: sum.splits) (metis mode.case)+

lemma demo_loaded: "\<exists>st pw. load_settings demo_library (snd (configure_worker_threads demo_host demo_environ)) = Inr (st, pw)"
  using required_settings_load [OF refl demo_threads [symmetric] demo_environ_facts demo_profiles_parse] by blast

section \<open>Properties\<close>

text \<open>
  C22: Started with the required variables alone, on any host, the process loads the default settings with the
  thread count it found: at least one thread, which every variable of the numeric libraries holds, the count
  of torch's pool, and half of it, at least one, of its pool between operations; other variables keep their
  values, and configuring again, even on another host, changes nothing.
\<close>

theorem startup_settings:
  assumes "e' = snd (configure_worker_threads h e)" and "n = fst (configure_worker_threads h e)"
    and "as_int lib (show_int n) = Some n"
    and "\<forall>name \<in> insert ''WORKER_CPU_THREADS'' (set (REQUIRED_NAMES @ OPTIONAL_NAMES)). lookup_var lib e' name = e' name"
    and "map e REQUIRED_NAMES = map Some [clean, mixed, pg_db, pg_user, pg_password, redis_pass]"
    and "\<forall>name \<in> set OPTIONAL_NAMES. e name = None"
    and "parse_weights clean Clean = Inr pc" and "parse_weights mixed Mixed = Inr pm"
  shows "1 \<le> n \<and> configure_worker_threads h' e' = (n, e') \<and>
    (\<forall>var. e' var = (if var \<in> insert ''WORKER_CPU_THREADS'' (set BLAS_THREAD_ENV_VARS) then Some (show_int n) else e var)) \<and>
    (\<exists>st. st = (default_settings clean mixed pg_db pg_user pg_password redis_pass)\<lparr>worker_cpu_threads := n\<rparr> \<and>
      load_settings lib e' = Inr (st, \<lambda>m. case m of Clean \<Rightarrow> pc | Mixed \<Rightarrow> pm) \<and>
      (\<forall>out w y w1. worker_setup st out w = (y, w1) \<longrightarrow> torch_threads w1 = Some (n, max 1 (n div 2))))"
proof -
  have env: "1 \<le> n" "configure_worker_threads h' e' = (n, e')"
    "e' var = (if var \<in> insert ''WORKER_CPU_THREADS'' (set BLAS_THREAD_ENV_VARS) then Some (show_int n) else e var)" for var
    using threads_configured [of h e h'] assms(1,2) by auto
  have "torch_threads w1 = Some (n, max 1 (n div 2))"
    if "worker_setup ((default_settings clean mixed pg_db pg_user pg_password redis_pass)\<lparr>worker_cpu_threads := n\<rparr>) out w = (y, w1)"
    for out w y w1
    using setup_torch_threads [OF that] by simp
  then show ?thesis using env required_settings_load [OF assms] by blast
qed

theorem startup_settings_witness:
  "\<exists>st pw. load_settings demo_library (snd (configure_worker_threads demo_host demo_environ)) = Inr (st, pw) \<and>
    worker_cpu_threads st = 8 \<and> pitch_engine st = Crepe \<and> nonnegative (pw Clean)"
  using startup_settings [OF refl demo_threads [symmetric] demo_environ_facts demo_profiles_parse] demo_profiles_nonnegative [of Clean]
  by (auto simp: default_settings_def)



end
